theory Spec2Isabelle
  imports Complex_Main "HOL-Library.Word"
begin

unbundle bit_operations_syntax

section \<open>JavaScript values\<close>

text \<open>
  A JavaScript string is a sequence of UTF-16 code units; \<open>length\<close>, \<open>substring\<close>,
  \<open>charCodeAt\<close> and the regular expressions of the source all work on code units. A code
  unit is modelled by its number. \<open>lit\<close> writes a string literal of the source.
\<close>

type_synonym jstring = "nat list"

definition lit :: "string \<Rightarrow> jstring" where
  "lit s = map of_char s"

text \<open>
  The values a parsed JSON document or a query string can hold. \<open>JNum\<close> holds an
  integer from \<open>-2^53\<close> to \<open>2^53 - 1\<close>, kept as a signed 54-bit word and read with \<open>sint\<close>:
  each of these is a double, and ToString renders it in plain decimal digits. Numbers
  with a fraction or outside this range are not values of the type. An object is the list
  of its own properties in insertion order, with distinct keys, as \<open>JSON.parse\<close> builds
  it: its prototype is \<open>Object.prototype\<close> and none of its properties is callable.
\<close>

datatype jsval =
    JUndefined
  | JNull
  | JBool bool
  | JNum "54 word"
  | JStr jstring
  | JArr "jsval list"
  | JObj "(jstring \<times> jsval) list"

datatype jstype = TUndefined | TObject | TBoolean | TNumber | TString

fun typeof :: "jsval \<Rightarrow> jstype" where
  "typeof JUndefined = TUndefined"
| "typeof JNull = TObject"
| "typeof (JBool b) = TBoolean"
| "typeof (JNum n) = TNumber"
| "typeof (JStr s) = TString"
| "typeof (JArr xs) = TObject"
| "typeof (JObj kvs) = TObject"

text \<open>ToBoolean: what \<open>!v\<close>, \<open>v || d\<close> and \<open>if (v)\<close> test.\<close>

fun truthy :: "jsval \<Rightarrow> bool" where
  "truthy JUndefined = False"
| "truthy JNull = False"
| "truthy (JBool b) = b"
| "truthy (JNum n) = (n \<noteq> 0)"
| "truthy (JStr s) = (s \<noteq> [])"
| "truthy (JArr xs) = True"
| "truthy (JObj kvs) = True"

text \<open>Decimal rendering of an integer, as ToString does below \<open>10^21\<close>.\<close>

fun digits :: "nat \<Rightarrow> jstring" where
  "digits n = (if n < 10 then [48 + n] else digits (n div 10) @ [48 + n mod 10])"

declare digits.simps [simp del]

definition number_to_string :: "int \<Rightarrow> jstring" where
  "number_to_string n = (if n < 0 then 45 # digits (nat (- n)) else digits (nat n))"

fun join_with :: "jstring \<Rightarrow> jstring list \<Rightarrow> jstring" where
  "join_with sep [] = []"
| "join_with sep [x] = x"
| "join_with sep (x # y # ys) = x @ sep @ join_with sep (y # ys)"

text \<open>
  Reading one of the properties the source reads (\<open>title\<close>, \<open>url\<close>, \<open>source\<close>, \<open>name\<close>,
  ...) from a value that is neither \<open>null\<close> nor \<open>undefined\<close>: an object yields the
  stored value, and every other value, which has no such property, \<open>undefined\<close>.
\<close>

fun get_prop :: "jsval \<Rightarrow> string \<Rightarrow> jsval" where
  "get_prop (JObj kvs) k = (case map_of kvs (lit k) of Some v \<Rightarrow> v | None \<Rightarrow> JUndefined)"
| "get_prop v k = JUndefined"

section \<open>Errors\<close>

text \<open>
  The error classes of \<open>NewsErrors.js\<close>, and the built-in errors the code raises or the
  runtime raises for it. \<open>JsError\<close> is a plain \<open>Error\<close>. An error object holds the
  \<open>message\<close> its constructor computed, and the fields the constructor stored:
  \<open>InvalidQueryError\<close> its \<open>query\<close>, \<open>ProviderNotFoundError\<close> its \<open>providerName\<close> and
  \<open>availableProviders\<close>, \<open>ExternalAPIError\<close> its \<open>providerName\<close> and \<open>originalError\<close>.
\<close>

datatype error =
    JsError jstring
  | TypeError jstring
  | SyntaxError jstring
  | ValidationError jstring
  | InvalidQueryError jsval jstring
  | ProviderNotFoundError jsval "jstring list" jstring
  | ProviderConfigurationError jstring
  | NoProvidersAvailableError
  | ExternalAPIError jstring error

fun message :: "error \<Rightarrow> jstring" where
  "message (JsError m) = m"
| "message (TypeError m) = m"
| "message (SyntaxError m) = m"
| "message (ValidationError m) = m"
| "message (InvalidQueryError query m) = m"
| "message (ProviderNotFoundError providerName availableProviders m) = m"
| "message (ProviderConfigurationError m) = m"
| "message NoProvidersAvailableError =
     lit ''No news providers are configured. Please set API keys in environment variables.''"
| "message (ExternalAPIError providerName originalError) =
     lit ''External API error from '' @ providerName @ lit '': '' @ message originalError"

text \<open>\<open>statusCode\<close>: set by \<open>NewsError\<close> and its subclasses, absent on built-in errors.\<close>

fun statusCode :: "error \<Rightarrow> nat option" where
  "statusCode (JsError m) = None"
| "statusCode (TypeError m) = None"
| "statusCode (SyntaxError m) = None"
| "statusCode (ValidationError m) = Some 400"
| "statusCode (InvalidQueryError q m) = Some 400"
| "statusCode (ProviderNotFoundError n ps m) = Some 404"
| "statusCode (ProviderConfigurationError m) = Some 503"
| "statusCode NoProvidersAvailableError = Some 503"
| "statusCode (ExternalAPIError n e) = Some 502"

text \<open>
  ToString, which template literals, \<open>parseInt\<close> and \<open>URLSearchParams\<close> apply to a
  value, and ToPrimitive, which \<open>+\<close> applies to an operand: on the values of \<open>jsval\<close> the
  two fail together and otherwise \<open>+\<close> concatenates the string ToString gives (numbers and
  booleans apart, see \<open>id_source\<close>). An object converts through its \<open>toString\<close> property:
  the inherited \<open>Object.prototype.toString\<close> answers \<open>[object Object]\<close>, but a property
  \<open>toString\<close> of the object's own hides it, is not callable, and the conversion throws a
  TypeError (the inherited \<open>valueOf\<close> returns the object itself, and one of the object's
  own is not callable either). An array joins the conversions of its elements with
  commas, from left to right, \<open>null\<close> and \<open>undefined\<close> elements as the empty string, and
  throws when an element does.
\<close>

fun to_jstring :: "jsval \<Rightarrow> error + jstring"
  and join_elements :: "jsval list \<Rightarrow> error + jstring" where
  "to_jstring JUndefined = Inr (lit ''undefined'')"
| "to_jstring JNull = Inr (lit ''null'')"
| "to_jstring (JBool b) = Inr (if b then lit ''true'' else lit ''false'')"
| "to_jstring (JNum n) = Inr (number_to_string (sint n))"
| "to_jstring (JStr s) = Inr s"
| "to_jstring (JArr xs) = join_elements xs"
| "to_jstring (JObj kvs) =
     (if map_of kvs (lit ''toString'') \<noteq> None
      then Inl (TypeError (lit ''Cannot convert object to primitive value''))
      else Inr (lit ''[object Object]''))"
| "join_elements [] = Inr []"
| "join_elements (x # xs) =
     (case (if x = JUndefined \<or> x = JNull then Inr [] else to_jstring x) of
        Inl e \<Rightarrow> Inl e
      | Inr s \<Rightarrow>
          if xs = [] then Inr s
          else (case join_elements xs of Inl e \<Rightarrow> Inl e | Inr r \<Rightarrow> Inr (s @ [44] @ r)))"

text \<open>
  What \<open>throw new InvalidQueryError(query, reason)\<close> and
  \<open>throw new ProviderNotFoundError(providerName, availableProviders)\<close> throw: the error
  built, or the TypeError of the message template when the value does not convert.
\<close>

definition throw_InvalidQueryError :: "jsval \<Rightarrow> jstring \<Rightarrow> error" where
  "throw_InvalidQueryError query reason =
     (case to_jstring query of
        Inl e \<Rightarrow> e
      | Inr s \<Rightarrow> InvalidQueryError query (reason @ lit '': '' @ [39] @ s @ [39]))"

definition throw_ProviderNotFoundError :: "jsval \<Rightarrow> jstring list \<Rightarrow> error" where
  "throw_ProviderNotFoundError providerName availableProviders =
     (case to_jstring providerName of
        Inl e \<Rightarrow> e
      | Inr s \<Rightarrow>
          ProviderNotFoundError providerName availableProviders
            (if length availableProviders > 0
             then [80,114,111,118,105,100,101,114,32,39] @ s
                  @ [39] @ lit '' not found. Available providers: ''
                  @ join_with (lit '', '') availableProviders
             else [80,114,111,118,105,100,101,114,32,39] @ s @ [39] @ lit '' not found''))"

section \<open>Numbers\<close>

text \<open>
  The Numbers the client computes with: \<open>NaN\<close>, the two infinities, and the doubles
  that are integers. Fractions do not occur: the only division is under \<open>Math.ceil\<close>. The
  sign of zero is not kept; nothing in the client can tell \<open>-0\<close> from \<open>0\<close>.
\<close>

datatype jsnum = NaN | PosInf | NegInf | Finite int

text \<open>The number of binary digits of a natural number.\<close>

fun bit_length :: "nat \<Rightarrow> nat" where
  "bit_length n = (if n = 0 then 0 else Suc (bit_length (n div 2)))"

declare bit_length.simps [simp del]

text \<open>
  The double nearest to a nonnegative rational \<open>p / q\<close> (\<open>q > 0\<close>), as a mantissa \<open>m\<close> and
  an exponent \<open>t\<close>, the double being \<open>m * 2^t\<close>: \<open>t\<close> is the exponent of the unit in the last
  place, 52 below the exponent of \<open>p / q\<close> and at least \<open>-1074\<close>, and \<open>m\<close> is \<open>p / (q * 2^t)\<close>
  rounded to the nearest integer, a tie to the even one.
\<close>

definition round_half_even :: "nat \<Rightarrow> nat \<Rightarrow> nat" where
  "round_half_even n d =
     (let k = n div d; r = n mod d
      in if 2 * r < d then k else if 2 * r > d then k + 1
         else if even k then k else k + 1)"

definition ratio_exponent :: "nat \<Rightarrow> nat \<Rightarrow> int" where
  "ratio_exponent p q =
     (let e0 = int (bit_length p) - int (bit_length q)
      in if (if e0 \<ge> 0 then p \<ge> q * 2 ^ nat e0 else p * 2 ^ nat (- e0) \<ge> q)
         then e0 else e0 - 1)"

definition nearest_double :: "nat \<Rightarrow> nat \<Rightarrow> nat \<times> int" where
  "nearest_double p q =
     (let t = max (ratio_exponent p q - 52) (- 1074)
      in (if t \<ge> 0 then round_half_even p (q * 2 ^ nat t)
          else round_half_even (p * 2 ^ nat (- t)) q, t))"

text \<open>
  The Number of an integer: the nearest double, infinite when that is \<open>2^1024\<close> or more.
  Integers up to \<open>2^53\<close> in absolute value are doubles themselves.
\<close>

definition rnd :: "int \<Rightarrow> jsnum" where
  "rnd n =
     (if \<bar>n\<bar> \<le> 2 ^ 53 then Finite n
      else
        let (m, t) = nearest_double (nat \<bar>n\<bar>) 1;
            v = int m * 2 ^ nat t
        in if v \<ge> 2 ^ 1024 then (if n < 0 then NegInf else PosInf)
           else Finite (if n < 0 then - v else v))"

text \<open>\<open>a + b\<close>, \<open>a - b\<close> and \<open>a * b\<close> on Numbers: the exact result, rounded.\<close>

fun js_add :: "jsnum \<Rightarrow> jsnum \<Rightarrow> jsnum" where
  "js_add (Finite a) (Finite b) = rnd (a + b)"
| "js_add NaN b = NaN"
| "js_add a NaN = NaN"
| "js_add PosInf NegInf = NaN"
| "js_add NegInf PosInf = NaN"
| "js_add PosInf b = PosInf"
| "js_add NegInf b = NegInf"
| "js_add a PosInf = PosInf"
| "js_add a NegInf = NegInf"

fun js_neg :: "jsnum \<Rightarrow> jsnum" where
  "js_neg NaN = NaN"
| "js_neg PosInf = NegInf"
| "js_neg NegInf = PosInf"
| "js_neg (Finite a) = Finite (- a)"

definition js_sub :: "jsnum \<Rightarrow> jsnum \<Rightarrow> jsnum" where
  "js_sub a b = js_add a (js_neg b)"

text \<open>The sign of a Number that is not \<open>NaN\<close>: \<open>-1\<close>, \<open>0\<close> or \<open>1\<close>.\<close>

fun js_sign :: "jsnum \<Rightarrow> int" where
  "js_sign NaN = 0"
| "js_sign PosInf = 1"
| "js_sign NegInf = - 1"
| "js_sign (Finite a) = sgn a"

fun js_mul :: "jsnum \<Rightarrow> jsnum \<Rightarrow> jsnum" where
  "js_mul (Finite a) (Finite b) = rnd (a * b)"
| "js_mul NaN b = NaN"
| "js_mul a NaN = NaN"
| "js_mul a b =
     (if js_sign a * js_sign b = 0 then NaN
      else if js_sign a * js_sign b > 0 then PosInf else NegInf)"

text \<open>\<open>a < b\<close>, false when an operand is \<open>NaN\<close>; \<open>a > b\<close> is \<open>b < a\<close>.\<close>

fun js_less :: "jsnum \<Rightarrow> jsnum \<Rightarrow> bool" where
  "js_less (Finite a) (Finite b) = (a < b)"
| "js_less NaN b = False"
| "js_less a NaN = False"
| "js_less a NegInf = False"
| "js_less PosInf b = False"
| "js_less NegInf b = True"
| "js_less a PosInf = True"

text \<open>\<open>a >= b\<close>, false when an operand is \<open>NaN\<close>.\<close>

definition js_ge :: "jsnum \<Rightarrow> jsnum \<Rightarrow> bool" where
  "js_ge a b \<longleftrightarrow> a \<noteq> NaN \<and> b \<noteq> NaN \<and> \<not> js_less a b"

text \<open>\<open>Math.max(a, b)\<close>\<close>

definition js_max :: "jsnum \<Rightarrow> jsnum \<Rightarrow> jsnum" where
  "js_max a b = (if a = NaN \<or> b = NaN then NaN else if js_less a b then b else a)"

text \<open>\<open>isNaN(a)\<close> and ToBoolean of a Number.\<close>

definition isNaN :: "jsnum \<Rightarrow> bool" where
  "isNaN a \<longleftrightarrow> a = NaN"

definition num_truthy :: "jsnum \<Rightarrow> bool" where
  "num_truthy a \<longleftrightarrow> a \<noteq> NaN \<and> a \<noteq> Finite 0"

text \<open>
  \<open>Math.ceil(a / b)\<close>: the quotient is the double nearest to the exact one, and the
  ceiling of a double is exact. A zero divisor is the positive zero.
\<close>

definition ceil_of_double :: "nat \<times> int \<Rightarrow> int" where
  "ceil_of_double d =
     (case d of (m, t) \<Rightarrow>
        if t \<ge> 0 then int m * 2 ^ nat t else - ((- int m) div 2 ^ nat (- t)))"

definition floor_of_double :: "nat \<times> int \<Rightarrow> int" where
  "floor_of_double d =
     (case d of (m, t) \<Rightarrow>
        if t \<ge> 0 then int m * 2 ^ nat t else int m div 2 ^ nat (- t))"

fun js_ceil_div :: "jsnum \<Rightarrow> jsnum \<Rightarrow> jsnum" where
  "js_ceil_div (Finite a) (Finite b) =
     (if b = 0 then (if a = 0 then NaN else if a > 0 then PosInf else NegInf)
      else if a = 0 then Finite 0
      else if sgn a * sgn b > 0
      then Finite (ceil_of_double (nearest_double (nat \<bar>a\<bar>) (nat \<bar>b\<bar>)))
      else Finite (- floor_of_double (nearest_double (nat \<bar>a\<bar>) (nat \<bar>b\<bar>))))"
| "js_ceil_div NaN b = NaN"
| "js_ceil_div a NaN = NaN"
| "js_ceil_div (Finite a) b = Finite 0"
| "js_ceil_div a (Finite b) =
     (if js_sign a * (if b < 0 then - 1 else 1) > 0 then PosInf else NegInf)"
| "js_ceil_div a b = NaN"

section \<open>ArticleData\<close>

text \<open>
  The characters \<open>String.prototype.trim\<close> strips and the class \<open>\s\<close> matches (ECMAScript
  WhiteSpace and LineTerminator): TAB, LF, VT, FF, CR, space, U+00A0, U+1680,
  U+2000 to U+200A, U+2028, U+2029, U+202F, U+205F, U+3000 and U+FEFF.
\<close>

definition is_ws :: "nat \<Rightarrow> bool" where
  "is_ws c \<longleftrightarrow>
     c = 9 \<or> c = 10 \<or> c = 11 \<or> c = 12 \<or> c = 13 \<or> c = 32 \<or> c = 160 \<or> c = 5760
     \<or> (8192 \<le> c \<and> c \<le> 8202) \<or> c = 8232 \<or> c = 8233 \<or> c = 8239 \<or> c = 8287
     \<or> c = 12288 \<or> c = 65279"

definition trim :: "jstring \<Rightarrow> jstring" where
  "trim s = rev (dropWhile is_ws (rev (dropWhile is_ws s)))"

text \<open>\<open>.replace(/\s+/g, ' ')\<close>: every maximal run of whitespace becomes one space.\<close>

function collapse_ws :: "jstring \<Rightarrow> jstring" where
  "collapse_ws [] = []"
| "collapse_ws (c # cs) =
     (if is_ws c then 32 # collapse_ws (dropWhile is_ws cs) else c # collapse_ws cs)"
  by pat_completeness auto
termination
  by (relation "measure length") (auto simp: le_imp_less_Suc length_dropWhile_le)

text \<open>\<open>.replace(/[\r\n\t]/g, ' ')\<close>\<close>

definition replace_crlftab :: "jstring \<Rightarrow> jstring" where
  "replace_crlftab s = map (\<lambda>c. if c = 13 \<or> c = 10 \<or> c = 9 then 32 else c) s"

definition sanitizeString :: "jsval \<Rightarrow> jstring" where
  "sanitizeString str =
     (case str of
        JStr s \<Rightarrow>
          if \<not> truthy str then []
          else take 5000 (replace_crlftab (collapse_ws (trim s)))
      | _ \<Rightarrow> [])"

text \<open>
  \<open>new URL(url)\<close> is the platform's URL parser; \<open>url_ok s\<close> says that it accepts \<open>s\<close>
  (does not throw).
\<close>

definition validateUrl :: "(jstring \<Rightarrow> bool) \<Rightarrow> jsval \<Rightarrow> jstring option" where
  "validateUrl url_ok url =
     (case url of
        JStr s \<Rightarrow> if \<not> truthy url then None else if url_ok s then Some s else None
      | _ \<Rightarrow> None)"

text \<open>\<open>new Date(date)\<close> never throws; the Date it builds is kept as its argument.\<close>

datatype jsdate = Date jstring

definition validateDate :: "jsval \<Rightarrow> jsdate option" where
  "validateDate date =
     (case date of
        JStr s \<Rightarrow> if \<not> truthy date then None else Some (Date s)
      | _ \<Rightarrow> None)"

record source =
  src_name :: jstring
  src_url :: "jstring option"

text \<open>\<open>s || d\<close> for a string \<open>s\<close>.\<close>

definition or_default :: "jstring \<Rightarrow> jstring \<Rightarrow> jstring" where
  "or_default s d = (if s \<noteq> [] then s else d)"

definition normalizeSource :: "(jstring \<Rightarrow> bool) \<Rightarrow> jsval \<Rightarrow> source" where
  "normalizeSource url_ok src =
     (if \<not> truthy src \<or> typeof src \<noteq> TObject
      then \<lparr>src_name = lit ''Unknown'', src_url = None\<rparr>
      else \<lparr>src_name = or_default (sanitizeString (get_prop src ''name'')) (lit ''Unknown''),
            src_url = validateUrl url_ok (get_prop src ''url'')\<rparr>)"

text \<open>
  ToInt32, which the operators \<open><<\<close> and \<open>&\<close> apply to their operands and their result.
\<close>

definition ToInt32 :: "int \<Rightarrow> int" where
  "ToInt32 x = (let m = x mod 2 ^ 32 in if m \<ge> 2 ^ 31 then m - 2 ^ 32 else m)"

definition shift_left :: "int \<Rightarrow> nat \<Rightarrow> int" where
  "shift_left a n = ToInt32 (ToInt32 a * 2 ^ (n mod 32))"

definition bit_and :: "int \<Rightarrow> int \<Rightarrow> int" where
  "bit_and a b = ToInt32 (ToInt32 a AND ToInt32 b)"

text \<open>The reducer of \<open>_generateId\<close>: \<open>a = ((a << 5) - a) + b.charCodeAt(0); return a & a\<close>.\<close>

definition hash_step :: "int \<Rightarrow> nat \<Rightarrow> int" where
  "hash_step a b = (let a' = (shift_left a 5 - a) + int b in bit_and a' a')"

definition hash_string :: "jstring \<Rightarrow> int" where
  "hash_string s = foldl hash_step 0 s"

text \<open>
  \<open>this.url + this.provider + this.title\<close>. \<open>url\<close> is a string or \<open>null\<close>, \<open>provider\<close> a
  truthy value, \<open>title\<close> a string. \<open>+\<close> concatenates when an operand is a string or an
  object, and adds numbers otherwise: \<open>null + 5\<close> is \<open>5\<close> and \<open>null + true\<close> is \<open>1\<close>. It
  throws the TypeError of the conversion when \<open>provider\<close> does not convert.
\<close>

definition id_source :: "jstring option \<Rightarrow> jsval \<Rightarrow> jstring \<Rightarrow> error + jstring" where
  "id_source url provider title =
     (case url of
        Some u \<Rightarrow>
          (case to_jstring provider of Inl e \<Rightarrow> Inl e | Inr p \<Rightarrow> Inr (u @ p @ title))
      | None \<Rightarrow>
          (case provider of
             JNum n \<Rightarrow> Inr (number_to_string (sint n) @ title)
           | JBool b \<Rightarrow> Inr (number_to_string (if b then 1 else 0) @ title)
           | _ \<Rightarrow>
               (case to_jstring provider of
                  Inl e \<Rightarrow> Inl e
                | Inr p \<Rightarrow> Inr (lit ''null'' @ p @ title))))"

text \<open>
  \<open>_generateId\<close>: the hash of that string, then the template
  \<open>`${this.provider}_${Math.abs(hash)}`\<close>.
\<close>

definition generateId :: "jstring option \<Rightarrow> jsval \<Rightarrow> jstring \<Rightarrow> error + jstring" where
  "generateId url provider title =
     (case id_source url provider title of
        Inl e \<Rightarrow> Inl e
      | Inr src \<Rightarrow>
          let hash = hash_string src
          in (case to_jstring provider of
                Inl e \<Rightarrow> Inl e
              | Inr p \<Rightarrow> Inr (p @ lit ''_'' @ number_to_string \<bar>hash\<bar>)))"

record article =
  art_id :: jstring
  art_title :: jstring
  art_description :: jstring
  art_content :: jstring
  art_url :: "jstring option"
  art_urlToImage :: "jstring option"
  art_publishedAt :: "jsdate option"
  art_source :: source
  art_provider :: jsval
  art_createdAt :: jstring

text \<open>\<open>data.provider || 'unknown'\<close>\<close>

definition provider_of :: "jsval \<Rightarrow> jsval" where
  "provider_of data =
     (if truthy (get_prop data ''provider'') then get_prop data ''provider''
      else JStr (lit ''unknown''))"

text \<open>
  \<open>new ArticleData(data)\<close>. Reading a property of \<open>null\<close> or \<open>undefined\<close> raises a
  TypeError; every other value can be read. The fields are computed in the order of the
  source, none of them throws, and \<open>_generateId\<close> comes last but for the timestamp.
  \<open>now\<close> is \<open>new Date().toISOString()\<close>.
\<close>

definition ArticleData :: "(jstring \<Rightarrow> bool) \<Rightarrow> jstring \<Rightarrow> jsval \<Rightarrow> error + article" where
  "ArticleData url_ok now data =
     (if data = JUndefined \<or> data = JNull
      then Inl (TypeError (lit ''Cannot read properties of ''
                           @ (if data = JNull then lit ''null'' else lit ''undefined'')))
      else
        let title = or_default (sanitizeString (get_prop data ''title'')) (lit ''No title available'');
            description = or_default (sanitizeString (get_prop data ''description'')) [];
            content = or_default (sanitizeString (get_prop data ''content'')) [];
            url = validateUrl url_ok (get_prop data ''url'');
            urlToImage = validateUrl url_ok (get_prop data ''urlToImage'');
            publishedAt = validateDate (get_prop data ''publishedAt'');
            source = normalizeSource url_ok (get_prop data ''source'');
            provider = provider_of data
        in case generateId url provider title of
             Inl e \<Rightarrow> Inl e
           | Inr new_id \<Rightarrow>
               Inr \<lparr>art_id = new_id,
                    art_title = title,
                    art_description = description,
                    art_content = content,
                    art_url = url,
                    art_urlToImage = urlToImage,
                    art_publishedAt = publishedAt,
                    art_source = source,
                    art_provider = provider,
                    art_createdAt = now\<rparr>)"

text \<open>
  The class \<open>ArticleData\<close> declares the methods \<open>toJSON\<close>, \<open>getSummary\<close>,
  \<open>_sanitizeString\<close>, \<open>_validateUrl\<close>, \<open>_normalizeSource\<close>, \<open>_generateId\<close> and
  \<open>_validateDate\<close>, and the static \<open>fromProvider\<close> and \<open>fromProviderArray\<close>; it extends
  nothing. It declares no \<open>isValid\<close>, so \<open>article.isValid\<close> is \<open>undefined\<close> and the call
  \<open>article.isValid()\<close> raises a TypeError.
\<close>

definition call_isValid :: "article \<Rightarrow> error + bool" where
  "call_isValid a = Inl (TypeError (lit ''article.isValid is not a function''))"

text \<open>A value that is an object or an array: \<open>typeof v === 'object'\<close> and \<open>v\<close> not \<open>null\<close>.\<close>

fun is_object :: "jsval \<Rightarrow> bool" where
  "is_object (JObj kvs) = True"
| "is_object (JArr xs) = True"
| "is_object v = False"

text \<open>
  The words of a string: its maximal runs of non-whitespace characters, in order. Two
  strings with the same words differ only in their whitespace.
\<close>

function ws_words :: "jstring \<Rightarrow> jstring list" where
  "ws_words [] = []"
| "ws_words (c # cs) =
     (if is_ws c then ws_words cs
      else (c # takeWhile (\<lambda>x. \<not> is_ws x) cs) # ws_words (dropWhile (\<lambda>x. \<not> is_ws x) cs))"
  by pat_completeness auto
termination
  by (relation "measure length") (auto simp: le_imp_less_Suc length_dropWhile_le)

text \<open>A string that does not end in whitespace.\<close>

definition no_trailing_ws :: "jstring \<Rightarrow> bool" where
  "no_trailing_ws s \<longleftrightarrow> s = [] \<or> \<not> is_ws (last s)"

section \<open>Providers\<close>

type_synonym obj = "(jstring \<times> jsval) list"

text \<open>Sequencing of steps that may throw.\<close>

definition bind_result :: "error + 'a \<Rightarrow> ('a \<Rightarrow> error + 'b) \<Rightarrow> error + 'b" where
  "bind_result r f = (case r of Inl e \<Rightarrow> Inl e | Inr v \<Rightarrow> f v)"

fun map_result :: "('a \<Rightarrow> error + 'b) \<Rightarrow> 'a list \<Rightarrow> error + 'b list" where
  "map_result f [] = Inr []"
| "map_result f (x # xs) =
     bind_result (f x) (\<lambda>y. bind_result (map_result f xs) (\<lambda>ys. Inr (y # ys)))"

text \<open>\<open>.filter(article => article.isValid())\<close>\<close>

fun filter_isValid :: "article list \<Rightarrow> error + article list" where
  "filter_isValid [] = Inr []"
| "filter_isValid (a # as) =
     bind_result (call_isValid a) (\<lambda>keep.
       bind_result (filter_isValid as) (\<lambda>rest. Inr (if keep then a # rest else rest)))"

text \<open>\<open>v.k\<close>, which throws on \<open>null\<close> and \<open>undefined\<close>; \<open>v?.k\<close>; \<open>v || d\<close>.\<close>

definition read_prop :: "jsval \<Rightarrow> string \<Rightarrow> error + jsval" where
  "read_prop v k =
     (if v = JUndefined \<or> v = JNull
      then Inl (TypeError (lit ''Cannot read properties of ''
                           @ (if v = JNull then lit ''null'' else lit ''undefined'')))
      else Inr (get_prop v k))"

definition opt_prop :: "jsval \<Rightarrow> string \<Rightarrow> jsval" where
  "opt_prop v k = (if v = JUndefined \<or> v = JNull then JUndefined else get_prop v k)"

definition js_or :: "jsval \<Rightarrow> jsval \<Rightarrow> jsval" where
  "js_or v d = (if truthy v then v else d)"

text \<open>A destructuring default \<open>{k = d}\<close>: it applies when the property is \<open>undefined\<close>.\<close>

definition with_default :: "jsval \<Rightarrow> jsval \<Rightarrow> jsval" where
  "with_default v d = (if v = JUndefined then d else v)"

text \<open>\<open>rawArticles.map(f)\<close>: only an array has \<open>map\<close>.\<close>

definition array_map :: "(jsval \<Rightarrow> error + 'b) \<Rightarrow> jsval \<Rightarrow> error + 'b list" where
  "array_map f v =
     (case v of
        JArr xs \<Rightarrow> map_result f xs
      | _ \<Rightarrow> Inl (TypeError (lit ''rawArticles.map is not a function'')))"

text \<open>
  What a provider's \<open>searchNews\<close> and \<open>getTopHeadlines\<close> return. \<open>totalResults\<close> and
  \<open>actualResults\<close> are Numbers; \<open>actualResults\<close> and \<open>articles\<close> may be absent.
\<close>

record provider_result =
  res_status :: jstring
  res_totalResults :: jsnum
  res_actualResults :: "jsnum option"
  res_provider :: jstring
  res_articles :: "article list option"

definition SortBy_values :: "jstring list" where
  "SortBy_values = [lit ''relevance'', lit ''date'', lit ''publishedAt'']"

definition SearchInOptions_values :: "jstring list" where
  "SearchInOptions_values = [lit ''title'', lit ''description'', lit ''content'']"

definition NewsCategory_values :: "jstring list" where
  "NewsCategory_values =
     [lit ''general'', lit ''business'', lit ''entertainment'', lit ''health'',
      lit ''science'', lit ''sports'', lit ''technology'']"

text \<open>\<open>v && !Object.values(E).includes(v)\<close>\<close>

definition not_in_enum :: "jsval \<Rightarrow> jstring list \<Rightarrow> bool" where
  "not_in_enum v values \<longleftrightarrow> truthy v \<and> \<not> (\<exists>s \<in> set values. v = JStr s)"

text \<open>
  \<open>_validateOptions\<close>; \<open>mk\<close> is the error class the provider throws (\<open>ValidationError\<close>
  in GNewsProvider, \<open>Error\<close> in the two others).
\<close>

definition validateOptions :: "(jstring \<Rightarrow> error) \<Rightarrow> jsval \<Rightarrow> jsval \<Rightarrow> jsval \<Rightarrow> error + unit" where
  "validateOptions mk sortBy searchIn category =
     (if not_in_enum sortBy SortBy_values
      then Inl (mk (lit ''Invalid sortBy option. Must be one of: ''
                    @ join_with (lit '', '') SortBy_values))
      else if not_in_enum searchIn SearchInOptions_values
      then Inl (mk (lit ''Invalid searchIn option. Must be one of: ''
                    @ join_with (lit '', '') SearchInOptions_values))
      else if not_in_enum category NewsCategory_values
      then Inl (mk (lit ''Invalid category option. Must be one of: ''
                    @ join_with (lit '', '') NewsCategory_values))
      else Inr ())"

subsection \<open>GNewsProvider\<close>

text \<open>
  \<open>normalizeResponse\<close>; \<open>totalArticles\<close> is a Number of the library's response, and
  \<open>totalArticles || 0\<close> is 0 when it is absent.
\<close>

definition GNews_normalizeResponse :: "(jstring \<Rightarrow> bool) \<Rightarrow> jstring \<Rightarrow> jsval \<Rightarrow> error + provider_result" where
  "GNews_normalizeResponse url_ok now response =
     bind_result (read_prop response ''articles'') (\<lambda>as.
     bind_result
       (array_map (\<lambda>article.
          bind_result (read_prop article ''title'') (\<lambda>title.
            ArticleData url_ok now (JObj
              [(lit ''title'', title),
               (lit ''description'', get_prop article ''description''),
               (lit ''content'', get_prop article ''content''),
               (lit ''url'', get_prop article ''url''),
               (lit ''urlToImage'', get_prop article ''image''),
               (lit ''publishedAt'', get_prop article ''publishedAt''),
               (lit ''source'', JObj
                 [(lit ''name'',
                     js_or (opt_prop (get_prop article ''source'') ''name'') (JStr (lit ''Unknown''))),
                  (lit ''url'', js_or (opt_prop (get_prop article ''source'') ''url'') JNull)]),
               (lit ''provider'', JStr (lit ''gnews''))])))
          (js_or as (JArr [])))
       (\<lambda>articles.
          Inr \<lparr>res_status = lit ''ok'',
               res_totalResults =
                 (case get_prop response ''totalArticles'' of
                    JNum n \<Rightarrow> Finite (sint n) | _ \<Rightarrow> Finite 0),
               res_actualResults = Some (Finite (int (length articles))),
               res_provider = lit ''gnews'',
               res_articles = Some articles\<rparr>))"

text \<open>The properties copied into the parameters of the library call: the defined ones.\<close>

definition defined_params :: "obj \<Rightarrow> (string \<times> string) list \<Rightarrow> obj" where
  "defined_params options names =
     concat (map (\<lambda>(from_key, to_key).
        if get_prop (JObj options) from_key \<noteq> JUndefined
        then [(lit to_key, get_prop (JObj options) from_key)] else []) names)"

text \<open>
  \<open>client_search\<close> is the outcome of \<open>await this.client.search(query, searchParams)\<close>, a
  call into the GNews library: the response, or the error it threw.
\<close>

definition GNewsProvider_searchNews ::
  "(jstring \<Rightarrow> bool) \<Rightarrow> jstring \<Rightarrow> jsval \<Rightarrow> (jstring \<Rightarrow> obj \<Rightarrow> error + jsval)
   \<Rightarrow> jstring \<Rightarrow> obj \<Rightarrow> error + provider_result" where
  "GNewsProvider_searchNews url_ok now apiKey client_search query options =
     (if \<not> truthy apiKey
      then Inl (ProviderConfigurationError (lit ''GNews provider is not properly configured''))
      else
        bind_result
          (validateOptions ValidationError (get_prop (JObj options) ''sortBy'')
             (get_prop (JObj options) ''searchIn'') JUndefined)
          (\<lambda>_. let searchParams = defined_params options
                      [(''max'', ''max''), (''lang'', ''lang''), (''country'', ''country''),
                       (''from'', ''from''), (''to'', ''to''), (''sortBy'', ''sortby''),
                       (''searchIn'', ''in'')]
               in case bind_result (client_search query searchParams)
                         (GNews_normalizeResponse url_ok now) of
                    Inl error \<Rightarrow> Inl (ExternalAPIError (lit ''GNews'') error)
                  | Inr result \<Rightarrow> Inr result))"

definition GNewsProvider_getTopHeadlines ::
  "(jstring \<Rightarrow> bool) \<Rightarrow> jstring \<Rightarrow> jsval \<Rightarrow> (obj \<Rightarrow> error + jsval)
   \<Rightarrow> obj \<Rightarrow> error + provider_result" where
  "GNewsProvider_getTopHeadlines url_ok now apiKey client_topHeadlines options =
     (if \<not> truthy apiKey
      then Inl (ProviderConfigurationError (lit ''GNews provider is not properly configured''))
      else
        bind_result
          (validateOptions ValidationError JUndefined JUndefined
             (get_prop (JObj options) ''category''))
          (\<lambda>_. let headlineParams = defined_params options
                      [(''category'', ''category''), (''max'', ''max''), (''lang'', ''lang''),
                       (''country'', ''country'')]
               in case bind_result (client_topHeadlines headlineParams)
                         (GNews_normalizeResponse url_ok now) of
                    Inl error \<Rightarrow> Inl (ExternalAPIError (lit ''GNews'') error)
                  | Inr result \<Rightarrow> Inr result))"

subsection \<open>NewsAPIProvider and GuardianProvider\<close>

text \<open>
  What \<open>await fetch(url)\<close> resolves to: \<open>ok\<close>, \<open>status\<close>, \<open>statusText\<close>, and the outcome
  of \<open>await response.json()\<close>, which throws a SyntaxError on a malformed body. A network
  failure rejects the \<open>fetch\<close> itself.
\<close>

record http_response =
  ok :: bool
  status :: nat
  statusText :: jstring
  json :: "error + jsval"

text \<open>
  The query parameters. \<open>new URLSearchParams({k: v, ...})\<close> and \<open>params.append(k, v)\<close>
  convert each value with ToString, in order; \<open>params_all\<close> puts the parameters
  together, and fails with the first conversion that throws.
\<close>

definition param :: "string \<Rightarrow> jsval \<Rightarrow> error + (jstring \<times> jstring) list" where
  "param k v = (case to_jstring v of Inl e \<Rightarrow> Inl e | Inr s \<Rightarrow> Inr [(lit k, s)])"

text \<open>\<open>if (v) params.append(k, v)\<close>\<close>

definition append_if :: "string \<Rightarrow> jsval \<Rightarrow> error + (jstring \<times> jstring) list" where
  "append_if k v = (if truthy v then param k v else Inr [])"

fun params_all ::
  "(error + (jstring \<times> jstring) list) list \<Rightarrow> error + (jstring \<times> jstring) list" where
  "params_all [] = Inr []"
| "params_all (p # ps) =
     bind_result p (\<lambda>xs. bind_result (params_all ps) (\<lambda>ys. Inr (xs @ ys)))"

definition NewsAPI_normalizeResponse :: "(jstring \<Rightarrow> bool) \<Rightarrow> jstring \<Rightarrow> jsval \<Rightarrow> error + provider_result" where
  "NewsAPI_normalizeResponse url_ok now response =
     bind_result (read_prop response ''articles'') (\<lambda>as.
     bind_result
       (array_map (\<lambda>article.
          bind_result (read_prop article ''title'') (\<lambda>title.
            ArticleData url_ok now (JObj
              [(lit ''title'', title),
               (lit ''description'', get_prop article ''description''),
               (lit ''content'', get_prop article ''content''),
               (lit ''url'', get_prop article ''url''),
               (lit ''urlToImage'', get_prop article ''urlToImage''),
               (lit ''publishedAt'', get_prop article ''publishedAt''),
               (lit ''source'', get_prop article ''source''),
               (lit ''provider'', JStr (lit ''newsapi''))])))
          (js_or as (JArr [])))
       (\<lambda>mapped.
     bind_result (filter_isValid mapped) (\<lambda>articles.
          Inr \<lparr>res_status = lit ''ok'',
               res_totalResults = Finite (int (length articles)),
               res_actualResults = None,
               res_provider = lit ''newsapi'',
               res_articles = Some articles\<rparr>)))"

definition NewsAPI_mapSortBy :: "jsval \<Rightarrow> jstring" where
  "NewsAPI_mapSortBy sortBy =
     (if sortBy = JStr (lit ''relevance'') then lit ''relevancy''
      else if sortBy = JStr (lit ''date'') then lit ''publishedAt''
      else if sortBy = JStr (lit ''publishedAt'') then lit ''publishedAt''
      else lit ''relevancy'')"

text \<open>
  The body of a \<open>try\<close> whose \<open>catch (error)\<close> rethrows
  \<open>new Error(`<prefix>: ${error.message}`)\<close>.
\<close>

definition rethrow_as_Error :: "string \<Rightarrow> error + 'a \<Rightarrow> error + 'a" where
  "rethrow_as_Error prefix r =
     (case r of
        Inl error \<Rightarrow> Inl (JsError (lit prefix @ lit '': '' @ message error))
      | Inr v \<Rightarrow> Inr v)"

text \<open>
  The steps from \<open>await fetch(...)\<close> on, common to both providers: the \<open>ok\<close> test, the
  body, the normalisation.
\<close>

definition read_response ::
  "string \<Rightarrow> (jsval \<Rightarrow> error + provider_result) \<Rightarrow> error + http_response
   \<Rightarrow> error + provider_result" where
  "read_response who normalizeResponse fetched =
     bind_result fetched (\<lambda>response.
       if \<not> ok response
       then Inl (JsError (lit who @ lit '' request failed: '' @ digits (status response)
                          @ lit '' '' @ statusText response))
       else bind_result (json response) normalizeResponse)"

text \<open>
  \<open>fetch\<close> is the platform's HTTP client, given the endpoint and the query parameters
  before encoding. The parameters are built inside the \<open>try\<close>.
\<close>

definition NewsAPIProvider_searchNews ::
  "(jstring \<Rightarrow> bool) \<Rightarrow> jstring \<Rightarrow> jsval
   \<Rightarrow> (jstring \<Rightarrow> (jstring \<times> jstring) list \<Rightarrow> error + http_response)
   \<Rightarrow> jstring \<Rightarrow> obj \<Rightarrow> error + provider_result" where
  "NewsAPIProvider_searchNews url_ok now apiKey fetch query options =
     (if \<not> truthy apiKey
      then Inl (JsError (lit ''NewsAPI provider is not properly configured''))
      else
        let max = with_default (get_prop (JObj options) ''max'') (JNum 20);
            lang = with_default (get_prop (JObj options) ''lang'') (JStr (lit ''en''));
            sortBy = with_default (get_prop (JObj options) ''sortBy'') (JStr (lit ''relevance''))
        in bind_result (validateOptions JsError sortBy JUndefined JUndefined) (\<lambda>_.
             rethrow_as_Error ''NewsAPI search failed''
               (bind_result
                  (params_all
                     [Inr [(lit ''q'', query)], param ''pageSize'' max, param ''language'' lang,
                      Inr [(lit ''sortBy'', NewsAPI_mapSortBy sortBy)], param ''apiKey'' apiKey,
                      append_if ''from'' (get_prop (JObj options) ''from''),
                      append_if ''to'' (get_prop (JObj options) ''to'')])
                  (\<lambda>params.
                     read_response ''NewsAPI'' (NewsAPI_normalizeResponse url_ok now)
                       (fetch (lit ''https://newsapi.org/v2/everything'') params)))))"

definition NewsAPIProvider_getTopHeadlines ::
  "(jstring \<Rightarrow> bool) \<Rightarrow> jstring \<Rightarrow> jsval
   \<Rightarrow> (jstring \<Rightarrow> (jstring \<times> jstring) list \<Rightarrow> error + http_response)
   \<Rightarrow> obj \<Rightarrow> error + provider_result" where
  "NewsAPIProvider_getTopHeadlines url_ok now apiKey fetch options =
     (if \<not> truthy apiKey
      then Inl (JsError (lit ''NewsAPI provider is not properly configured''))
      else
        let category = get_prop (JObj options) ''category'';
            max = with_default (get_prop (JObj options) ''max'') (JNum 20);
            country = with_default (get_prop (JObj options) ''country'') (JStr (lit ''us''))
        in bind_result (validateOptions JsError JUndefined JUndefined category) (\<lambda>_.
             rethrow_as_Error ''NewsAPI top headlines failed''
               (bind_result
                  (params_all
                     [param ''pageSize'' max, param ''country'' country, param ''apiKey'' apiKey,
                      append_if ''category'' category])
                  (\<lambda>params.
                     read_response ''NewsAPI'' (NewsAPI_normalizeResponse url_ok now)
                       (fetch (lit ''https://newsapi.org/v2/top-headlines'') params)))))"

definition Guardian_normalizeResponse :: "(jstring \<Rightarrow> bool) \<Rightarrow> jstring \<Rightarrow> jsval \<Rightarrow> error + provider_result" where
  "Guardian_normalizeResponse url_ok now response =
     bind_result (read_prop response ''response'') (\<lambda>inner.
     bind_result
       (array_map (\<lambda>article.
          bind_result (read_prop article ''fields'') (\<lambda>fields.
            ArticleData url_ok now (JObj
              [(lit ''title'', js_or (opt_prop fields ''headline'') (get_prop article ''webTitle'')),
               (lit ''description'', js_or (opt_prop fields ''trailText'') (JStr [])),
               (lit ''content'', js_or (opt_prop fields ''body'') (JStr [])),
               (lit ''url'', get_prop article ''webUrl''),
               (lit ''urlToImage'', opt_prop fields ''thumbnail''),
               (lit ''publishedAt'', get_prop article ''webPublicationDate''),
               (lit ''source'', JObj
                 [(lit ''name'', JStr (lit ''The Guardian'')),
                  (lit ''url'', JStr (lit ''https://www.theguardian.com''))]),
               (lit ''provider'', JStr (lit ''guardian''))])))
          (js_or (opt_prop inner ''results'') (JArr [])))
       (\<lambda>mapped.
     bind_result (filter_isValid mapped) (\<lambda>articles.
          Inr \<lparr>res_status = lit ''ok'',
               res_totalResults = Finite (int (length articles)),
               res_actualResults = None,
               res_provider = lit ''guardian'',
               res_articles = Some articles\<rparr>)))"

definition Guardian_mapSortBy :: "jsval \<Rightarrow> jstring" where
  "Guardian_mapSortBy sortBy =
     (if sortBy = JStr (lit ''relevance'') then lit ''relevance''
      else if sortBy = JStr (lit ''date'') then lit ''newest''
      else if sortBy = JStr (lit ''publishedAt'') then lit ''newest''
      else lit ''relevance'')"

text \<open>\<open>_mapCategory\<close>: \<open>mapping[category] || category\<close>, for a category of the enum.\<close>

definition Guardian_mapCategory :: "jsval \<Rightarrow> jsval" where
  "Guardian_mapCategory category =
     (if category = JStr (lit ''business'') then JStr (lit ''business'')
      else if category = JStr (lit ''entertainment'') then JStr (lit ''culture'')
      else if category = JStr (lit ''health'') then JStr (lit ''society'')
      else if category = JStr (lit ''science'') then JStr (lit ''science'')
      else if category = JStr (lit ''sports'') then JStr (lit ''sport'')
      else if category = JStr (lit ''technology'') then JStr (lit ''technology'')
      else category)"

definition GuardianProvider_searchNews ::
  "(jstring \<Rightarrow> bool) \<Rightarrow> jstring \<Rightarrow> jsval
   \<Rightarrow> (jstring \<Rightarrow> (jstring \<times> jstring) list \<Rightarrow> error + http_response)
   \<Rightarrow> jstring \<Rightarrow> obj \<Rightarrow> error + provider_result" where
  "GuardianProvider_searchNews url_ok now apiKey fetch query options =
     (if \<not> truthy apiKey
      then Inl (JsError (lit ''Guardian provider is not properly configured''))
      else
        let max = with_default (get_prop (JObj options) ''max'') (JNum 20);
            sortBy = with_default (get_prop (JObj options) ''sortBy'') (JStr (lit ''relevance''))
        in bind_result (validateOptions JsError sortBy JUndefined JUndefined) (\<lambda>_.
             rethrow_as_Error ''Guardian search failed''
               (bind_result
                  (params_all
                     [Inr [(lit ''q'', query)], param ''page-size'' max,
                      Inr [(lit ''show-fields'', lit ''headline,trailText,body,thumbnail'')],
                      param ''api-key'' apiKey,
                      Inr [(lit ''order-by'', Guardian_mapSortBy sortBy)],
                      append_if ''from-date'' (get_prop (JObj options) ''from''),
                      append_if ''to-date'' (get_prop (JObj options) ''to'')])
                  (\<lambda>params.
                     read_response ''Guardian'' (Guardian_normalizeResponse url_ok now)
                       (fetch (lit ''https://content.guardianapis.com/search'') params)))))"

definition GuardianProvider_getTopHeadlines ::
  "(jstring \<Rightarrow> bool) \<Rightarrow> jstring \<Rightarrow> jsval
   \<Rightarrow> (jstring \<Rightarrow> (jstring \<times> jstring) list \<Rightarrow> error + http_response)
   \<Rightarrow> obj \<Rightarrow> error + provider_result" where
  "GuardianProvider_getTopHeadlines url_ok now apiKey fetch options =
     (if \<not> truthy apiKey
      then Inl (JsError (lit ''Guardian provider is not properly configured''))
      else
        let category = get_prop (JObj options) ''category'';
            max = with_default (get_prop (JObj options) ''max'') (JNum 20)
        in bind_result (validateOptions JsError JUndefined JUndefined category) (\<lambda>_.
             rethrow_as_Error ''Guardian top headlines failed''
               (bind_result
                  (params_all
                     [param ''page-size'' max,
                      Inr [(lit ''show-fields'', lit ''headline,trailText,body,thumbnail'')],
                      param ''api-key'' apiKey,
                      Inr [(lit ''order-by'', lit ''newest'')],
                      (if truthy category \<and> category \<noteq> JStr (lit ''general'')
                       then param ''section'' (Guardian_mapCategory category) else Inr [])])
                  (\<lambda>params.
                     read_response ''Guardian'' (Guardian_normalizeResponse url_ok now)
                       (fetch (lit ''https://content.guardianapis.com/search'') params)))))"

section \<open>NewsClient\<close>

text \<open>
  \<open>parseInt(v)\<close> with no radix: ToString, which may throw; leading whitespace skipped; an
  optional sign; a \<open>0x\<close> or \<open>0X\<close> prefix selecting radix 16; then the longest prefix of
  digits, and whatever follows the digits is ignored. The result is \<open>NaN\<close> when there is no
  digit, and otherwise the Number of the integer read: the nearest double.
\<close>

definition digit_value :: "nat \<Rightarrow> nat" where
  "digit_value c =
     (if 48 \<le> c \<and> c \<le> 57 then c - 48
      else if 97 \<le> c \<and> c \<le> 122 then c - 97 + 10
      else if 65 \<le> c \<and> c \<le> 90 then c - 65 + 10
      else 36)"

text \<open>The longest prefix of digits of the radix, read as a number; \<open>None\<close> when empty.\<close>

definition parse_digits :: "nat \<Rightarrow> jstring \<Rightarrow> nat option" where
  "parse_digits radix s =
     (let z = takeWhile (\<lambda>c. digit_value c < radix) s
      in if z = [] then None else Some (foldl (\<lambda>a c. a * radix + digit_value c) 0 z))"

definition hex_prefix :: "jstring \<Rightarrow> bool" where
  "hex_prefix s \<longleftrightarrow> length s \<ge> 2 \<and> s ! 0 = 48 \<and> (s ! 1 = 120 \<or> s ! 1 = 88)"

definition parseInt :: "jsval \<Rightarrow> error + jsnum" where
  "parseInt v =
     (case to_jstring v of
        Inl e \<Rightarrow> Inl e
      | Inr str \<Rightarrow>
          let s = dropWhile is_ws str;
              negative = (s \<noteq> [] \<and> hd s = 45);
              s1 = (if s \<noteq> [] \<and> (hd s = 43 \<or> hd s = 45) then tl s else s);
              magnitude = (if hex_prefix s1 then parse_digits 16 (drop 2 s1)
                           else parse_digits 10 s1)
          in Inr (case magnitude of
                    None \<Rightarrow> NaN
                  | Some m \<Rightarrow> rnd (if negative then - int m else int m)))"

text \<open>A registered provider object: its \<open>name\<close> and its \<open>apiKey\<close>.\<close>

record provider =
  prov_name :: jstring
  prov_apiKey :: jsval

record cache_entry =
  articles :: "article list"
  totalArticles :: jsnum
  lastFetchSize :: jsnum
  hasMore :: bool

text \<open>
  A cache key is \<open>JSON.stringify\<close> of an object; it is kept as the object it renders,
  without its \<open>undefined\<close> properties, which \<open>JSON.stringify\<close> omits.
\<close>

type_synonym cache_key = obj

text \<open>
  \<open>providers\<close> is a \<open>Map\<close>, kept in insertion order; \<open>defaultProvider\<close> is a name or \<open>null\<close>.
\<close>

record NewsClient =
  providers :: "(jstring \<times> provider) list"
  defaultProvider :: "jstring option"
  articleCache :: "cache_key \<rightharpoonup> cache_entry"

text \<open>Setting a key of a \<open>Map\<close> or a property of an object: in place, or appended.\<close>

fun obj_set :: "('k \<times> 'v) list \<Rightarrow> 'k \<Rightarrow> 'v \<Rightarrow> ('k \<times> 'v) list" where
  "obj_set [] k v = [(k, v)]"
| "obj_set ((k', v') # kvs) k v =
     (if k' = k then (k, v) # kvs else (k', v') # obj_set kvs k v)"

text \<open>\<open>{...a, ...b}\<close>\<close>

definition obj_spread :: "('k \<times> 'v) list \<Rightarrow> ('k \<times> 'v) list \<Rightarrow> ('k \<times> 'v) list" where
  "obj_spread a b = foldl (\<lambda>acc (k, v). obj_set acc k v) a b"

text \<open>The rest of a destructuring \<open>{a, b, ...rest} = options\<close>.\<close>

definition obj_rest :: "string list \<Rightarrow> obj \<Rightarrow> obj" where
  "obj_rest taken options = filter (\<lambda>(k, v). k \<notin> set (map lit taken)) options"

definition registerProvider :: "NewsClient \<Rightarrow> provider \<Rightarrow> NewsClient" where
  "registerProvider c p =
     (if \<not> truthy (prov_apiKey p) then c
      else c\<lparr>providers := obj_set (providers c) (prov_name p) p,
             defaultProvider :=
               (if defaultProvider c = None \<or> defaultProvider c = Some []
                then Some (prov_name p) else defaultProvider c)\<rparr>)"

text \<open>
  The constructor, with the values of the environment variables \<open>GNEWS_API_KEY\<close> and
  \<open>NEWSAPI_KEY\<close>.
\<close>

definition NewsClient_new :: "jsval \<Rightarrow> jsval \<Rightarrow> NewsClient" where
  "NewsClient_new gnews_key newsapi_key =
     (let c0 = \<lparr>providers = [], defaultProvider = None, articleCache = Map.empty\<rparr>;
          c1 = (if truthy gnews_key
                then registerProvider c0 \<lparr>prov_name = lit ''gnews'', prov_apiKey = gnews_key\<rparr>
                else c0)
      in if truthy newsapi_key
         then registerProvider c1 \<lparr>prov_name = lit ''newsapi'', prov_apiKey = newsapi_key\<rparr>
         else c1)"

definition getAvailableProviders :: "NewsClient \<Rightarrow> jstring list" where
  "getAvailableProviders c = map fst (providers c)"

text \<open>
  \<open>_getProvider(name)\<close>. The keys of \<open>providers\<close> are strings, so only a string finds a
  provider.
\<close>

definition getProvider :: "NewsClient \<Rightarrow> jsval \<Rightarrow> error + provider" where
  "getProvider c name =
     (let providerName =
            (if truthy (with_default name JNull) then name
             else (case defaultProvider c of Some d \<Rightarrow> JStr d | None \<Rightarrow> JNull))
      in if \<not> truthy providerName then Inl NoProvidersAvailableError
         else case (case providerName of JStr s \<Rightarrow> map_of (providers c) s | _ \<Rightarrow> None) of
                None \<Rightarrow> Inl (throw_ProviderNotFoundError providerName (getAvailableProviders c))
              | Some p \<Rightarrow> Inr p)"

definition setDefaultProvider :: "NewsClient \<Rightarrow> jstring \<Rightarrow> error + NewsClient" where
  "setDefaultProvider c name =
     (if map_of (providers c) name = None
      then Inl (throw_ProviderNotFoundError (JStr name) (getAvailableProviders c))
      else Inr (c\<lparr>defaultProvider := Some name\<rparr>))"

definition clearCache :: "NewsClient \<Rightarrow> NewsClient" where
  "clearCache c = c\<lparr>articleCache := Map.empty\<rparr>"

text \<open>
  \<open>xs.slice(start, end)\<close>. An index is first made an integer or an infinity, \<open>NaN\<close>
  becoming 0; a negative one counts from the end.
\<close>

definition slice_index :: "int \<Rightarrow> jsnum \<Rightarrow> int" where
  "slice_index len i =
     (case i of
        NaN \<Rightarrow> 0
      | NegInf \<Rightarrow> 0
      | PosInf \<Rightarrow> len
      | Finite n \<Rightarrow> if n < 0 then max (len + n) 0 else min n len)"

definition slice :: "'a list \<Rightarrow> jsnum \<Rightarrow> jsnum \<Rightarrow> 'a list" where
  "slice xs start end =
     (let len = int (length xs);
          k = slice_index len start;
          final = slice_index len end
      in take (nat (final - k)) (drop (nat k) xs))"

record pagination =
  currentPage :: jsnum
  limit :: jsnum
  totalResults :: jsnum
  actualResults :: jsnum
  totalPages :: jsnum
  hasNextPage :: bool
  hasPreviousPage :: bool
  nextPage :: "jsnum option"
  previousPage :: "jsnum option"
  clientSidePagination :: bool

text \<open>
  The envelope both operations return. \<open>getTopHeadlines\<close> copies the first five fields
  from the provider's result, so there \<open>articles\<close> and \<open>actualResults\<close> may be absent.
\<close>

record envelope =
  env_status :: jstring
  env_provider :: jstring
  env_articles :: "article list option"
  env_totalResults :: jsnum
  env_actualResults :: "jsnum option"
  env_pagination :: pagination

definition createPaginatedResponse ::
  "article list \<Rightarrow> jsnum \<Rightarrow> jsnum \<Rightarrow> jsnum \<Rightarrow> bool \<Rightarrow> jstring \<Rightarrow> envelope" where
  "createPaginatedResponse arts total_n page limit_v hasNext prov =
     (let actual = Finite (int (length arts));
          pages = (if js_less (Finite 0) total_n then js_ceil_div total_n limit_v else Finite 1);
          hasPrevious = js_less (Finite 1) page
      in \<lparr>env_status = lit ''ok'',
           env_provider = prov,
           env_articles = Some arts,
           env_totalResults = total_n,
           env_actualResults = Some actual,
           env_pagination =
             \<lparr>currentPage = page,
              limit = limit_v,
              totalResults = total_n,
              actualResults = actual,
              totalPages = pages,
              hasNextPage = hasNext,
              hasPreviousPage = hasPrevious,
              nextPage = (if hasNext then Some (js_add page (Finite 1)) else None),
              previousPage = (if hasPrevious then Some (js_sub page (Finite 1)) else None),
              clientSidePagination = True\<rparr>\<rparr>)"

text \<open>\<open>a || b\<close> and \<open>a || b || 0\<close> on Numbers, \<open>None\<close> an absent one.\<close>

definition num_or :: "jsnum \<Rightarrow> jsnum \<Rightarrow> jsnum" where
  "num_or a b = (if num_truthy a then a else b)"

definition first_truthy :: "jsnum option \<Rightarrow> jsnum option \<Rightarrow> jsnum" where
  "first_truthy a b =
     (let rest = (case b of Some y \<Rightarrow> num_or y (Finite 0) | None \<Rightarrow> Finite 0)
      in case a of Some x \<Rightarrow> num_or x rest | None \<Rightarrow> rest)"

definition addPaginationMetadata :: "provider_result \<Rightarrow> jsnum \<Rightarrow> jsnum \<Rightarrow> envelope" where
  "addPaginationMetadata result page limit_v =
     (let len = map_option (\<lambda>xs. Finite (int (length xs))) (res_articles result);
          total_n = first_truthy (Some (res_totalResults result)) len;
          actual = first_truthy (res_actualResults result) len;
          pages = js_ceil_div total_n limit_v;
          hasNext = js_less page pages;
          hasPrevious = js_less (Finite 1) page
      in \<lparr>env_status = res_status result,
           env_provider = res_provider result,
           env_articles = res_articles result,
           env_totalResults = res_totalResults result,
           env_actualResults = res_actualResults result,
           env_pagination =
             \<lparr>currentPage = page,
              limit = limit_v,
              totalResults = total_n,
              actualResults = actual,
              totalPages = pages,
              hasNextPage = hasNext,
              hasPreviousPage = hasPrevious,
              nextPage = (if hasNext then Some (js_add page (Finite 1)) else None),
              previousPage = (if hasPrevious then Some (js_sub page (Finite 1)) else None),
              clientSidePagination = False\<rparr>\<rparr>)"

text \<open>
  One call of a provider's \<open>searchNews\<close>, as the client makes it: the provider, the
  query, the options object \<open>{...searchOptions, max: fetchSize}\<close>, kept as its properties
  other than \<open>max\<close> and the Number \<open>max\<close>, and the cache key the call fills.
\<close>

record provider_call =
  call_provider :: jstring
  call_query :: jstring
  call_options :: obj
  call_max :: jsnum
  call_key :: cache_key

text \<open>The cache key of a search.\<close>

definition cacheKey :: "jstring \<Rightarrow> jstring \<Rightarrow> obj \<Rightarrow> cache_key" where
  "cacheKey query name searchOptions =
     filter (\<lambda>(k, v). v \<noteq> JUndefined)
       (obj_spread [(lit ''query'', JStr query), (lit ''provider'', JStr name)] searchOptions)"

text \<open>
  The end of \<open>searchNews\<close>: the page sliced from the cached articles, the total and
  \<open>hasNextPage\<close>, and the envelope.
\<close>

definition page_response :: "provider \<Rightarrow> cache_entry \<Rightarrow> jsnum \<Rightarrow> jsnum \<Rightarrow> envelope" where
  "page_response newsProvider cache pageNum limitNum =
     (let startIndex = js_mul (js_sub pageNum (Finite 1)) limitNum;
          endIndex = js_add startIndex limitNum;
          pageArticles = slice (articles cache) startIndex endIndex;
          len = Finite (int (length (articles cache)))
      in if prov_name newsProvider = lit ''gnews''
         then createPaginatedResponse pageArticles len pageNum limitNum
                (js_less endIndex len) (prov_name newsProvider)
         else if js_less (Finite 0) (totalArticles cache)
         then createPaginatedResponse pageArticles (totalArticles cache) pageNum limitNum
                (js_less endIndex (totalArticles cache)) (prov_name newsProvider)
         else
           let hasNext = (js_less endIndex len \<or> hasMore cache)
           in createPaginatedResponse pageArticles
                (if hasNext then js_max (js_mul len (Finite 2)) (js_add endIndex limitNum)
                 else len)
                pageNum limitNum hasNext (prov_name newsProvider))"

text \<open>
  The part of \<open>searchNews\<close> after the provider is resolved. \<open>upstream\<close> is the awaited
  \<open>newsProvider.searchNews(query, options)\<close>, given the provider, the query, the
  properties of \<open>options\<close> other than \<open>max\<close>, and \<open>max\<close>: the provider's result, or the
  error it threw. The function returns the outcome, the client after the call, and the
  provider calls made. The call runs to its end before another one starts.
\<close>

definition search_with ::
  "NewsClient \<Rightarrow> (provider \<Rightarrow> jstring \<Rightarrow> obj \<Rightarrow> jsnum \<Rightarrow> error + provider_result)
   \<Rightarrow> provider \<Rightarrow> jstring \<Rightarrow> obj \<Rightarrow> jsnum \<Rightarrow> jsnum
   \<Rightarrow> (error + envelope) \<times> NewsClient \<times> provider_call list" where
  "search_with c upstream newsProvider query searchOptions pageNum limitNum =
     (let key = cacheKey query (prov_name newsProvider) searchOptions;
          c1 = (if articleCache c key = None
                then c\<lparr>articleCache := (articleCache c)(key \<mapsto>
                         \<lparr>articles = [], totalArticles = Finite 0, lastFetchSize = Finite 0,
                          hasMore = True\<rparr>)\<rparr>
                else c);
          cache = the (articleCache c1 key);
          startIndex = js_mul (js_sub pageNum (Finite 1)) limitNum;
          endIndex = js_add startIndex limitNum
      in if articles cache = [] \<and> hasMore cache
         then
           let fetchSize = (if prov_name newsProvider = lit ''gnews'' then Finite 10
                            else js_max endIndex (js_mul limitNum (Finite 2)));
               options = obj_rest [''max''] searchOptions;
               call = \<lparr>call_provider = prov_name newsProvider, call_query = query,
                       call_options = options, call_max = fetchSize, call_key = key\<rparr>
           in case upstream newsProvider query options fetchSize of
                Inl e \<Rightarrow> (Inl e, c1, [call])
              | Inr result \<Rightarrow>
                  let cache1 = cache\<lparr>articles := (case res_articles result of
                                                     Some xs \<Rightarrow> xs | None \<Rightarrow> []),
                                     totalArticles := num_or (res_totalResults result) (Finite 0),
                                     lastFetchSize := fetchSize\<rparr>
                  in if prov_name newsProvider = lit ''gnews''
                     then let cache2 = cache1\<lparr>hasMore := False\<rparr>
                          in (Inr (page_response newsProvider cache2 pageNum limitNum),
                              c1\<lparr>articleCache := (articleCache c1)(key \<mapsto> cache2)\<rparr>, [call])
                     else case res_articles result of
                            None \<Rightarrow>
                              (Inl (TypeError (lit ''Cannot read properties of undefined'')),
                               c1\<lparr>articleCache := (articleCache c1)(key \<mapsto> cache1)\<rparr>, [call])
                          | Some xs \<Rightarrow>
                              let cache2 = cache1\<lparr>hasMore :=
                                             js_ge (Finite (int (length xs))) fetchSize\<rparr>
                              in (Inr (page_response newsProvider cache2 pageNum limitNum),
                                  c1\<lparr>articleCache := (articleCache c1)(key \<mapsto> cache2)\<rparr>, [call])
         else (Inr (page_response newsProvider cache pageNum limitNum), c1, []))"

text \<open>
  What the validation of \<open>page\<close> and of \<open>limit\<close> lets through: a Number for which
  \<open>isNaN(n) || n < 1\<close> is false.
\<close>

definition valid_count :: "jsnum \<Rightarrow> bool" where
  "valid_count n \<longleftrightarrow> \<not> (isNaN n \<or> js_less n (Finite 1))"

text \<open>
  \<open>searchNews(query, options)\<close>: the validation of the query, \<open>parseInt\<close> of \<open>page\<close> and
  of \<open>limit\<close>, either of which may throw, their validation, the resolution of the
  provider, then the search. A query that is not a string has no callable \<open>trim\<close>.
\<close>

definition searchNews ::
  "NewsClient \<Rightarrow> (provider \<Rightarrow> jstring \<Rightarrow> obj \<Rightarrow> jsnum \<Rightarrow> error + provider_result)
   \<Rightarrow> jsval \<Rightarrow> obj \<Rightarrow> (error + envelope) \<times> NewsClient \<times> provider_call list" where
  "searchNews c upstream query options =
     (case query of
        JUndefined \<Rightarrow>
          (Inl (throw_InvalidQueryError (JStr [])
                  (lit ''Search query is required and must be non-empty'')), c, [])
      | JNull \<Rightarrow>
          (Inl (throw_InvalidQueryError (JStr [])
                  (lit ''Search query is required and must be non-empty'')), c, [])
      | JStr q \<Rightarrow>
          if trim q = []
          then (Inl (throw_InvalidQueryError (js_or query (JStr []))
                       (lit ''Search query is required and must be non-empty'')), c, [])
          else
            let page = with_default (get_prop (JObj options) ''page'') (JNum 1);
                limit_v = with_default (get_prop (JObj options) ''limit'') (JNum 10);
                searchOptions = obj_rest [''provider'', ''page'', ''limit''] options
            in case parseInt page of
                 Inl e \<Rightarrow> (Inl e, c, [])
               | Inr pageNum \<Rightarrow>
                   (case parseInt limit_v of
                      Inl e \<Rightarrow> (Inl e, c, [])
                    | Inr limitNum \<Rightarrow>
                        if isNaN pageNum \<or> js_less pageNum (Finite 1)
                        then (Inl (throw_InvalidQueryError page
                                     (lit ''Page must be a positive integer'')), c, [])
                        else if isNaN limitNum \<or> js_less limitNum (Finite 1)
                        then (Inl (throw_InvalidQueryError limit_v
                                     (lit ''Limit must be between 1 or more'')), c, [])
                        else case getProvider c (get_prop (JObj options) ''provider'') of
                               Inl e \<Rightarrow> (Inl e, c, [])
                             | Inr newsProvider \<Rightarrow>
                                 search_with c upstream newsProvider (trim q) searchOptions
                                   pageNum limitNum)
      | _ \<Rightarrow> (Inl (TypeError (lit ''query?.trim is not a function'')), c, []))"

text \<open>
  \<open>getTopHeadlines(options)\<close>; \<open>upstream\<close> is the awaited
  \<open>newsProvider.getTopHeadlines({...headlineOptions, max, offset})\<close>, given the provider,
  the other properties, \<open>max\<close> and \<open>offset\<close>.
\<close>

definition getTopHeadlines ::
  "NewsClient \<Rightarrow> (provider \<Rightarrow> obj \<Rightarrow> jsnum \<Rightarrow> jsnum \<Rightarrow> error + provider_result) \<Rightarrow> obj
   \<Rightarrow> error + envelope" where
  "getTopHeadlines c upstream options =
     (let page = with_default (get_prop (JObj options) ''page'') (JNum 1);
          limit_v = with_default (get_prop (JObj options) ''limit'') (JNum 10);
          headlineOptions = obj_rest [''provider'', ''page'', ''limit''] options
      in case parseInt page of
           Inl e \<Rightarrow> Inl e
         | Inr pageNum \<Rightarrow>
             (case parseInt limit_v of
                Inl e \<Rightarrow> Inl e
              | Inr limitNum \<Rightarrow>
                  if isNaN pageNum \<or> js_less pageNum (Finite 1)
                  then Inl (throw_InvalidQueryError page (lit ''Page must be a positive integer''))
                  else if isNaN limitNum \<or> js_less limitNum (Finite 1)
                  then Inl (throw_InvalidQueryError limit_v (lit ''Limit must be 1 or more''))
                  else case getProvider c (get_prop (JObj options) ''provider'') of
                         Inl e \<Rightarrow> Inl e
                       | Inr newsProvider \<Rightarrow>
                           let offset = js_mul (js_sub pageNum (Finite 1)) limitNum;
                               maxResults = limitNum
                           in case upstream newsProvider
                                     (obj_rest [''max'', ''offset''] headlineOptions)
                                     maxResults offset of
                                Inl e \<Rightarrow> Inl e
                              | Inr result \<Rightarrow>
                                  Inr (addPaginationMetadata result pageNum limitNum)))"

text \<open>The operations of a client, and a run of them, with the provider calls it makes.\<close>

datatype operation =
    SearchNews "provider \<Rightarrow> jstring \<Rightarrow> obj \<Rightarrow> jsnum \<Rightarrow> error + provider_result" jsval obj
  | GetTopHeadlines "provider \<Rightarrow> obj \<Rightarrow> jsnum \<Rightarrow> jsnum \<Rightarrow> error + provider_result" obj
  | SetDefaultProvider jstring
  | ClearCache

fun step :: "NewsClient \<Rightarrow> operation \<Rightarrow> NewsClient \<times> provider_call list" where
  "step c (SearchNews upstream query options) = snd (searchNews c upstream query options)"
| "step c (GetTopHeadlines upstream options) = (c, [])"
| "step c (SetDefaultProvider name) =
     (case setDefaultProvider c name of Inl e \<Rightarrow> (c, []) | Inr c' \<Rightarrow> (c', []))"
| "step c ClearCache = (clearCache c, [])"

fun run :: "NewsClient \<Rightarrow> operation list \<Rightarrow> NewsClient \<times> provider_call list" where
  "run c [] = (c, [])"
| "run c (x # xs) =
     (let (c1, calls1) = step c x; (c2, calls2) = run c1 xs in (c2, calls1 @ calls2))"

fun is_ClearCache :: "operation \<Rightarrow> bool" where
  "is_ClearCache ClearCache = True"
| "is_ClearCache x = False"

text \<open>A cache entry that no later search fills again.\<close>

definition populated :: "NewsClient \<Rightarrow> cache_key \<Rightarrow> bool" where
  "populated c k \<longleftrightarrow> (\<exists>e. articleCache c k = Some e \<and> (articles e \<noteq> [] \<or> \<not> hasMore e))"

section \<open>Example inputs\<close>

text \<open>Two clock readings, and raw payloads: two whose titles differ in whitespace only, and a malformed one.\<close>

definition clock_a :: jstring where "clock_a = lit ''2025-01-01T00:00:00.000Z''"
definition clock_b :: jstring where "clock_b = lit ''2026-02-02T00:00:00.000Z''"

definition payload_spaced :: jsval where
  "payload_spaced = JObj
     [(lit ''title'', JStr ([32] @ lit ''Hello'' @ [32, 32, 10] @ lit ''world'' @ [32])),
      (lit ''url'', JStr (lit ''https://example.com/a'')),
      (lit ''provider'', JStr (lit ''gnews''))]"

definition payload_tabbed :: jsval where
  "payload_tabbed = JObj
     [(lit ''title'', JStr (lit ''Hello'' @ [9] @ lit ''world'')),
      (lit ''description'', JStr (lit ''other'')),
      (lit ''url'', JStr (lit ''https://example.com/a'')),
      (lit ''provider'', JStr (lit ''gnews''))]"

definition payload_malformed :: jsval where
  "payload_malformed = JObj
     [(lit ''url'', JStr (lit ''not a url'')), (lit ''urlToImage'', JNum 5),
      (lit ''publishedAt'', JStr []), (lit ''source'', JStr (lit ''x'')),
      (lit ''title'', JNull)]"

text \<open>A payload whose \<open>provider\<close> is an object with a \<open>toString\<close> property of its own.\<close>

definition payload_unconvertible :: jsval where
  "payload_unconvertible = JObj
     [(lit ''title'', JStr (lit ''T'')),
      (lit ''provider'', JObj [(lit ''toString'', JNull)])]"

text \<open>The article both well-formed payloads normalise to, up to description and timestamp.\<close>

definition article_hello :: "jstring \<Rightarrow> jstring \<Rightarrow> article" where
  "article_hello description now =
     \<lparr>art_id = lit ''gnews_991485430'',
      art_title = lit ''Hello world'',
      art_description = description,
      art_content = [],
      art_url = Some (lit ''https://example.com/a''),
      art_urlToImage = None,
      art_publishedAt = None,
      art_source = \<lparr>src_name = lit ''Unknown'', src_url = None\<rparr>,
      art_provider = JStr (lit ''gnews''),
      art_createdAt = now\<rparr>"

text \<open>Provider responses, clients, provider behaviours and operations used in the examples.\<close>

definition newsapi_body :: jsval where
  "newsapi_body = JObj
     [(lit ''status'', JStr (lit ''ok'')),
      (lit ''totalResults'', JNum 1),
      (lit ''articles'', JArr [JObj
         [(lit ''title'', JStr (lit ''Hello world'')),
          (lit ''url'', JStr (lit ''https://example.com/a''))]])]"

definition guardian_body :: jsval where
  "guardian_body = JObj
     [(lit ''response'', JObj
        [(lit ''status'', JStr (lit ''ok'')),
         (lit ''results'', JArr [JObj
            [(lit ''webTitle'', JStr (lit ''Hello world'')),
             (lit ''webUrl'', JStr (lit ''https://example.com/a''))]])])]"

definition response_500 :: http_response where
  "response_500 = \<lparr>ok = False, status = 500, statusText = lit ''Internal Server Error'',
                    json = Inr (JObj [])\<rparr>"

definition network_down :: error where
  "network_down = TypeError (lit ''fetch failed'')"

definition client_gnews :: NewsClient where
  "client_gnews = NewsClient_new (JStr (lit ''key'')) JUndefined"

definition client_none :: NewsClient where
  "client_none = NewsClient_new JUndefined JUndefined"

definition article_n :: "nat \<Rightarrow> article" where
  "article_n i = article_hello [48 + i] clock_a"

definition eight_articles :: "article list" where
  "eight_articles = map article_n [1, 2, 3, 4, 5, 6, 7, 8]"

definition gnews_result :: provider_result where
  "gnews_result =
     \<lparr>res_status = lit ''ok'', res_totalResults = Finite 1000,
      res_actualResults = Some (Finite 8),
      res_provider = lit ''gnews'', res_articles = Some eight_articles\<rparr>"

definition upstream_eight ::
  "provider \<Rightarrow> jstring \<Rightarrow> obj \<Rightarrow> jsnum \<Rightarrow> error + provider_result" where
  "upstream_eight p q options fetchSize = Inr gnews_result"

definition upstream_down ::
  "provider \<Rightarrow> jstring \<Rightarrow> obj \<Rightarrow> jsnum \<Rightarrow> error + provider_result" where
  "upstream_down p q options fetchSize = Inl (ExternalAPIError (lit ''GNews'') network_down)"

definition climate_key :: cache_key where
  "climate_key = cacheKey (lit ''climate'') (lit ''gnews'') []"

definition client_page1 :: NewsClient where
  "client_page1 = client_gnews\<lparr>articleCache := (articleCache client_gnews)(climate_key \<mapsto>
      \<lparr>articles = eight_articles, totalArticles = Finite 1000, lastFetchSize = Finite 10,
       hasMore = False\<rparr>)\<rparr>"

definition call_climate :: provider_call where
  "call_climate = \<lparr>call_provider = lit ''gnews'', call_query = lit ''climate'',
                    call_options = [], call_max = Finite 10, call_key = climate_key\<rparr>"

definition later_operations :: "operation list" where
  "later_operations =
     [SearchNews upstream_down (JStr (lit ''climate'')) [(lit ''page'', JNum 2), (lit ''limit'', JNum 5)],
      SetDefaultProvider (lit ''gnews''),
      SearchNews upstream_down (JStr (lit ''climate'')) [(lit ''limit'', JNum 5)]]"

definition headlines_eight ::
  "provider \<Rightarrow> obj \<Rightarrow> jsnum \<Rightarrow> jsnum \<Rightarrow> error + provider_result" where
  "headlines_eight p options maxResults offset = Inr gnews_result"

section \<open>Properties of the numbers\<close>

lemma bit_length_bounds:
  "n > 0 \<Longrightarrow> 2 ^ (bit_length n - 1) \<le> n \<and> n < 2 ^ bit_length n"
proof (induction n rule: bit_length.induct)
  case (1 n)
  show ?case
  proof (cases "n div 2 = 0")
    case True
    then have "n = 1" using 1(2) by auto
    then show ?thesis by (simp add: bit_length.simps)
  next
    case False
    then have h: "n div 2 > 0" by simp
    have n0: "n \<noteq> 0" using 1(2) by simp
    note ih = 1(1)[OF n0 h]
    have bl: "bit_length n = Suc (bit_length (n div 2))"
      using n0 by (subst bit_length.simps) simp
    have pos: "bit_length (n div 2) > 0"
      using h by (subst bit_length.simps) simp
    then obtain j where j: "bit_length (n div 2) = Suc j" by (cases "bit_length (n div 2)") auto
    from ih j have a: "2 ^ j \<le> n div 2" and b: "n div 2 < 2 ^ Suc j" by simp_all
    have "2 * 2 ^ j \<le> n" using a by linarith
    moreover have "n < 2 * 2 ^ Suc j" using b by linarith
    ultimately show ?thesis by (simp add: bl j)
  qed
qed

lemma bit_length_Suc_0 [simp]: "bit_length (Suc 0) = Suc 0"
  by (simp add: bit_length.simps[of "Suc 0"] bit_length.simps[of 0])

lemma rnd_small: "\<bar>n\<bar> \<le> 2 ^ 53 \<Longrightarrow> rnd n = Finite n"
  by (simp add: rnd_def)

lemma round_half_even_ge: "d > 0 \<Longrightarrow> n div d \<le> round_half_even n d"
  by (simp add: round_half_even_def Let_def)

lemma round_half_even_le: "d > 0 \<Longrightarrow> round_half_even n d \<le> n div d + 1"
  by (simp add: round_half_even_def Let_def)

lemma rnd_pos:
  assumes "n > 0"
  shows "rnd n = PosInf \<or> (\<exists>v. rnd n = Finite v \<and> v > 0)"
proof (cases "\<bar>n\<bar> \<le> 2 ^ 53")
  case True
  then show ?thesis using assms by (simp add: rnd_def)
next
  case False
  let ?a = "nat \<bar>n\<bar>"
  have a: "?a \<ge> 2 ^ 53" using False assms by (simp add: le_nat_iff)
  then have apos: "?a > 0" by (metis less_le_trans zero_less_numeral zero_less_power)
  note b = bit_length_bounds[OF apos]
  have bl: "bit_length ?a \<ge> 54"
  proof (rule ccontr)
    assume "\<not> bit_length ?a \<ge> 54"
    then have "bit_length ?a \<le> 53" by simp
    then have "(2::nat) ^ bit_length ?a \<le> 2 ^ 53" by (intro power_increasing) simp_all
    then show False using b a by linarith
  qed
  have e: "ratio_exponent ?a (Suc 0) = int (bit_length ?a) - 1"
    using b bl by (simp add: ratio_exponent_def Let_def nat_diff_distrib)
  define t where "t = bit_length ?a - 53"
  have t: "max (ratio_exponent ?a (Suc 0) - 52) (- 1074) = int t" "t \<ge> 1"
    using bl by (simp_all add: e t_def)
  have nd: "nearest_double ?a (Suc 0) = (round_half_even ?a (2 ^ t), int t)"
    by (simp add: nearest_double_def t Let_def)
  have "(2::nat) ^ t \<le> 2 ^ (bit_length ?a - 1)"
    by (intro power_increasing) (simp_all add: t_def)
  then have "2 ^ t \<le> ?a" using b by linarith
  then have "?a div 2 ^ t \<ge> 1"
    by (simp add: div_greater_zero_iff Suc_le_eq)
  then have m: "round_half_even ?a (2 ^ t) \<ge> 1"
    using round_half_even_ge[of "2 ^ t" ?a] by simp
  then have v: "int (round_half_even ?a (2 ^ t)) * 2 ^ t > 0" by simp
  show ?thesis using assms False v nd
    by (simp add: rnd_def Let_def)
qed

lemma bit_length_pos: "n > 0 \<Longrightarrow> bit_length n \<ge> 1"
  by (subst bit_length.simps) simp

lemma bit_length_real:
  assumes "n > 0"
  shows "(2::real) powi (int (bit_length n) - 1) \<le> real n" and "real n < 2 powi int (bit_length n)"
proof -
  note b = bit_length_bounds[OF assms]
  note pos = bit_length_pos[OF assms]
  have e: "int (bit_length n) - 1 = int (bit_length n - 1)" using pos by linarith
  have "real ((2::nat) ^ (bit_length n - 1)) \<le> real n"
    using b by (simp only: of_nat_le_iff)
  then show "(2::real) powi (int (bit_length n) - 1) \<le> real n"
    unfolding e power_int_of_nat by simp
  have "real n < real ((2::nat) ^ bit_length n)" using b by (simp only: of_nat_less_iff)
  then show "real n < 2 powi int (bit_length n)"
    unfolding power_int_of_nat by simp
qed


lemma ratio_exponent_test:
  assumes "p > 0" "q > 0"
  shows "(if e0 \<ge> 0 then p \<ge> q * 2 ^ nat e0 else p * 2 ^ nat (- e0) \<ge> q)
         \<longleftrightarrow> (2::real) powi e0 \<le> real p / real q"
proof -
  have qpos: "real q > 0" using assms by simp
  show ?thesis
  proof (cases "e0 \<ge> 0")
    case True
    then have pw: "(2::real) powi e0 = 2 ^ nat e0"
      by (simp add: power_int_def)
    have "(q * 2 ^ nat e0 \<le> p) \<longleftrightarrow> (real (q * 2 ^ nat e0) \<le> real p)"
      by (simp only: of_nat_le_iff)
    also have "\<dots> \<longleftrightarrow> (real q * 2 ^ nat e0 \<le> real p)" by simp
    also have "\<dots> \<longleftrightarrow> (2 ^ nat e0 \<le> real p / real q)"
      using qpos by (simp add: pos_le_divide_eq mult.commute)
    finally show ?thesis using True pw by simp
  next
    case False
    then have pw: "(2::real) powi e0 = 1 / 2 ^ nat (- e0)"
      by (simp add: power_int_def inverse_eq_divide power_one_over)
    have "(q \<le> p * 2 ^ nat (- e0)) \<longleftrightarrow> (real q \<le> real (p * 2 ^ nat (- e0)))"
      by (simp only: of_nat_le_iff)
    also have "\<dots> \<longleftrightarrow> (real q \<le> real p * 2 ^ nat (- e0))" by simp
    also have "\<dots> \<longleftrightarrow> (1 / 2 ^ nat (- e0) \<le> real p / real q)"
      using qpos by (simp add: field_simps)
    finally show ?thesis using False pw by simp
  qed
qed


lemma ratio_exponent_real:
  assumes "p > 0" "q > 0"
  shows "(2::real) powi (ratio_exponent p q) \<le> real p / real q
       \<and> real p / real q < 2 powi (ratio_exponent p q + 1)"
proof -
  define e0 where "e0 = int (bit_length p) - int (bit_length q)"
  have qpos: "real q > 0" and ppos: "real p > 0" using assms by simp_all
  note bp = bit_length_real[OF assms(1)] and bq = bit_length_real[OF assms(2)]
  have up: "real p / real q < 2 powi (e0 + 1)"
  proof -
    have "real p / real q < 2 powi int (bit_length p) / real q"
      using bp(2) qpos by (simp add: divide_strict_right_mono)
    also have "\<dots> \<le> 2 powi int (bit_length p) / 2 powi (int (bit_length q) - 1)"
      using bq(1) qpos by (intro divide_left_mono) simp_all
    also have "\<dots> = 2 powi (int (bit_length p) - (int (bit_length q) - 1))"
      by (rule power_int_diff[symmetric]) simp
    also have "int (bit_length p) - (int (bit_length q) - 1) = e0 + 1"
      by (simp add: e0_def)
    finally show ?thesis .
  qed
  have lo: "2 powi (e0 - 1) < real p / real q"
  proof -
    have "e0 - 1 = int (bit_length p) - 1 - int (bit_length q)"
      by (simp add: e0_def)
    then have "(2::real) powi (e0 - 1) = 2 powi (int (bit_length p) - 1 - int (bit_length q))"
      by (rule arg_cong)
    also have "\<dots> = 2 powi (int (bit_length p) - 1) / 2 powi int (bit_length q)"
      by (rule power_int_diff) simp
    also have "\<dots> \<le> real p / 2 powi int (bit_length q)"
      using bp(1) by (simp add: divide_right_mono)
    also have "\<dots> < real p / real q"
      using bq(2) ppos qpos by (intro divide_strict_left_mono) simp_all
    finally show ?thesis .
  qed
  have r: "ratio_exponent p q
      = (if (if e0 \<ge> 0 then p \<ge> q * 2 ^ nat e0 else p * 2 ^ nat (- e0) \<ge> q)
         then e0 else e0 - 1)"
    unfolding ratio_exponent_def Let_def e0_def by (rule refl)
  note t = ratio_exponent_test[OF assms, of e0]
  show ?thesis
  proof (cases "(2::real) powi e0 \<le> real p / real q")
    case True
    then have "ratio_exponent p q = e0" unfolding r t by simp
    then show ?thesis using True up by simp
  next
    case False
    then have "ratio_exponent p q = e0 - 1" unfolding r t by simp
    then show ?thesis using False lo by simp
  qed
qed


lemma round_half_even_lower:
  assumes "d > 0"
  shows "real n / real d - 1 / 2 \<le> real (round_half_even n d)"
proof -
  define k where "k = n div d"
  define r where "r = n mod d"
  have n: "n = k * d + r" by (simp add: k_def r_def)
  have dpos: "real d > 0" using assms by simp
  have q: "real n / real d = real k + real r / real d"
    using dpos by (simp add: n field_simps)
  have v: "round_half_even n d = (if 2 * r < d then k else if 2 * r > d then k + 1
         else if even k then k else k + 1)"
    unfolding round_half_even_def Let_def k_def r_def by (rule refl)
  show ?thesis
  proof (cases "2 * r \<le> d")
    case True
    then have "2 * real r \<le> real d" by (metis of_nat_le_iff of_nat_mult of_nat_numeral)
    then have a: "real r / real d \<le> 1 / 2" using dpos by (simp add: field_simps)
    have "round_half_even n d \<ge> k" unfolding v by simp
    then have b: "real k \<le> real (round_half_even n d)" by (simp only: of_nat_le_iff)
    show ?thesis unfolding q using a b by linarith
  next
    case False
    have "r < d" using assms by (simp add: r_def)
    then have a: "real r / real d \<le> 1" using dpos by (simp add: field_simps)
    have "round_half_even n d = k + 1" using False unfolding v by simp
    then have b: "real (round_half_even n d) = real k + 1" by simp
    show ?thesis unfolding q using a b by linarith
  qed
qed

lemma round_half_even_upper:
  assumes "d > 0" and "real n / real d \<le> real_of_int j"
  shows "int (round_half_even n d) \<le> j"
proof -
  define k where "k = n div d"
  define r where "r = n mod d"
  have n: "n = k * d + r" by (simp add: k_def r_def)
  have dpos: "real d > 0" using assms by simp
  have q: "real n / real d = real k + real r / real d"
    using dpos by (simp add: n field_simps)
  have v: "round_half_even n d = (if 2 * r < d then k else if 2 * r > d then k + 1
         else if even k then k else k + 1)"
    unfolding round_half_even_def Let_def k_def r_def by (rule refl)
  show ?thesis
  proof (cases "r = 0")
    case True
    then have "round_half_even n d = k"
      using assms(1) unfolding v by simp
    moreover have "real k \<le> real_of_int j" using q True assms(2) by simp
    ultimately show ?thesis by linarith
  next
    case False
    then have "real r / real d > 0" using dpos by simp
    then have "real k < real_of_int j" using q assms(2) by linarith
    then have "int k < j" by linarith
    moreover have "round_half_even n d \<le> k + 1" unfolding v by simp
    ultimately show ?thesis by linarith
  qed
qed


lemma round_half_even_1: "round_half_even n (Suc 0) = n"
  by (simp add: round_half_even_def)

lemma ceil_nearest_double:
  assumes "p > 0" "q > 0" "p < 2 ^ 53" "q < 2 ^ 53"
  shows "ceil_of_double (nearest_double p q) = \<lceil>real p / real q\<rceil>"
proof -
  define x where "x = real p / real q"
  define e where "e = ratio_exponent p q"
  define k where "k = \<lceil>x\<rceil>"
  have qpos: "real q > 0" and ppos: "real p > 0" using assms by simp_all
  have q1: "real q \<ge> 1" using assms(2) by simp
  have p1: "real p \<ge> 1" using assms(1) by simp
  have pr: "real p < 2 ^ 53" using assms(3) by (metis of_nat_less_iff of_nat_numeral of_nat_power)
  have qr: "real q < 2 ^ 53" using assms(4) by (metis of_nat_less_iff of_nat_numeral of_nat_power)
  from ratio_exponent_real[OF assms(1,2)]
  have L: "(2::real) powi e \<le> x" and U: "x < 2 powi (e + 1)" by (simp_all add: x_def e_def)
  have xp: "x \<le> real p" using q1 ppos unfolding x_def by (simp add: field_simps)
  have xq: "1 / real q \<le> x" using p1 qpos unfolding x_def by (simp add: field_simps)
  have e_hi: "e \<le> 52"
  proof (rule ccontr)
    assume "\<not> e \<le> 52"
    then have "(2::real) powi 53 \<le> 2 powi e" by (intro power_int_increasing) simp_all
    then show False using L xp pr by simp
  qed
  have e_lo: "- 53 \<le> e"
  proof (rule ccontr)
    assume "\<not> - 53 \<le> e"
    then have "(2::real) powi (e + 1) \<le> 2 powi (- 53)" by (intro power_int_increasing) simp_all
    then have "x < 2 powi (- 53)" using U by linarith
    then have "1 / real q < 1 / 2 ^ 53" using xq by (simp add: power_int_minus_divide)
    then show False using qr qpos by (simp add: field_simps)
  qed
  define t where "t = e - 52"
  have t: "max (ratio_exponent p q - 52) (- 1074) = t" using e_lo by (simp add: t_def e_def)
  have nd: "nearest_double p q
      = (if t \<ge> 0 then round_half_even p (q * 2 ^ nat t)
         else round_half_even (p * 2 ^ nat (- t)) q, t)"
    unfolding nearest_double_def Let_def t by (rule refl)
  show ?thesis
  proof (cases "t \<ge> 0")
    case True
    then have e52: "e = 52" and t0: "t = 0" using e_hi by (simp_all add: t_def)
    have "(2::real) ^ 52 \<le> real p / real q" using L by (simp add: e52 x_def)
    then have "real q * 2 ^ 52 \<le> real p" using qpos by (simp add: field_simps)
    then have "real q * 2 ^ 52 < 2 ^ 53" using pr by linarith
    then have "real q < 2" by simp
    then have qq: "q = Suc 0" using assms(2) by linarith
    have "nearest_double p q = (round_half_even p (q * 2 ^ nat t), t)"
      using True unfolding nd by simp
    then have "nearest_double p q = (p, 0)"
      unfolding t0 qq by (simp add: round_half_even_1)
    then show ?thesis
      by (simp add: ceil_of_double_def qq)
  next
    case False
    define s where "s = nat (- t)"
    have s: "int s = 52 - e" "s \<ge> 1" using False by (simp_all add: s_def t_def)
    define m where "m = round_half_even (p * 2 ^ s) q"
    have ndm: "nearest_double p q = (m, t)" using False by (simp add: nd m_def s_def)
    have y: "real (p * 2 ^ s) / real q = x * 2 ^ s" by (simp add: x_def)
    have kx: "x \<le> real_of_int k" and kx': "real_of_int k - 1 < x"
      unfolding k_def by linarith+
    have up: "int m \<le> k * 2 ^ s"
    proof -
      have "real (p * 2 ^ s) / real q \<le> real_of_int (k * 2 ^ s)"
        unfolding y using kx by simp
      then show ?thesis unfolding m_def by (rule round_half_even_upper[OF assms(2)])
    qed
    have qs: "real q < 2 ^ (s + 1)"
    proof -
      have "real q * 2 powi e \<le> real p" using L qpos by (simp add: x_def field_simps)
      then have a: "real q * 2 powi e < 2 ^ 53" using pr by linarith
      have "(2::real) powi (53 + (- e)) = 2 powi 53 * 2 powi (- e)"
        by (rule power_int_add) simp
      then have b: "(2::real) powi (53 - e) = 2 ^ 53 * 2 powi (- e)" by simp
      have "(2::real) powi (e + (- e)) = 2 powi e * 2 powi (- e)"
        by (rule power_int_add) simp
      then have c: "(2::real) powi e * 2 powi (- e) = 1" by simp
      have d: "(2::real) powi (53 - e) = 2 ^ (s + 1)"
      proof -
        have "53 - e = int (s + 1)" using s by simp
        then show ?thesis by (simp only: power_int_of_nat)
      qed
      have pos: "(2::real) powi (- e) > 0" by simp
      have "real q = real q * (2 powi e * 2 powi (- e))" unfolding c by simp
      also have "\<dots> = (real q * 2 powi e) * 2 powi (- e)" by (simp only: mult.assoc)
      also have "\<dots> < 2 ^ 53 * 2 powi (- e)"
        using a pos by (rule mult_strict_right_mono)
      also have "\<dots> = 2 ^ (s + 1)" unfolding b[symmetric] d by (rule refl)
      finally show ?thesis .
    qed
    have lo: "real_of_int ((k - 1) * 2 ^ s) < real m"
    proof -
      have "real_of_int (k - 1) * real q < real p"
        using kx' qpos by (simp add: x_def field_simps)
      then have "(k - 1) * int q < int p"
        by (metis of_int_less_iff of_int_mult of_int_of_nat_eq)
      then have "(k - 1) * int q + 1 \<le> int p" by linarith
      then have "real_of_int ((k - 1) * int q + 1) \<le> real_of_int (int p)"
        by (simp only: of_int_le_iff)
      then have "real_of_int (k - 1) * real q + 1 \<le> real p" by simp
      then have "(real_of_int (k - 1) * real q + 1) / real q \<le> real p / real q"
        using qpos by (intro divide_right_mono) simp_all
      moreover have "(real_of_int (k - 1) * real q + 1) / real q
          = real_of_int (k - 1) + 1 / real q"
        using qpos by (simp add: add_divide_distrib)
      ultimately have "real_of_int (k - 1) + 1 / real q \<le> x"
        unfolding x_def by linarith
      then have "(real_of_int (k - 1) + 1 / real q) * 2 ^ s \<le> x * 2 ^ s"
        by (simp add: mult_right_mono)
      moreover have "2 ^ s / real q > 1 / 2"
        using qs qpos by (simp add: field_simps)
      ultimately have "real_of_int (k - 1) * 2 ^ s + 1 / 2 < x * 2 ^ s"
        by (simp add: algebra_simps)
      moreover have "x * 2 ^ s - 1 / 2 \<le> real m"
        using round_half_even_lower[OF assms(2), of "p * 2 ^ s"] unfolding y m_def .
      ultimately show ?thesis by simp
    qed
    have "\<lceil>real_of_int (int m) / real_of_int (2 ^ s)\<rceil> = - (- int m div 2 ^ s)"
      by (rule ceiling_divide_eq_div)
    moreover have "ceil_of_double (m, t) = - (- int m div 2 ^ s)"
      using False by (simp add: ceil_of_double_def s_def)
    ultimately have c: "ceil_of_double (m, t)
        = \<lceil>real_of_int (int m) / real_of_int (2 ^ s)\<rceil>"
      by simp
    have "\<lceil>real_of_int (int m) / real_of_int (2 ^ s)\<rceil> = k"
    proof (rule ceiling_unique)
      show "real_of_int k - 1 < real_of_int (int m) / real_of_int (2 ^ s)"
        using lo by (simp add: field_simps)
      have "real_of_int (int m) \<le> real_of_int (k * 2 ^ s)" using up by (simp only: of_int_le_iff)
      then show "real_of_int (int m) / real_of_int (2 ^ s) \<le> real_of_int k"
        by (simp add: field_simps)
    qed
    then show ?thesis unfolding ndm c k_def x_def .
  qed
qed


text \<open>Below \<open>2^53\<close>, \<open>Math.ceil(a / b)\<close> is the ceiling of the exact quotient.\<close>

lemma js_ceil_div_exact:
  assumes "0 < a" "a < 2 ^ 53" "0 < b" "b < 2 ^ 53"
  shows "js_ceil_div (Finite a) (Finite b) = Finite \<lceil>real_of_int a / real_of_int b\<rceil>"
proof -
  have p: "nat \<bar>a\<bar> > 0" "nat \<bar>a\<bar> < 2 ^ 53" using assms(1,2) by (simp_all add: nat_less_iff)
  have q: "nat \<bar>b\<bar> > 0" "nat \<bar>b\<bar> < 2 ^ 53" using assms(3,4) by (simp_all add: nat_less_iff)
  have "ceil_of_double (nearest_double (nat \<bar>a\<bar>) (nat \<bar>b\<bar>))
      = \<lceil>real (nat \<bar>a\<bar>) / real (nat \<bar>b\<bar>)\<rceil>"
    by (rule ceil_nearest_double[OF p(1) q(1) p(2) q(2)])
  moreover have "real (nat \<bar>a\<bar>) = real_of_int a" "real (nat \<bar>b\<bar>) = real_of_int b"
    using assms(1,3) by simp_all
  ultimately show ?thesis using assms(1,3) by simp
qed

text \<open>The numbers the validation of \<open>page\<close> and \<open>limit\<close> lets through.\<close>

lemma valid_count_cases: "valid_count a \<longleftrightarrow> a = PosInf \<or> (\<exists>n. a = Finite n \<and> 1 \<le> n)"
  by (cases a) (auto simp: valid_count_def isNaN_def)

lemma twice_positive:
  assumes "valid_count l"
  shows "js_less (Finite 0) (js_mul l (Finite 2))"
proof -
  from assms consider "l = PosInf" | n where "l = Finite n" "1 \<le> n"
    unfolding valid_count_cases by blast
  then show ?thesis
  proof cases
    case 1
    then show ?thesis by simp
  next
    case 2
    then have "n * 2 > 0" by simp
    then have "rnd (n * 2) = PosInf \<or> (\<exists>v. rnd (n * 2) = Finite v \<and> v > 0)" by (rule rnd_pos)
    then show ?thesis using 2 by auto
  qed
qed

lemma js_max_positive:
  "js_less (Finite 0) b \<Longrightarrow> a \<noteq> NaN \<Longrightarrow> js_less (Finite 0) (js_max a b)"
  by (cases a; cases b) (auto simp: js_max_def)

lemma empty_below_fetchSize:
  assumes "valid_count l"
  shows "\<not> js_ge (Finite 0) (js_max e (js_mul l (Finite 2)))"
proof (cases "e = NaN")
  case True
  then show ?thesis by (simp add: js_ge_def js_max_def)
next
  case False
  then show ?thesis
    using js_max_positive[OF twice_positive[OF assms] False] by (simp add: js_ge_def)
qed

text \<open>Below \<open>2^53\<close> the arithmetic of the page indices is exact.\<close>

lemma page_indices_exact:
  assumes "1 \<le> p" "1 \<le> l" "p * l \<le> 2 ^ 53"
  shows "js_mul (js_sub (Finite p) (Finite 1)) (Finite l) = Finite ((p - 1) * l)"
    and "js_add (js_mul (js_sub (Finite p) (Finite 1)) (Finite l)) (Finite l)
         = Finite ((p - 1) * l + l)"
proof -
  have pl: "p \<le> p * l" using assms(1,2) by (simp add: mult_le_cancel_left1)
  then have a: "\<bar>p + - 1\<bar> \<le> 2 ^ 53" using assms by linarith
  have "(p - 1) * l \<le> p * l" using assms(1,2) by (simp add: mult_right_mono)
  moreover have "0 \<le> (p - 1) * l" using assms(1,2) by simp
  ultimately have b: "\<bar>(p + - 1) * l\<bar> \<le> 2 ^ 53" using assms(3) by simp
  have c: "(p - 1) * l + l = p * l" by (simp add: algebra_simps)
  have d: "\<bar>(p + - 1) * l + l\<bar> \<le> 2 ^ 53" using assms c by simp
  show m: "js_mul (js_sub (Finite p) (Finite 1)) (Finite l) = Finite ((p - 1) * l)"
    using a b by (simp add: js_sub_def rnd_small)
  show "js_add (js_mul (js_sub (Finite p) (Finite 1)) (Finite l)) (Finite l)
         = Finite ((p - 1) * l + l)"
    unfolding m using d by (simp add: rnd_small)
qed

lemma next_page_exact:
  assumes "1 \<le> n" "n < 2 ^ 53"
  shows "js_add (Finite n) (Finite 1) = Finite (n + 1)"
  using assms by (simp add: rnd_small)

section \<open>Properties of ArticleData\<close>

subsection \<open>Whitespace\<close>

lemma ws_words_dropWhile: "ws_words (dropWhile is_ws s) = ws_words s"
  by (induction s) auto

lemma ws_words_all_ws: "\<forall>x\<in>set t. is_ws x \<Longrightarrow> ws_words t = []"
  by (induction t) auto

lemma takeWhile_not_ws_all_ws: "\<forall>x\<in>set t. is_ws x \<Longrightarrow> takeWhile (\<lambda>x. \<not> is_ws x) t = []"
  by (cases t) auto

lemma dropWhile_not_ws_all_ws: "\<forall>x\<in>set t. is_ws x \<Longrightarrow> dropWhile (\<lambda>x. \<not> is_ws x) t = t"
  by (cases t) auto

lemma ws_words_append_ws:
  "\<forall>x\<in>set t. is_ws x \<Longrightarrow> ws_words (s @ t) = ws_words s"
proof (induction s rule: ws_words.induct)
  case 1
  then show ?case by (simp add: ws_words_all_ws)
next
  case (2 c cs)
  show ?case
  proof (cases "is_ws c")
    case True
    then show ?thesis using 2 by simp
  next
    case nws: False
    show ?thesis
    proof (cases "\<forall>x\<in>set cs. \<not> is_ws x")
      case True
      then show ?thesis using nws 2(3)
        by (simp add: takeWhile_append2 dropWhile_append2 takeWhile_not_ws_all_ws
            dropWhile_not_ws_all_ws ws_words_all_ws takeWhile_eq_all_conv[THEN iffD2]
            dropWhile_eq_Nil_conv[THEN iffD2])
    next
      case False
      then obtain x where x: "x \<in> set cs" "\<not> \<not> is_ws x" by blast
      have "takeWhile (\<lambda>x. \<not> is_ws x) (cs @ t) = takeWhile (\<lambda>x. \<not> is_ws x) cs"
        using x by (rule takeWhile_append1)
      moreover have "dropWhile (\<lambda>x. \<not> is_ws x) (cs @ t) = dropWhile (\<lambda>x. \<not> is_ws x) cs @ t"
        using x by (rule dropWhile_append1)
      ultimately show ?thesis using nws 2 by simp
    qed
  qed
qed

lemma ws_words_trim: "ws_words (trim s) = ws_words s"
proof -
  let ?u = "dropWhile is_ws s"
  have "?u = rev (dropWhile is_ws (rev ?u)) @ rev (takeWhile is_ws (rev ?u))"
    by (metis rev_append rev_rev_ident takeWhile_dropWhile_id)
  moreover have "\<forall>x\<in>set (rev (takeWhile is_ws (rev ?u))). is_ws x"
    by (auto dest: set_takeWhileD)
  ultimately have "ws_words ?u = ws_words (rev (dropWhile is_ws (rev ?u)))"
    using ws_words_append_ws by metis
  then show ?thesis by (simp add: trim_def ws_words_dropWhile)
qed

lemma ws_words_nonempty: "s \<noteq> [] \<Longrightarrow> \<not> is_ws (last s) \<Longrightarrow> ws_words s \<noteq> []"
  by (induction s rule: ws_words.induct) (auto split: if_splits)

lemma no_trailing_dropWhile: "no_trailing_ws s \<Longrightarrow> no_trailing_ws (dropWhile P s)"
  unfolding no_trailing_ws_def
  by (induction s) (auto split: if_splits)

lemma no_trailing_tl: "no_trailing_ws (c # cs) \<Longrightarrow> no_trailing_ws cs"
  unfolding no_trailing_ws_def by (auto split: if_splits)

lemma join_with_Cons_Cons: "join_with sep ((c # w) # ws) = c # join_with sep (w # ws)"
  by (cases ws) auto

lemma collapse_ws_words:
  "no_trailing_ws s \<Longrightarrow>
   collapse_ws s = (if s \<noteq> [] \<and> is_ws (hd s) then [32] else []) @ join_with [32] (ws_words s)"
proof (induction s rule: collapse_ws.induct)
  case 1
  then show ?case by simp
next
  case (2 c cs)
  show ?case
  proof (cases "is_ws c")
    case True
    let ?r = "dropWhile is_ws cs"
    have nt: "no_trailing_ws ?r"
      using 2(3) no_trailing_tl no_trailing_dropWhile by blast
    have "?r = [] \<or> \<not> is_ws (hd ?r)"
      by (metis hd_dropWhile)
    then have "collapse_ws ?r = join_with [32] (ws_words ?r)"
      using 2(1)[OF True nt] by auto
    then show ?thesis using True by (simp add: ws_words_dropWhile)
  next
    case False
    have nt: "no_trailing_ws cs" using 2(3) no_trailing_tl by blast
    note ih = 2(2)[OF False nt]
    show ?thesis
    proof (cases cs)
      case Nil
      then show ?thesis using False by simp
    next
      case (Cons d ds)
      show ?thesis
      proof (cases "is_ws d")
        case True
        have "ws_words cs \<noteq> []" using nt Cons ws_words_nonempty
          unfolding no_trailing_ws_def by blast
        then obtain w wsr where "ws_words cs = w # wsr" by (cases "ws_words cs") auto
        then show ?thesis using ih False True Cons by simp
      next
        case dn: False
        then show ?thesis using ih False Cons by (simp add: join_with_Cons_Cons)
      qed
    qed
  qed
qed

lemma trim_no_trailing: "no_trailing_ws (trim s)"
  unfolding no_trailing_ws_def trim_def
  by (metis hd_dropWhile last_rev rev_is_Nil_conv)

lemma trim_no_leading: "trim s = [] \<or> \<not> is_ws (hd (trim s))"
proof -
  let ?u = "dropWhile is_ws s"
  have u: "?u = trim s @ rev (takeWhile is_ws (rev ?u))"
    unfolding trim_def by (metis rev_append rev_rev_ident takeWhile_dropWhile_id)
  show ?thesis
  proof (cases "trim s = []")
    case True then show ?thesis by simp
  next
    case False
    then have "hd (trim s) = hd ?u" using u by (metis hd_append2)
    moreover have "?u \<noteq> []" using False u by (metis append_is_Nil_conv)
    ultimately show ?thesis by (metis hd_dropWhile)
  qed
qed

lemma collapse_trim: "collapse_ws (trim s) = join_with [32] (ws_words s)"
  using collapse_ws_words[OF trim_no_trailing, of s] trim_no_leading[of s]
  by (auto simp: ws_words_trim)

subsection \<open>The hash\<close>

lemma ToInt32_range: "- (2 ^ 31) \<le> ToInt32 x \<and> ToInt32 x < 2 ^ 31"
proof -
  have "0 \<le> x mod 2 ^ 32" "x mod 2 ^ 32 < 2 ^ 32" by simp_all
  then show ?thesis unfolding ToInt32_def Let_def by auto
qed

lemma ToInt32_mod: "ToInt32 x mod 2 ^ 32 = x mod 2 ^ 32"
proof -
  have "(x mod 2 ^ 32 - 2 ^ 32) mod 2 ^ 32 = x mod (2 ^ 32 :: int)"
    by (metis minus_mod_self2 mod_mod_trivial)
  then show ?thesis unfolding ToInt32_def Let_def by simp
qed

lemma ToInt32_cong: "x mod 2 ^ 32 = y mod 2 ^ 32 \<Longrightarrow> ToInt32 x = ToInt32 y"
  unfolding ToInt32_def by simp

lemma bit_and_self: "bit_and a a = ToInt32 a"
  unfolding bit_and_def
  by (simp only: and.idem ToInt32_cong[OF ToInt32_mod])

lemma hash_step_poly: "hash_step a b = ToInt32 (31 * a + int b)"
proof -
  have e1: "(ToInt32 a * 2 ^ 5) mod 2 ^ 32 = (a * 2 ^ 5) mod 2 ^ 32"
    by (rule mod_mult_cong) (simp_all only: ToInt32_mod)
  have e2: "ToInt32 (ToInt32 a * 2 ^ 5) mod 2 ^ 32 = (a * 2 ^ 5) mod 2 ^ 32"
    using e1 by (simp only: ToInt32_mod)
  have e3: "(ToInt32 (ToInt32 a * 2 ^ 5) - a) mod 2 ^ 32 = (a * 2 ^ 5 - a) mod 2 ^ 32"
    by (rule mod_diff_cong[OF e2 refl])
  have e4: "(ToInt32 (ToInt32 a * 2 ^ 5) - a + int b) mod 2 ^ 32
          = (a * 2 ^ 5 - a + int b) mod 2 ^ 32"
    by (rule mod_add_cong[OF e3 refl])
  have e5: "a * 2 ^ 5 - a + int b = 31 * a + int b" by simp
  have "hash_step a b = ToInt32 (ToInt32 (ToInt32 a * 2 ^ 5) - a + int b)"
    unfolding hash_step_def shift_left_def Let_def bit_and_self by simp
  also have "\<dots> = ToInt32 (a * 2 ^ 5 - a + int b)"
    by (rule ToInt32_cong[OF e4])
  finally show ?thesis by (simp only: e5)
qed

lemma hash_string_snoc: "hash_string (s @ [c]) = hash_step (hash_string s) c"
  by (simp add: hash_string_def)

lemma hash_string_range: "- (2 ^ 31) \<le> hash_string s \<and> hash_string s < 2 ^ 31"
proof (cases s rule: rev_cases)
  case Nil
  then show ?thesis by (simp add: hash_string_def)
next
  case (snoc ys y)
  then show ?thesis using ToInt32_range[of "31 * hash_string ys + int y"]
    by (simp only: hash_string_snoc hash_step_poly)
qed

lemma hash_string_poly: "hash_string s = ToInt32 (foldl (\<lambda>a b. 31 * a + int b) 0 s)"
proof (induction s rule: rev_induct)
  case Nil
  then show ?case by (simp add: hash_string_def ToInt32_def)
next
  case (snoc x xs)
  have "(31 * ToInt32 (foldl (\<lambda>a b. 31 * a + int b) 0 xs) + int x) mod 2 ^ 32
      = (31 * foldl (\<lambda>a b. 31 * a + int b) 0 xs + int x) mod 2 ^ 32"
    by (rule mod_add_cong[OF mod_mult_cong[OF refl ToInt32_mod] refl])
  then have "ToInt32 (31 * ToInt32 (foldl (\<lambda>a b. 31 * a + int b) 0 xs) + int x)
      = ToInt32 (31 * foldl (\<lambda>a b. 31 * a + int b) 0 xs + int x)"
    by (rule ToInt32_cong)
  then show ?case
    by (simp add: hash_string_snoc hash_step_poly snoc.IH)
qed

lemma sanitizeString_words:
  "sanitizeString (JStr t) = take 5000 (replace_crlftab (join_with [32] (ws_words t)))"
proof (cases t)
  case Nil
  then show ?thesis by (simp add: sanitizeString_def replace_crlftab_def)
next
  case (Cons c cs)
  then show ?thesis by (simp add: sanitizeString_def collapse_trim)
qed

lemma ws_words_no_ws: "w \<in> set (ws_words s) \<Longrightarrow> c \<in> set w \<Longrightarrow> \<not> is_ws c"
  by (induction s rule: ws_words.induct) (auto split: if_splits dest: set_takeWhileD)

lemma set_join_with: "set (join_with sep ws) \<subseteq> set sep \<union> \<Union> (set ` set ws)"
  by (induction sep ws rule: join_with.induct) auto

lemma replace_crlftab_words:
  "replace_crlftab (join_with [32] (ws_words t)) = join_with [32] (ws_words t)"
proof -
  have "\<forall>c\<in>set (join_with [32] (ws_words t)). \<not> (c = 13 \<or> c = 10 \<or> c = 9)"
  proof
    fix c assume "c \<in> set (join_with [32] (ws_words t))"
    then have "c = 32 \<or> (\<exists>w\<in>set (ws_words t). c \<in> set w)"
      using set_join_with[of "[32]" "ws_words t"] by auto
    then show "\<not> (c = 13 \<or> c = 10 \<or> c = 9)"
      using ws_words_no_ws by (auto simp: is_ws_def)
  qed
  then show ?thesis unfolding replace_crlftab_def by (simp add: map_idI)
qed

lemma sanitizeString_words': "sanitizeString (JStr t) = take 5000 (join_with [32] (ws_words t))"
  by (simp only: sanitizeString_words replace_crlftab_words)

subsection \<open>The constructor\<close>

lemma id_source_Inl: "to_jstring provider = Inl e \<Longrightarrow> id_source url provider title = Inl e"
  by (cases provider; cases url) (auto simp: id_source_def)

lemma id_source_Inr:
  "to_jstring provider = Inr p \<Longrightarrow> \<exists>src. id_source url provider title = Inr src"
  by (cases provider; cases url) (auto simp: id_source_def)

lemma id_source_string:
  "id_source url (JStr p) title
   = Inr ((case url of None \<Rightarrow> lit ''null'' | Some u \<Rightarrow> u) @ p @ title)"
  by (cases url) (auto simp: id_source_def)

lemma generateId_Inl: "to_jstring provider = Inl e \<Longrightarrow> generateId url provider title = Inl e"
  by (simp add: generateId_def id_source_Inl)

lemma generateId_Inr:
  assumes "to_jstring provider = Inr p"
  shows "\<exists>src. id_source url provider title = Inr src
           \<and> generateId url provider title
             = Inr (p @ lit ''_'' @ number_to_string \<bar>hash_string src\<bar>)"
proof -
  obtain src where "id_source url provider title = Inr src"
    using id_source_Inr[OF assms] by blast
  then show ?thesis using assms by (simp add: generateId_def Let_def)
qed

lemma generateId_Inr_D:
  assumes "generateId url provider title = Inr i"
  shows "\<exists>src p. id_source url provider title = Inr src \<and> to_jstring provider = Inr p
           \<and> i = p @ lit ''_'' @ number_to_string \<bar>hash_string src\<bar>"
  using assms by (auto simp: generateId_def Let_def split: sum.splits)

lemma ArticleData_Inr:
  assumes "data \<noteq> JUndefined" and "data \<noteq> JNull"
    and "to_jstring (provider_of data) = Inr p"
  shows "\<exists>a. ArticleData url_ok now data = Inr a"
proof -
  let ?title = "or_default (sanitizeString (get_prop data ''title'')) (lit ''No title available'')"
  obtain src where "generateId (validateUrl url_ok (get_prop data ''url'')) (provider_of data) ?title
      = Inr (p @ lit ''_'' @ number_to_string \<bar>hash_string src\<bar>)"
    using generateId_Inr[OF assms(3)] by blast
  then show ?thesis using assms(1,2) by (simp add: ArticleData_def Let_def)
qed

lemma ArticleData_Inl:
  assumes "data \<noteq> JUndefined" and "data \<noteq> JNull"
    and "to_jstring (provider_of data) = Inl e"
  shows "ArticleData url_ok now data = Inl e"
  using assms by (simp add: ArticleData_def Let_def generateId_Inl)

lemma ArticleData_id:
  "ArticleData url_ok now data = Inr a \<Longrightarrow>
   generateId (art_url a) (art_provider a) (art_title a) = Inr (art_id a)"
  by (auto simp: ArticleData_def Let_def split: if_splits sum.splits)

lemma ArticleData_fields:
  assumes "ArticleData url_ok now data = Inr a"
  shows "art_title a = or_default (sanitizeString (get_prop data ''title'')) (lit ''No title available'')"
    and "art_description a = or_default (sanitizeString (get_prop data ''description'')) []"
    and "art_content a = or_default (sanitizeString (get_prop data ''content'')) []"
    and "art_url a = validateUrl url_ok (get_prop data ''url'')"
    and "art_urlToImage a = validateUrl url_ok (get_prop data ''urlToImage'')"
    and "art_publishedAt a = validateDate (get_prop data ''publishedAt'')"
    and "art_source a = normalizeSource url_ok (get_prop data ''source'')"
    and "art_provider a = provider_of data"
  using assms by (auto simp: ArticleData_def Let_def split: if_splits sum.splits)

lemma primitive_converts:
  assumes "\<forall>kvs. v \<noteq> JObj kvs" and "\<forall>xs. v \<noteq> JArr xs"
  shows "\<exists>p. to_jstring v = Inr p"
  using assms by (cases v) auto

text \<open>
  Claim C6, as stated, fails: the payload \<open>{title: 'T', provider: {toString: null}}\<close> is
  an object, and constructing its article throws the TypeError of
  \<open>this.url + this.provider + this.title\<close>.
\<close>

theorem unconvertible_provider_throws:
  "is_object payload_unconvertible
   \<and> ArticleData (\<lambda>s. True) clock_a payload_unconvertible
       = Inl (TypeError (lit ''Cannot convert object to primitive value''))"
  by (simp add: payload_unconvertible_def ArticleData_def provider_of_def generateId_def
      id_source_def validateUrl_def Let_def lit_def)

text \<open>
  Claim C6, amended. For a raw payload that is an object, constructing the article
  throws exactly when the provider, \<open>data.provider || 'unknown'\<close>, does not convert to a
  string, and then it throws the TypeError of that conversion. A provider that is absent
  or falsy, or a string, a number or a boolean, converts. When the provider converts the
  constructor returns, and the fields degrade: a \<open>url\<close> or \<open>urlToImage\<close> that is not a
  string, or that the URL parser rejects, becomes \<open>null\<close>, and one that is a non-empty
  string the parser accepts is kept; a \<open>publishedAt\<close> that is not a non-empty string
  becomes \<open>null\<close>; a \<open>source\<close> that is not an object is replaced by
  \<open>{name: 'Unknown', url: null}\<close>; a \<open>title\<close> that is not a string becomes the
  placeholder, a \<open>description\<close> or \<open>content\<close> that is not a string the empty string.
\<close>

theorem ArticleData_degrades:
  assumes "is_object data"
  shows "(\<forall>p. to_jstring (provider_of data) = Inr p \<longrightarrow>
      (\<exists>a. ArticleData url_ok now data = Inr a
        \<and> (\<forall>s. get_prop data ''url'' = JStr s \<longrightarrow> \<not> url_ok s \<longrightarrow> art_url a = None)
        \<and> ((\<forall>s. get_prop data ''url'' \<noteq> JStr s) \<longrightarrow> art_url a = None)
        \<and> (\<forall>s. get_prop data ''url'' = JStr s \<longrightarrow> s \<noteq> [] \<longrightarrow> url_ok s \<longrightarrow> art_url a = Some s)
        \<and> (\<forall>s. get_prop data ''urlToImage'' = JStr s \<longrightarrow> \<not> url_ok s \<longrightarrow> art_urlToImage a = None)
        \<and> ((\<forall>s. get_prop data ''urlToImage'' \<noteq> JStr s) \<longrightarrow> art_urlToImage a = None)
        \<and> (\<forall>s. get_prop data ''urlToImage'' = JStr s \<longrightarrow> s \<noteq> [] \<longrightarrow> url_ok s
               \<longrightarrow> art_urlToImage a = Some s)
        \<and> ((\<forall>s. get_prop data ''publishedAt'' \<noteq> JStr s) \<or> get_prop data ''publishedAt'' = JStr []
               \<longrightarrow> art_publishedAt a = None)
        \<and> (\<not> is_object (get_prop data ''source'')
               \<longrightarrow> art_source a = \<lparr>src_name = lit ''Unknown'', src_url = None\<rparr>)
        \<and> ((\<forall>s. get_prop data ''title'' \<noteq> JStr s) \<longrightarrow> art_title a = lit ''No title available'')
        \<and> ((\<forall>s. get_prop data ''description'' \<noteq> JStr s) \<longrightarrow> art_description a = [])
        \<and> ((\<forall>s. get_prop data ''content'' \<noteq> JStr s) \<longrightarrow> art_content a = [])
        \<and> art_provider a = provider_of data))
    \<and> (\<forall>e. to_jstring (provider_of data) = Inl e \<longrightarrow> ArticleData url_ok now data = Inl e)
    \<and> ((\<forall>kvs. provider_of data \<noteq> JObj kvs) \<and> (\<forall>xs. provider_of data \<noteq> JArr xs)
          \<longrightarrow> (\<exists>p. to_jstring (provider_of data) = Inr p))
    \<and> (\<not> truthy (get_prop data ''provider'') \<longrightarrow> provider_of data = JStr (lit ''unknown''))"
proof (intro conjI allI impI)
  fix p
  assume p: "to_jstring (provider_of data) = Inr p"
  from assms have n: "data \<noteq> JUndefined" "data \<noteq> JNull" by auto
  obtain a where a: "ArticleData url_ok now data = Inr a"
    using ArticleData_Inr[OF n p] by blast
  note f = ArticleData_fields[OF a]
  have u: "\<And>v. (\<forall>s. v = JStr s \<longrightarrow> \<not> url_ok s \<longrightarrow> validateUrl url_ok v = None)
      \<and> ((\<forall>s. v \<noteq> JStr s) \<longrightarrow> validateUrl url_ok v = None)
      \<and> (\<forall>s. v = JStr s \<longrightarrow> s \<noteq> [] \<longrightarrow> url_ok s \<longrightarrow> validateUrl url_ok v = Some s)"
    by (auto simp: validateUrl_def split: jsval.splits)
  have d: "\<And>v. (\<forall>s. v \<noteq> JStr s) \<or> v = JStr [] \<longrightarrow> validateDate v = None"
    by (auto simp: validateDate_def split: jsval.splits)
  have s: "\<And>v. (\<forall>s. v \<noteq> JStr s) \<longrightarrow> sanitizeString v = []"
    by (auto simp: sanitizeString_def split: jsval.splits)
  have o: "\<And>v. \<not> is_object v \<longrightarrow> normalizeSource url_ok v = \<lparr>src_name = lit ''Unknown'', src_url = None\<rparr>"
    subgoal for v by (cases v) (auto simp: normalizeSource_def)
    done
  show "\<exists>a. ArticleData url_ok now data = Inr a
        \<and> (\<forall>s. get_prop data ''url'' = JStr s \<longrightarrow> \<not> url_ok s \<longrightarrow> art_url a = None)
        \<and> ((\<forall>s. get_prop data ''url'' \<noteq> JStr s) \<longrightarrow> art_url a = None)
        \<and> (\<forall>s. get_prop data ''url'' = JStr s \<longrightarrow> s \<noteq> [] \<longrightarrow> url_ok s \<longrightarrow> art_url a = Some s)
        \<and> (\<forall>s. get_prop data ''urlToImage'' = JStr s \<longrightarrow> \<not> url_ok s \<longrightarrow> art_urlToImage a = None)
        \<and> ((\<forall>s. get_prop data ''urlToImage'' \<noteq> JStr s) \<longrightarrow> art_urlToImage a = None)
        \<and> (\<forall>s. get_prop data ''urlToImage'' = JStr s \<longrightarrow> s \<noteq> [] \<longrightarrow> url_ok s
               \<longrightarrow> art_urlToImage a = Some s)
        \<and> ((\<forall>s. get_prop data ''publishedAt'' \<noteq> JStr s) \<or> get_prop data ''publishedAt'' = JStr []
               \<longrightarrow> art_publishedAt a = None)
        \<and> (\<not> is_object (get_prop data ''source'')
               \<longrightarrow> art_source a = \<lparr>src_name = lit ''Unknown'', src_url = None\<rparr>)
        \<and> ((\<forall>s. get_prop data ''title'' \<noteq> JStr s) \<longrightarrow> art_title a = lit ''No title available'')
        \<and> ((\<forall>s. get_prop data ''description'' \<noteq> JStr s) \<longrightarrow> art_description a = [])
        \<and> ((\<forall>s. get_prop data ''content'' \<noteq> JStr s) \<longrightarrow> art_content a = [])
        \<and> art_provider a = provider_of data"
    apply (rule exI[of _ a])
    apply (simp only: a f)
    using u d s o by (simp add: or_default_def)
next
  fix e
  assume "to_jstring (provider_of data) = Inl e"
  moreover from assms have "data \<noteq> JUndefined" "data \<noteq> JNull" by auto
  ultimately show "ArticleData url_ok now data = Inl e" by (intro ArticleData_Inl)
next
  assume "(\<forall>kvs. provider_of data \<noteq> JObj kvs) \<and> (\<forall>xs. provider_of data \<noteq> JArr xs)"
  then show "\<exists>p. to_jstring (provider_of data) = Inr p"
    using primitive_converts by blast
next
  assume "\<not> truthy (get_prop data ''provider'')"
  then show "provider_of data = JStr (lit ''unknown'')" by (simp add: provider_of_def)
qed

lemmas article_eval =
  ArticleData_def provider_of_def lit_def trim_def is_ws_def sanitizeString_def or_default_def
  validateUrl_def validateDate_def normalizeSource_def generateId_def id_source_def
  replace_crlftab_def number_to_string_def digits.simps hash_string_def hash_step_def
  shift_left_def bit_and_def ToInt32_def

lemma payload_spaced_article:
  "ArticleData (\<lambda>s. True) clock_a payload_spaced = Inr (article_hello [] clock_a)"
  by (simp add: payload_spaced_def article_hello_def article_eval)

lemma payload_tabbed_article:
  "ArticleData (\<lambda>s. True) clock_b payload_tabbed = Inr (article_hello (lit ''other'') clock_b)"
  by (simp add: payload_tabbed_def article_hello_def article_eval)

text \<open>The malformed payload, which has no provider, with a parser that accepts one URL only.\<close>

theorem ArticleData_degrades_witness:
  "is_object payload_malformed
   \<and> to_jstring (provider_of payload_malformed) = Inr (lit ''unknown'')
   \<and> (\<exists>a. ArticleData (\<lambda>s. s = lit ''https://example.com/a'') clock_a payload_malformed = Inr a
        \<and> art_url a = None \<and> art_urlToImage a = None \<and> art_publishedAt a = None
        \<and> art_source a = \<lparr>src_name = lit ''Unknown'', src_url = None\<rparr>
        \<and> art_title a = lit ''No title available''
        \<and> art_description a = [] \<and> art_content a = []
        \<and> art_provider a = JStr (lit ''unknown''))"
proof -
  have h: "is_object payload_malformed" by (simp add: payload_malformed_def)
  have p: "get_prop payload_malformed ''url'' = JStr (lit ''not a url'')"
      "get_prop payload_malformed ''urlToImage'' = JNum 5"
      "get_prop payload_malformed ''publishedAt'' = JStr []"
      "get_prop payload_malformed ''source'' = JStr (lit ''x'')"
      "get_prop payload_malformed ''title'' = JNull"
      "get_prop payload_malformed ''description'' = JUndefined"
      "get_prop payload_malformed ''content'' = JUndefined"
    by (simp_all add: payload_malformed_def lit_def)
  have v: "provider_of payload_malformed = JStr (lit ''unknown'')"
    by (simp add: provider_of_def payload_malformed_def lit_def)
  have c: "to_jstring (provider_of payload_malformed) = Inr (lit ''unknown'')"
    by (simp add: v)
  have n: "lit ''not a url'' \<noteq> lit ''https://example.com/a''" by (simp add: lit_def)
  note r = ArticleData_degrades[OF h, of "\<lambda>s. s = lit ''https://example.com/a''" clock_a,
      THEN conjunct1, rule_format, OF c]
  show ?thesis
    using r h c n by (simp add: p v)
qed

text \<open>
  Claim C7. The id of an article is a function of its normalised url, provider and
  title: two payloads that normalise to the same three values get the same id, whatever
  their other fields and the time of normalisation. The id is the provider, an
  underscore, and the decimal absolute value of \<open>h\<close>, where \<open>h\<close> is the hash of
  \<open>url + provider + title\<close>: a 32-bit signed integer, equal to the polynomial
  \<open>31 * acc + code unit\<close> folded over the string from the left and reduced by ToInt32.
  When the provider is a string, the hashed string is the concatenation of the url (or
  \<open>null\<close>), the provider and the title. The hash depends on the order of the code units:
  \<open>ab\<close> and \<open>ba\<close> hash differently.
\<close>

theorem generateId_deterministic:
  assumes "ArticleData url_ok now data = Inr a"
    and "ArticleData url_ok' now' data' = Inr a'"
    and "art_url a = art_url a'"
    and "art_provider a = art_provider a'"
    and "art_title a = art_title a'"
  shows "art_id a = art_id a'
    \<and> generateId (art_url a) (art_provider a) (art_title a) = Inr (art_id a)
    \<and> (\<exists>src p h. id_source (art_url a) (art_provider a) (art_title a) = Inr src
           \<and> to_jstring (art_provider a) = Inr p
           \<and> h = hash_string src
           \<and> - (2 ^ 31) \<le> h \<and> h < 2 ^ 31
           \<and> h = ToInt32 (foldl (\<lambda>acc c. 31 * acc + int c) 0 src)
           \<and> art_id a = p @ lit ''_'' @ number_to_string \<bar>h\<bar>)
    \<and> (\<forall>p. art_provider a = JStr p \<longrightarrow>
           id_source (art_url a) (art_provider a) (art_title a)
           = Inr ((case art_url a of None \<Rightarrow> lit ''null'' | Some u \<Rightarrow> u) @ p @ art_title a))
    \<and> hash_string [97, 98] \<noteq> hash_string [98, 97]"
proof -
  have i: "generateId (art_url a) (art_provider a) (art_title a) = Inr (art_id a)"
    using assms(1) by (rule ArticleData_id)
  have i': "generateId (art_url a') (art_provider a') (art_title a') = Inr (art_id a')"
    using assms(2) by (rule ArticleData_id)
  have "Inr (art_id a) = (Inr (art_id a') :: error + jstring)"
    using i i' by (simp only: assms(3-5))
  then have e: "art_id a = art_id a'" by simp
  have c: "\<forall>p. art_provider a = JStr p \<longrightarrow>
           id_source (art_url a) (art_provider a) (art_title a)
           = Inr ((case art_url a of None \<Rightarrow> lit ''null'' | Some u \<Rightarrow> u) @ p @ art_title a)"
    by (simp add: id_source_string)
  obtain src p where s: "id_source (art_url a) (art_provider a) (art_title a) = Inr src"
      "to_jstring (art_provider a) = Inr p"
      "art_id a = p @ lit ''_'' @ number_to_string \<bar>hash_string src\<bar>"
    using generateId_Inr_D[OF i] by blast
  have h: "\<exists>src p h. id_source (art_url a) (art_provider a) (art_title a) = Inr src
           \<and> to_jstring (art_provider a) = Inr p
           \<and> h = hash_string src
           \<and> - (2 ^ 31) \<le> h \<and> h < 2 ^ 31
           \<and> h = ToInt32 (foldl (\<lambda>acc c. 31 * acc + int c) 0 src)
           \<and> art_id a = p @ lit ''_'' @ number_to_string \<bar>h\<bar>"
    using hash_string_range[of src] hash_string_poly[of src] s
    by (intro exI[of _ src] exI[of _ p] exI[of _ "hash_string src"]) simp
  have d: "hash_string [97, 98] \<noteq> hash_string [98, 97]"
    by (simp add: hash_string_def hash_step_def shift_left_def bit_and_def ToInt32_def)
  show ?thesis using e i h c d by (intro conjI)
qed

theorem generateId_deterministic_witness:
  "ArticleData (\<lambda>s. True) clock_a payload_spaced = Inr (article_hello [] clock_a)
   \<and> ArticleData (\<lambda>s. True) clock_b payload_tabbed = Inr (article_hello (lit ''other'') clock_b)
   \<and> art_url (article_hello [] clock_a) = art_url (article_hello (lit ''other'') clock_b)
   \<and> art_provider (article_hello [] clock_a) = art_provider (article_hello (lit ''other'') clock_b)
   \<and> art_title (article_hello [] clock_a) = art_title (article_hello (lit ''other'') clock_b)
   \<and> art_id (article_hello [] clock_a) = art_id (article_hello (lit ''other'') clock_b)
   \<and> art_id (article_hello [] clock_a) = lit ''gnews_991485430''
   \<and> hash_string (lit ''https://example.com/agnewsHello world'') = - 991485430"
proof -
  have u: "art_url (article_hello [] clock_a) = art_url (article_hello (lit ''other'') clock_b)"
    and p: "art_provider (article_hello [] clock_a) = art_provider (article_hello (lit ''other'') clock_b)"
    and t: "art_title (article_hello [] clock_a) = art_title (article_hello (lit ''other'') clock_b)"
    by (simp_all add: article_hello_def)
  have i: "art_id (article_hello [] clock_a) = lit ''gnews_991485430''"
    by (simp add: article_hello_def)
  note r = generateId_deterministic[OF payload_spaced_article payload_tabbed_article u p t]
  have "hash_string (lit ''https://example.com/agnewsHello world'') = - 991485430"
    by (simp add: lit_def hash_string_def hash_step_def shift_left_def bit_and_def ToInt32_def)
  then show ?thesis
    using r payload_spaced_article payload_tabbed_article u p t i by simp
qed

text \<open>
  Claim C10. Take two raw payloads with the same \<open>url\<close> and \<open>provider\<close> whose string
  titles have the same words, that is, differ only in leading, trailing or internal runs
  of whitespace. Normalising them has the same outcome as far as the id goes: the same
  id, or the same TypeError when the provider does not convert to a string. Whenever
  both normalisations return, the articles have the same id and the same title, and the
  title that enters the hash is the words joined by single spaces, cut at 5000 code units
  (or the placeholder when there is no word). They both return when the provider
  converts, as every string does.
\<close>

theorem id_whitespace_invariant:
  assumes "is_object data" and "is_object data'"
    and "get_prop data ''url'' = get_prop data' ''url''"
    and "get_prop data ''provider'' = get_prop data' ''provider''"
    and "get_prop data ''title'' = JStr t"
    and "get_prop data' ''title'' = JStr t'"
    and "ws_words t = ws_words t'"
  shows "map_sum (\<lambda>e. e) art_id (ArticleData url_ok now data)
         = map_sum (\<lambda>e. e) art_id (ArticleData url_ok now' data')
    \<and> (\<forall>a a'. ArticleData url_ok now data = Inr a \<and> ArticleData url_ok now' data' = Inr a'
          \<longrightarrow> art_id a = art_id a' \<and> art_title a = art_title a'
              \<and> art_title a = or_default (take 5000 (join_with [32] (ws_words t)))
                                 (lit ''No title available''))
    \<and> (\<forall>p. to_jstring (provider_of data) = Inr p
          \<longrightarrow> (\<exists>a a'. ArticleData url_ok now data = Inr a
                 \<and> ArticleData url_ok now' data' = Inr a' \<and> art_id a = art_id a'))
    \<and> (\<forall>s. get_prop data ''provider'' = JStr s
          \<longrightarrow> (\<exists>a a'. ArticleData url_ok now data = Inr a
                 \<and> ArticleData url_ok now' data' = Inr a' \<and> art_id a = art_id a'))"
proof -
  from assms(1) have n: "data \<noteq> JUndefined" "data \<noteq> JNull" by auto
  from assms(2) have n': "data' \<noteq> JUndefined" "data' \<noteq> JNull" by auto
  have pv: "provider_of data = provider_of data'" by (simp add: provider_of_def assms(4))
  have both: "art_id a = art_id a' \<and> art_title a = art_title a'
              \<and> art_title a = or_default (take 5000 (join_with [32] (ws_words t)))
                                 (lit ''No title available'')"
    if a: "ArticleData url_ok now data = Inr a" and a': "ArticleData url_ok now' data' = Inr a'"
    for a a'
  proof -
    note f = ArticleData_fields[OF a] and f' = ArticleData_fields[OF a']
    have t: "art_title a = or_default (take 5000 (join_with [32] (ws_words t))) (lit ''No title available'')"
      by (simp only: f(1) assms(5) sanitizeString_words')
    have t': "art_title a' = or_default (take 5000 (join_with [32] (ws_words t'))) (lit ''No title available'')"
      by (simp only: f'(1) assms(6) sanitizeString_words')
    have tt: "art_title a = art_title a'" by (simp only: t t' assms(7))
    have u: "art_url a = art_url a'" by (simp only: f(4) f'(4) assms(3))
    have p: "art_provider a = art_provider a'" by (simp only: f(8) f'(8) pv)
    have "Inr (art_id a) = (Inr (art_id a') :: error + jstring)"
      using ArticleData_id[OF a] ArticleData_id[OF a'] by (simp only: tt u p)
    then show ?thesis using tt t by simp
  qed
  have conv: "\<exists>a a'. ArticleData url_ok now data = Inr a
                 \<and> ArticleData url_ok now' data' = Inr a' \<and> art_id a = art_id a'"
    if p: "to_jstring (provider_of data) = Inr p" for p
  proof -
    obtain a where a: "ArticleData url_ok now data = Inr a"
      using ArticleData_Inr[OF n p] by blast
    obtain a' where a': "ArticleData url_ok now' data' = Inr a'"
      using ArticleData_Inr[OF n'] p pv by metis
    show ?thesis using a a' both[OF a a'] by blast
  qed
  have same: "map_sum (\<lambda>e. e) art_id (ArticleData url_ok now data)
         = map_sum (\<lambda>e. e) art_id (ArticleData url_ok now' data')"
  proof (cases "to_jstring (provider_of data)")
    case (Inl e)
    have "ArticleData url_ok now data = Inl e" using n Inl by (rule ArticleData_Inl)
    moreover have "ArticleData url_ok now' data' = Inl e"
      using n' Inl pv by (intro ArticleData_Inl) simp_all
    ultimately show ?thesis by simp
  next
    case (Inr p)
    then obtain a a' where "ArticleData url_ok now data = Inr a"
      "ArticleData url_ok now' data' = Inr a'" "art_id a = art_id a'"
      using conv by blast
    then show ?thesis by simp
  qed
  have str: "\<exists>a a'. ArticleData url_ok now data = Inr a
                 \<and> ArticleData url_ok now' data' = Inr a' \<and> art_id a = art_id a'"
    if s: "get_prop data ''provider'' = JStr s" for s
  proof -
    have "\<exists>p. to_jstring (provider_of data) = Inr p"
      by (simp add: provider_of_def s)
    then show ?thesis using conv by blast
  qed
  show ?thesis using same both conv str by blast
qed

theorem id_whitespace_invariant_witness:
  "is_object payload_spaced \<and> is_object payload_tabbed
   \<and> get_prop payload_spaced ''url'' = get_prop payload_tabbed ''url''
   \<and> get_prop payload_spaced ''provider'' = get_prop payload_tabbed ''provider''
   \<and> get_prop payload_spaced ''title'' = JStr ([32] @ lit ''Hello'' @ [32, 32, 10] @ lit ''world'' @ [32])
   \<and> get_prop payload_tabbed ''title'' = JStr (lit ''Hello'' @ [9] @ lit ''world'')
   \<and> ws_words ([32] @ lit ''Hello'' @ [32, 32, 10] @ lit ''world'' @ [32])
       = ws_words (lit ''Hello'' @ [9] @ lit ''world'')
   \<and> get_prop payload_spaced ''provider'' = JStr (lit ''gnews'')
   \<and> (\<exists>a a'. ArticleData (\<lambda>s. True) clock_a payload_spaced = Inr a
        \<and> ArticleData (\<lambda>s. True) clock_b payload_tabbed = Inr a'
        \<and> art_id a = art_id a' \<and> art_title a = art_title a'
        \<and> art_title a = or_default
             (take 5000 (join_with [32] (ws_words ([32] @ lit ''Hello'' @ [32, 32, 10] @ lit ''world'' @ [32]))))
             (lit ''No title available''))"
proof -
  have o: "is_object payload_spaced" and o': "is_object payload_tabbed"
    by (simp_all add: payload_spaced_def payload_tabbed_def)
  have u: "get_prop payload_spaced ''url'' = get_prop payload_tabbed ''url''"
    and p: "get_prop payload_spaced ''provider'' = get_prop payload_tabbed ''provider''"
    and t: "get_prop payload_spaced ''title'' = JStr ([32] @ lit ''Hello'' @ [32, 32, 10] @ lit ''world'' @ [32])"
    and t': "get_prop payload_tabbed ''title'' = JStr (lit ''Hello'' @ [9] @ lit ''world'')"
    and g: "get_prop payload_spaced ''provider'' = JStr (lit ''gnews'')"
    by (simp_all add: payload_spaced_def payload_tabbed_def lit_def)
  have w: "ws_words ([32] @ lit ''Hello'' @ [32, 32, 10] @ lit ''world'' @ [32])
       = ws_words (lit ''Hello'' @ [9] @ lit ''world'')"
    by (simp add: lit_def is_ws_def)
  note r = id_whitespace_invariant[OF o o' u p t t' w, of "\<lambda>s. True" clock_a clock_b]
  obtain a a' where a: "ArticleData (\<lambda>s. True) clock_a payload_spaced = Inr a"
      "ArticleData (\<lambda>s. True) clock_b payload_tabbed = Inr a'"
    using r g by blast
  have "art_id a = art_id a' \<and> art_title a = art_title a'
        \<and> art_title a = or_default
             (take 5000 (join_with [32] (ws_words ([32] @ lit ''Hello'' @ [32, 32, 10] @ lit ''world'' @ [32]))))
             (lit ''No title available'')"
    using r a by blast
  then have "\<exists>a a'. ArticleData (\<lambda>s. True) clock_a payload_spaced = Inr a
        \<and> ArticleData (\<lambda>s. True) clock_b payload_tabbed = Inr a'
        \<and> art_id a = art_id a' \<and> art_title a = art_title a'
        \<and> art_title a = or_default
             (take 5000 (join_with [32] (ws_words ([32] @ lit ''Hello'' @ [32, 32, 10] @ lit ''world'' @ [32]))))
             (lit ''No title available'')"
    using a by blast
  then show ?thesis using o o' u p t t' w g by (intro conjI)
qed

section \<open>Properties of the providers\<close>

lemma filter_isValid_Cons: "filter_isValid (a # as) = Inl (TypeError (lit ''article.isValid is not a function''))"
  by (simp add: bind_result_def call_isValid_def)

lemma filter_isValid_cases:
  "filter_isValid as = (if as = [] then Inr [] else Inl (TypeError (lit ''article.isValid is not a function'')))"
  by (cases as) (simp_all add: bind_result_def call_isValid_def)

text \<open>
  Claim C5. The validity filter of NewsAPIProvider and GuardianProvider calls
  \<open>article.isValid()\<close>, which \<open>ArticleData\<close> does not define: on a response holding one
  well-formed article with a valid url, \<open>normalizeResponse\<close> throws a TypeError instead of
  returning the article.
\<close>

theorem normalizeResponse_isValid_fails:
  "NewsAPI_normalizeResponse (\<lambda>s. True) clock_a newsapi_body
     = Inl (TypeError (lit ''article.isValid is not a function''))
   \<and> Guardian_normalizeResponse (\<lambda>s. True) clock_a guardian_body
     = Inl (TypeError (lit ''article.isValid is not a function''))"
  by (simp add: NewsAPI_normalizeResponse_def Guardian_normalizeResponse_def newsapi_body_def
      guardian_body_def read_prop_def opt_prop_def js_or_def array_map_def bind_result_def
      ArticleData_def provider_of_def generateId_def id_source_def validateUrl_def Let_def
      call_isValid_def lit_def)

text \<open>
  Claim C4. On a 500 response, NewsAPIProvider's \<open>searchNews\<close> throws a plain \<open>Error\<close>
  with no status code, and on a network failure so does GuardianProvider's; neither is an
  ExternalAPIError and neither keeps the original failure. GNewsProvider wraps the same
  network failure in \<open>ExternalAPIError('GNews', error)\<close>.
\<close>

theorem transport_failure_not_wrapped:
  "NewsAPIProvider_searchNews (\<lambda>s. True) clock_a (JStr (lit ''key'')) (\<lambda>url params. Inr response_500)
      (lit ''climate'') []
     = Inl (JsError (lit ''NewsAPI search failed: NewsAPI request failed: 500 Internal Server Error''))
   \<and> statusCode (JsError (lit ''NewsAPI search failed: NewsAPI request failed: 500 Internal Server Error'')) = None
   \<and> GuardianProvider_searchNews (\<lambda>s. True) clock_a (JStr (lit ''key'')) (\<lambda>url params. Inl network_down)
      (lit ''climate'') []
     = Inl (JsError (lit ''Guardian search failed: fetch failed''))
   \<and> GNewsProvider_searchNews (\<lambda>s. True) clock_a (JStr (lit ''key'')) (\<lambda>q params. Inl network_down)
      (lit ''climate'') []
     = Inl (ExternalAPIError (lit ''GNews'') network_down)"
  by (simp add: NewsAPIProvider_searchNews_def GuardianProvider_searchNews_def
      GNewsProvider_searchNews_def validateOptions_def not_in_enum_def with_default_def
      SortBy_values_def SearchInOptions_values_def NewsCategory_values_def
      rethrow_as_Error_def read_response_def bind_result_def response_500_def network_down_def
      param_def append_if_def number_to_string_def digits.simps lit_def)

lemma filter_isValid_Inr: "filter_isValid as = Inr r \<Longrightarrow> as = [] \<and> r = []"
  by (cases as) (simp_all add: bind_result_def call_isValid_def)

text \<open>The two providers that filter return a result only when there is no article at all.\<close>

lemma NewsAPI_normalizeResponse_Inr:
  "NewsAPI_normalizeResponse url_ok now response = Inr r
   \<Longrightarrow> res_articles r = Some [] \<and> res_totalResults r = Finite 0"
  unfolding NewsAPI_normalizeResponse_def bind_result_def
  by (auto split: sum.splits dest: filter_isValid_Inr)

lemma Guardian_normalizeResponse_Inr:
  "Guardian_normalizeResponse url_ok now response = Inr r
   \<Longrightarrow> res_articles r = Some [] \<and> res_totalResults r = Finite 0"
  unfolding Guardian_normalizeResponse_def bind_result_def
  by (auto split: sum.splits dest: filter_isValid_Inr)

text \<open>Every error of the NewsAPI and Guardian providers is a plain \<open>Error\<close>.\<close>

lemma validateOptions_JsError:
  "validateOptions JsError a b d = Inl e \<Longrightarrow> \<exists>m. e = JsError m"
  by (auto simp: validateOptions_def split: if_splits)

lemma rethrow_as_Error_Inl: "rethrow_as_Error prefix r = Inl e \<Longrightarrow> \<exists>m. e = JsError m"
  by (auto simp: rethrow_as_Error_def split: sum.splits)

lemma NewsAPIProvider_errors_plain:
  "NewsAPIProvider_searchNews url_ok now apiKey fetch query options = Inl e
   \<or> NewsAPIProvider_getTopHeadlines url_ok now apiKey fetch options = Inl e
   \<Longrightarrow> \<exists>m. e = JsError m"
  unfolding NewsAPIProvider_searchNews_def NewsAPIProvider_getTopHeadlines_def Let_def
    bind_result_def
  by (auto split: if_splits sum.splits dest: validateOptions_JsError rethrow_as_Error_Inl)

lemma GuardianProvider_errors_plain:
  "GuardianProvider_searchNews url_ok now apiKey fetch query options = Inl e
   \<or> GuardianProvider_getTopHeadlines url_ok now apiKey fetch options = Inl e
   \<Longrightarrow> \<exists>m. e = JsError m"
  unfolding GuardianProvider_searchNews_def GuardianProvider_getTopHeadlines_def Let_def
    bind_result_def
  by (auto split: if_splits sum.splits dest: validateOptions_JsError rethrow_as_Error_Inl)

text \<open>The GNews provider wraps every failure of the library call, and keeps it.\<close>

lemma GNewsProvider_wraps:
  assumes "truthy apiKey"
    and "validateOptions ValidationError (get_prop (JObj options) ''sortBy'')
           (get_prop (JObj options) ''searchIn'') JUndefined = Inr ()"
    and "\<And>params. client_search query params = Inl failure"
  shows "GNewsProvider_searchNews url_ok now apiKey client_search query options
         = Inl (ExternalAPIError (lit ''GNews'') failure)"
  using assms
  by (simp add: GNewsProvider_searchNews_def bind_result_def Let_def del: get_prop.simps)
section \<open>Properties of NewsClient\<close>

subsection \<open>Validation\<close>

lemma throw_InvalidQueryError_converts:
  "to_jstring v = Inr s \<Longrightarrow>
   throw_InvalidQueryError v reason = InvalidQueryError v (reason @ lit '': '' @ [39] @ s @ [39])"
  by (simp add: throw_InvalidQueryError_def)

lemma parseInt_converts: "parseInt v = Inr n \<Longrightarrow> \<exists>s. to_jstring v = Inr s"
  by (auto simp: parseInt_def split: sum.splits)

lemma parseInt_throws: "to_jstring v = Inl e \<Longrightarrow> parseInt v = Inl e"
  by (simp add: parseInt_def)

lemma digits_nonempty: "digits m \<noteq> []"
  by (subst digits.simps) simp

lemma digits_range: "ch \<in> set (digits m) \<Longrightarrow> 48 \<le> ch \<and> ch \<le> 57"
proof (induction m rule: digits.induct)
  case (1 n)
  show ?case
  proof (cases "n < 10")
    case True
    then show ?thesis using 1(2) by (subst (asm) digits.simps) simp
  next
    case False
    have "ch \<in> set (digits (n div 10)) \<or> ch = 48 + n mod 10"
      using 1(2) False by (subst (asm) digits.simps) auto
    moreover have "n mod 10 < 10" by simp
    ultimately show ?thesis using 1(1)[OF False] by auto
  qed
qed

lemma digits_value: "foldl (\<lambda>a ch. a * 10 + digit_value ch) 0 (digits m) = m"
proof (induction m rule: digits.induct)
  case (1 n)
  show ?case
  proof (cases "n < 10")
    case True
    then show ?thesis by (subst digits.simps) (simp add: digit_value_def)
  next
    case False
    have "n mod 10 < 10" by simp
    then have d: "digit_value (48 + n mod 10) = n mod 10" by (simp add: digit_value_def)
    show ?thesis using False 1(1)[OF False] d
      by (subst digits.simps) simp
  qed
qed

lemma digit_value_digit: "48 \<le> ch \<Longrightarrow> ch \<le> 57 \<Longrightarrow> digit_value ch < 10"
  by (auto simp: digit_value_def)

lemma digit_not_ws: "48 \<le> ch \<Longrightarrow> ch \<le> 57 \<Longrightarrow> \<not> is_ws ch"
  by (auto simp: is_ws_def)

lemma hex_prefix_digits: "\<not> hex_prefix (digits m)"
proof
  assume a: "hex_prefix (digits m)"
  then have "digits m ! 1 \<in> set (digits m)" unfolding hex_prefix_def by (intro nth_mem) simp
  then have "48 \<le> digits m ! 1 \<and> digits m ! 1 \<le> 57" by (rule digits_range)
  then show False using a unfolding hex_prefix_def by auto
qed

lemma parse_digits_digits: "parse_digits 10 (digits m) = Some m"
proof -
  have tw: "takeWhile (\<lambda>c. digit_value c < 10) (digits m) = digits m"
    using digits_range digit_value_digit by (intro takeWhile_eq_all_conv[THEN iffD2]) blast
  show ?thesis unfolding parse_digits_def Let_def tw
    using digits_nonempty digits_value by simp
qed

lemma digits_head: "hd (digits m) \<noteq> 43 \<and> hd (digits m) \<noteq> 45 \<and> \<not> is_ws (hd (digits m))"
proof -
  have "hd (digits m) \<in> set (digits m)" using digits_nonempty by (intro hd_in_set)
  then have "48 \<le> hd (digits m) \<and> hd (digits m) \<le> 57" by (rule digits_range)
  then show ?thesis using digit_not_ws by auto
qed

lemma dropWhile_ws_digits: "dropWhile is_ws (digits m) = digits m"
  using digits_head[of m] digits_nonempty[of m] by (cases "digits m") auto

lemma sint_safe: "\<bar>sint (n :: 54 word)\<bar> \<le> 2 ^ 53"
proof -
  have "- (2 ^ 53) \<le> sint n" using sint_ge[of n] by simp
  moreover have "sint n < 2 ^ 53" using sint_lt[of n] by simp
  ultimately show ?thesis by linarith
qed

text \<open>\<open>parseInt\<close> reads every Number of \<open>jsval\<close> as itself.\<close>

lemma parseInt_JNum: "parseInt (JNum n) = Inr (Finite (sint n))"
proof (cases "sint n < 0")
  case True
  have s: "\<not> is_ws 45"
    by (simp add: is_ws_def)
  have "to_jstring (JNum n) = Inr (45 # digits (nat (- sint n)))"
    using True by (simp add: number_to_string_def)
  then show ?thesis
    using True sint_safe[of n] unfolding parseInt_def
    by (simp add: s Let_def hex_prefix_digits parse_digits_digits rnd_small)
next
  case False
  have "to_jstring (JNum n) = Inr (digits (nat (sint n)))"
    using False by (simp add: number_to_string_def)
  then show ?thesis
    using False digits_head[of "nat (sint n)"] sint_safe[of n] unfolding parseInt_def
    by (simp add: dropWhile_ws_digits Let_def hex_prefix_digits parse_digits_digits rnd_small)
qed

lemma parseInt_default:
  "parseInt (JNum 1) = Inr (Finite 1)" "parseInt (JNum 10) = Inr (Finite 10)"
  "parseInt (JNum 2) = Inr (Finite 2)" "parseInt (JNum 5) = Inr (Finite 5)"
  by (simp_all add: parseInt_JNum)

lemma parseInt_examples:
  "parseInt (JStr (lit ''1.5'')) = Inr (Finite 1)"
  "parseInt (JStr (lit ''2abc'')) = Inr (Finite 2)"
  "parseInt (JStr (lit '' 7'')) = Inr (Finite 7)"
  "parseInt (JStr (lit ''0x10'')) = Inr (Finite 16)"
  "parseInt (JStr (lit ''abc'')) = Inr NaN"
  "parseInt (JStr (lit ''0'')) = Inr (Finite 0)"
  "parseInt (JStr (lit ''-3'')) = Inr (Finite (- 3))"
  "parseInt (JStr []) = Inr NaN"
  "parseInt JNull = Inr NaN"
  by (simp_all add: parseInt_def parse_digits_def hex_prefix_def lit_def is_ws_def
      digit_value_def rnd_def Let_def)

lemma parseInt_rounds:
  "parseInt (JStr (lit ''9007199254740993'')) = Inr (Finite 9007199254740992)"
  by (simp add: parseInt_def parse_digits_def hex_prefix_def lit_def is_ws_def
      digit_value_def rnd_def nearest_double_def ratio_exponent_def round_half_even_def
      bit_length.simps Let_def)

lemma parseInt_unconvertible:
  "map_of kvs (lit ''toString'') \<noteq> None \<Longrightarrow>
   parseInt (JObj kvs) = Inl (TypeError (lit ''Cannot convert object to primitive value''))"
  by (simp add: parseInt_def)

lemma valid_count_examples:
  "valid_count (Finite 1)" "valid_count (Finite 2)" "valid_count (Finite 5)"
  "valid_count (Finite 10)" "\<not> valid_count NaN" "\<not> valid_count (Finite 0)"
  "valid_count PosInf"
  by (simp_all add: valid_count_def isNaN_def)

lemma trim_empty_iff: "trim s = [] \<longleftrightarrow> (\<forall>ch\<in>set s. is_ws ch)"
proof -
  have "(\<forall>x\<in>set (dropWhile is_ws s). is_ws x) \<longleftrightarrow> dropWhile is_ws s = []"
  proof
    assume a: "\<forall>x\<in>set (dropWhile is_ws s). is_ws x"
    show "dropWhile is_ws s = []"
    proof (rule ccontr)
      assume n: "dropWhile is_ws s \<noteq> []"
      then have "\<not> is_ws (hd (dropWhile is_ws s))" by (rule hd_dropWhile)
      then show False using a n by simp
    qed
  qed (auto dest: set_dropWhileD)
  then show ?thesis by (simp add: trim_def dropWhile_eq_Nil_conv)
qed

text \<open>
  What \<open>searchNews\<close> does with a query that has a word, by the outcome of \<open>parseInt\<close> on
  \<open>page\<close> and on \<open>limit\<close>.
\<close>

lemma searchNews_page_throws:
  assumes "trim q \<noteq> []"
    and "parseInt (with_default (get_prop (JObj options) ''page'') (JNum 1)) = Inl e"
  shows "searchNews c upstream (JStr q) options = (Inl e, c, [])"
  using assms by (simp add: searchNews_def Let_def del: get_prop.simps)

lemma searchNews_limit_throws:
  assumes "trim q \<noteq> []"
    and "parseInt (with_default (get_prop (JObj options) ''page'') (JNum 1)) = Inr pageNum"
    and "parseInt (with_default (get_prop (JObj options) ''limit'') (JNum 10)) = Inl e"
  shows "searchNews c upstream (JStr q) options = (Inl e, c, [])"
  using assms by (simp add: searchNews_def Let_def del: get_prop.simps)

lemma searchNews_page_invalid:
  assumes "trim q \<noteq> []"
    and "parseInt (with_default (get_prop (JObj options) ''page'') (JNum 1)) = Inr pageNum"
    and "parseInt (with_default (get_prop (JObj options) ''limit'') (JNum 10)) = Inr limitNum"
    and "\<not> valid_count pageNum"
  shows "searchNews c upstream (JStr q) options
         = (Inl (throw_InvalidQueryError (with_default (get_prop (JObj options) ''page'') (JNum 1))
                   (lit ''Page must be a positive integer'')), c, [])"
  using assms by (simp add: searchNews_def valid_count_def Let_def del: get_prop.simps)

lemma searchNews_limit_invalid:
  assumes "trim q \<noteq> []"
    and "parseInt (with_default (get_prop (JObj options) ''page'') (JNum 1)) = Inr pageNum"
    and "parseInt (with_default (get_prop (JObj options) ''limit'') (JNum 10)) = Inr limitNum"
    and "valid_count pageNum"
    and "\<not> valid_count limitNum"
  shows "searchNews c upstream (JStr q) options
         = (Inl (throw_InvalidQueryError (with_default (get_prop (JObj options) ''limit'') (JNum 10))
                   (lit ''Limit must be between 1 or more'')), c, [])"
  using assms by (simp add: searchNews_def valid_count_def Let_def del: get_prop.simps)

lemma searchNews_valid_case:
  assumes "trim q \<noteq> []"
    and "parseInt (with_default (get_prop (JObj options) ''page'') (JNum 1)) = Inr pageNum"
    and "parseInt (with_default (get_prop (JObj options) ''limit'') (JNum 10)) = Inr limitNum"
    and "valid_count pageNum"
    and "valid_count limitNum"
  shows "searchNews c upstream (JStr q) options
         = (case getProvider c (get_prop (JObj options) ''provider'') of
              Inl e \<Rightarrow> (Inl e, c, [])
            | Inr p \<Rightarrow> search_with c upstream p (trim q)
                        (obj_rest [''provider'', ''page'', ''limit''] options) pageNum limitNum)"
  using assms by (simp add: searchNews_def valid_count_def Let_def del: get_prop.simps)

lemma searchNews_valid:
  assumes "trim q \<noteq> []"
    and "parseInt (with_default (get_prop (JObj options) ''page'') (JNum 1)) = Inr pageNum"
    and "valid_count pageNum"
    and "parseInt (with_default (get_prop (JObj options) ''limit'') (JNum 10)) = Inr limitNum"
    and "valid_count limitNum"
    and "getProvider c (get_prop (JObj options) ''provider'') = Inr p"
  shows "searchNews c upstream (JStr q) options
         = search_with c upstream p (trim q)
             (obj_rest [''provider'', ''page'', ''limit''] options) pageNum limitNum"
  using searchNews_valid_case[OF assms(1,2,4,3,5)] assms(6) by simp

text \<open>Every outcome of searchNews is a failed validation or resolution, which leaves the
  client alone and calls no provider, or the outcome of search_with on validated numbers.\<close>

lemma searchNews_cases:
  obtains (rejected) e where "searchNews c upstream query options = (Inl e, c, [])"
  | (searched) q p pageNum limitNum where
      "query = JStr q" "trim q \<noteq> []"
      "parseInt (with_default (get_prop (JObj options) ''page'') (JNum 1)) = Inr pageNum"
      "valid_count pageNum"
      "parseInt (with_default (get_prop (JObj options) ''limit'') (JNum 10)) = Inr limitNum"
      "valid_count limitNum"
      "getProvider c (get_prop (JObj options) ''provider'') = Inr p"
      "searchNews c upstream query options
         = search_with c upstream p (trim q)
             (obj_rest [''provider'', ''page'', ''limit''] options) pageNum limitNum"
proof (cases query)
  case (JStr q)
  let ?page = "with_default (get_prop (JObj options) ''page'') (JNum 1)"
  let ?lim = "with_default (get_prop (JObj options) ''limit'') (JNum 10)"
  show ?thesis
  proof (cases "trim q = []")
    case True
    then have "searchNews c upstream query options
        = (Inl (throw_InvalidQueryError (js_or query (JStr []))
                 (lit ''Search query is required and must be non-empty'')), c, [])"
      using JStr by (simp add: searchNews_def)
    then show ?thesis by (rule rejected)
  next
    case False
    show ?thesis
    proof (cases "parseInt ?page")
      case (Inl e)
      show ?thesis
        using searchNews_page_throws[OF False Inl] JStr by (intro rejected) simp
    next
      case pg: (Inr pageNum)
      show ?thesis
      proof (cases "parseInt ?lim")
        case (Inl e)
        show ?thesis
          using searchNews_limit_throws[OF False pg Inl] JStr by (intro rejected) simp
      next
        case lm: (Inr limitNum)
        show ?thesis
        proof (cases "valid_count pageNum")
          case False
          show ?thesis
            using searchNews_page_invalid[OF \<open>trim q \<noteq> []\<close> pg lm False] JStr
            by (intro rejected) simp
        next
          case vp: True
          show ?thesis
          proof (cases "valid_count limitNum")
            case False
            show ?thesis
              using searchNews_limit_invalid[OF \<open>trim q \<noteq> []\<close> pg lm vp False] JStr
              by (intro rejected) simp
          next
            case vl: True
            note v = searchNews_valid_case[OF \<open>trim q \<noteq> []\<close> pg lm vp vl, of c upstream]
            show ?thesis
            proof (cases "getProvider c (get_prop (JObj options) ''provider'')")
              case (Inl e)
              then have "searchNews c upstream query options = (Inl e, c, [])"
                using v JStr by simp
              then show ?thesis by (rule rejected)
            next
              case (Inr p)
              have "searchNews c upstream query options
                 = search_with c upstream p (trim q)
                 (obj_rest [''provider'', ''page'', ''limit''] options) pageNum limitNum"
                using v JStr Inr by simp
              then show ?thesis
                using searched[OF JStr \<open>trim q \<noteq> []\<close> pg vp lm vl Inr] by blast
            qed
          qed
        qed
      qed
    qed
  qed
next
  case JUndefined
  then have "searchNews c upstream query options
      = (Inl (throw_InvalidQueryError (JStr [])
               (lit ''Search query is required and must be non-empty'')), c, [])"
    by (simp add: searchNews_def)
  then show ?thesis by (rule rejected)
next
  case JNull
  then have "searchNews c upstream query options
      = (Inl (throw_InvalidQueryError (JStr [])
               (lit ''Search query is required and must be non-empty'')), c, [])"
    by (simp add: searchNews_def)
  then show ?thesis by (rule rejected)
next
  case (JBool b)
  then have "searchNews c upstream query options
      = (Inl (TypeError (lit ''query?.trim is not a function'')), c, [])"
    by (simp add: searchNews_def)
  then show ?thesis by (rule rejected)
next
  case (JNum n)
  then have "searchNews c upstream query options
      = (Inl (TypeError (lit ''query?.trim is not a function'')), c, [])"
    by (simp add: searchNews_def)
  then show ?thesis by (rule rejected)
next
  case (JArr xs)
  then have "searchNews c upstream query options
      = (Inl (TypeError (lit ''query?.trim is not a function'')), c, [])"
    by (simp add: searchNews_def)
  then show ?thesis by (rule rejected)
next
  case (JObj kvs)
  then have "searchNews c upstream query options
      = (Inl (TypeError (lit ''query?.trim is not a function'')), c, [])"
    by (simp add: searchNews_def)
  then show ?thesis by (rule rejected)
qed

subsection \<open>The cache\<close>

lemma search_with_hit:
  assumes "articleCache c (cacheKey q (prov_name p) so) = Some e"
    and "articles e \<noteq> [] \<or> \<not> hasMore e"
  shows "search_with c upstream p q so pageNum limitNum
         = (Inr (page_response p e pageNum limitNum), c, [])"
  using assms by (auto simp: search_with_def Let_def)

lemma search_with_other_key:
  assumes "search_with c upstream p q so pageNum limitNum = (r, c', calls)"
    and "k \<noteq> cacheKey q (prov_name p) so"
  shows "articleCache c' k = articleCache c k"
  using assms
  by (auto simp: search_with_def Let_def split: if_splits sum.splits option.splits)

lemma search_with_calls_key:
  assumes "search_with c upstream p q so pageNum limitNum = (r, c', calls)"
    and "x \<in> set calls"
  shows "call_key x = cacheKey q (prov_name p) so"
  using assms
  by (auto simp: search_with_def Let_def split: if_splits sum.splits option.splits)

lemma search_with_one_call:
  assumes "search_with c upstream p q so pageNum limitNum = (r, c', calls)"
    and "x \<in> set calls"
  shows "calls = [x]"
  using assms
  by (auto simp: search_with_def Let_def split: if_splits sum.splits option.splits)

lemma search_with_registry:
  assumes "search_with c upstream p q so pageNum limitNum = (r, c', calls)"
  shows "providers c' = providers c \<and> defaultProvider c' = defaultProvider c"
  using assms
  by (auto simp: search_with_def Let_def split: if_splits sum.splits option.splits)

lemma search_with_populates:
  assumes "search_with c upstream p q so pageNum limitNum = (Inr env, c', calls)"
    and "valid_count limitNum"
  shows "populated c' (cacheKey q (prov_name p) so)"
  using assms(1) empty_below_fetchSize[OF assms(2)] unfolding populated_def
  by (auto simp: search_with_def Let_def split: if_splits sum.splits option.splits)

lemma search_with_response:
  assumes "search_with c upstream p q so pageNum limitNum = (Inr env, c', calls)"
  shows "\<exists>e. articleCache c' (cacheKey q (prov_name p) so) = Some e
            \<and> env = page_response p e pageNum limitNum"
  using assms
  by (auto simp: search_with_def Let_def split: if_splits sum.splits option.splits)

lemma searchNews_populates:
  assumes "searchNews c upstream query options = (Inr env, c1, calls)" and "x \<in> set calls"
  shows "populated c1 (call_key x)"
proof (cases rule: searchNews_cases[where c=c and upstream=upstream and query=query and options=options])
  case (rejected e)
  then show ?thesis using assms by simp
next
  case (searched q p pageNum limitNum)
  then have s: "search_with c upstream p (trim q)
      (obj_rest [''provider'', ''page'', ''limit''] options) pageNum limitNum = (Inr env, c1, calls)"
    using assms(1) by simp
  show ?thesis
    using search_with_populates[OF s searched(6)] search_with_calls_key[OF s assms(2)]
    by simp
qed

lemma searchNews_keeps_populated:
  assumes "populated c k" and "searchNews c upstream query options = (r, c', calls)"
  shows "articleCache c' k = articleCache c k \<and> (\<forall>y\<in>set calls. call_key y \<noteq> k)"
proof (cases rule: searchNews_cases[where c=c and upstream=upstream and query=query and options=options])
  case (rejected e)
  then show ?thesis using assms by simp
next
  case (searched q p pageNum limitNum)
  let ?so = "obj_rest [''provider'', ''page'', ''limit''] options"
  have s: "search_with c upstream p (trim q) ?so pageNum limitNum = (r, c', calls)"
    using searched(8) assms(2) by simp
  show ?thesis
  proof (cases "k = cacheKey (trim q) (prov_name p) ?so")
    case True
    from assms(1) obtain e where e: "articleCache c k = Some e" "articles e \<noteq> [] \<or> \<not> hasMore e"
      unfolding populated_def by blast
    have "search_with c upstream p (trim q) ?so pageNum limitNum
        = (Inr (page_response p e pageNum limitNum), c, [])"
      using e True by (intro search_with_hit) simp_all
    then show ?thesis using s by simp
  next
    case False
    then show ?thesis
      using search_with_other_key[OF s False] search_with_calls_key[OF s] by auto
  qed
qed

lemma step_keeps_populated:
  assumes "populated c k" and "\<not> is_ClearCache x" and "step c x = (c', calls)"
  shows "articleCache c' k = articleCache c k \<and> (\<forall>y\<in>set calls. call_key y \<noteq> k)"
proof (cases x)
  case (SearchNews upstream query options)
  obtain r where "searchNews c upstream query options = (r, c', calls)"
    using assms(3) SearchNews by (cases "searchNews c upstream query options") auto
  then show ?thesis using searchNews_keeps_populated[OF assms(1)] by blast
next
  case (GetTopHeadlines upstream options)
  then show ?thesis using assms(3) by simp
next
  case (SetDefaultProvider name)
  then show ?thesis using assms(3)
    by (auto simp: setDefaultProvider_def split: if_splits)
next
  case ClearCache
  then show ?thesis using assms(2) by simp
qed

lemma populated_cong: "articleCache c' k = articleCache c k \<Longrightarrow> populated c' k = populated c k"
  by (simp add: populated_def)

lemma run_keeps_populated:
  assumes "populated c k" and "\<forall>x\<in>set ops. \<not> is_ClearCache x"
  shows "articleCache (fst (run c ops)) k = articleCache c k
         \<and> (\<forall>y\<in>set (snd (run c ops)). call_key y \<noteq> k)"
  using assms
proof (induction ops arbitrary: c)
  case Nil
  then show ?case by simp
next
  case (Cons x xs)
  obtain c1 calls1 where st: "step c x = (c1, calls1)" by (cases "step c x") auto
  have k1: "articleCache c1 k = articleCache c k \<and> (\<forall>y\<in>set calls1. call_key y \<noteq> k)"
    using step_keeps_populated[OF Cons.prems(1) _ st] Cons.prems(2) by simp
  then have p1: "populated c1 k" using Cons.prems(1) populated_cong by blast
  have ih: "articleCache (fst (run c1 xs)) k = articleCache c1 k
         \<and> (\<forall>y\<in>set (snd (run c1 xs)). call_key y \<noteq> k)"
    using Cons.IH[OF p1] Cons.prems(2) by simp
  show ?case using st k1 ih by (auto simp: split_beta)
qed

lemma page_response_articles:
  "env_articles (page_response p e pageNum limitNum)
   = Some (slice (articles e) (js_mul (js_sub pageNum (Finite 1)) limitNum)
             (js_add (js_mul (js_sub pageNum (Finite 1)) limitNum) limitNum))"
  by (simp add: page_response_def createPaginatedResponse_def Let_def)

text \<open>
  Claim C1. Once a \<open>searchNews\<close> call has fetched from the provider and returned, no
  later operation of the client, short of \<open>clearCache\<close>, calls a provider for the same cache
  key. The entry stays as that one fetch left it, and every later search with that key
  returns the page sliced from its articles, changes nothing and calls no provider,
  whatever the provider would have answered.
\<close>

theorem populated_never_refetched:
  assumes "searchNews c upstream query options = (Inr env, c1, calls)"
    and "x \<in> set calls"
    and "\<forall>op \<in> set ops. \<not> is_ClearCache op"
  shows "calls = [x]
    \<and> (\<forall>y \<in> set (snd (run c1 ops)). call_key y \<noteq> call_key x)
    \<and> (\<exists>e. articleCache c1 (call_key x) = Some e
          \<and> articleCache (fst (run c1 ops)) (call_key x) = Some e
          \<and> (\<forall>upstream' p q so pageNum limitNum.
                cacheKey q (prov_name p) so = call_key x \<longrightarrow>
                search_with (fst (run c1 ops)) upstream' p q so pageNum limitNum
                  = (Inr (page_response p e pageNum limitNum), fst (run c1 ops), [])
                \<and> env_articles (page_response p e pageNum limitNum)
                  = Some (slice (articles e) (js_mul (js_sub pageNum (Finite 1)) limitNum)
                            (js_add (js_mul (js_sub pageNum (Finite 1)) limitNum) limitNum))))"
proof -
  have one: "calls = [x]"
  proof (cases rule: searchNews_cases[where c=c and upstream=upstream and query=query and options=options])
    case (rejected e)
    then show ?thesis using assms by simp
  next
    case (searched q p pageNum limitNum)
    then have "search_with c upstream p (trim q)
      (obj_rest [''provider'', ''page'', ''limit''] options) pageNum limitNum = (Inr env, c1, calls)"
      using assms(1) by simp
    then show ?thesis using assms(2) by (rule search_with_one_call)
  qed
  have p: "populated c1 (call_key x)"
    using searchNews_populates[OF assms(1) assms(2)] .
  then obtain e where e: "articleCache c1 (call_key x) = Some e" "articles e \<noteq> [] \<or> \<not> hasMore e"
    unfolding populated_def by blast
  note r = run_keeps_populated[OF p assms(3)]
  have e': "articleCache (fst (run c1 ops)) (call_key x) = Some e" using r e by simp
  have hit: "\<forall>upstream' p q so pageNum limitNum.
                cacheKey q (prov_name p) so = call_key x \<longrightarrow>
                search_with (fst (run c1 ops)) upstream' p q so pageNum limitNum
                  = (Inr (page_response p e pageNum limitNum), fst (run c1 ops), [])
                \<and> env_articles (page_response p e pageNum limitNum)
                  = Some (slice (articles e) (js_mul (js_sub pageNum (Finite 1)) limitNum)
                            (js_add (js_mul (js_sub pageNum (Finite 1)) limitNum) limitNum))"
    using search_with_hit[OF _ e(2)] e' page_response_articles by simp
  show ?thesis using one r e(1) e' hit by blast
qed

text \<open>
  Claim C8. \<open>searchNews\<close> with a query that is \<open>undefined\<close>, \<open>null\<close>, empty or made of
  whitespace only fails with an InvalidQueryError of status 400 whose message begins with
  \<open>Search query\<close>. This holds for every client, also one with no provider, and every
  provider behaviour: the client is returned unchanged, so no cache entry is created, and
  no provider is called.
\<close>

theorem empty_query_rejected:
  assumes "query = JUndefined \<or> query = JNull \<or> (\<exists>s. query = JStr s \<and> (\<forall>ch\<in>set s. is_ws ch))"
  shows "searchNews c upstream query options
         = (Inl (InvalidQueryError (JStr (case query of JStr s \<Rightarrow> s | _ \<Rightarrow> []))
                   (lit ''Search query is required and must be non-empty'' @ lit '': '' @ [39]
                    @ (case query of JStr s \<Rightarrow> s | _ \<Rightarrow> []) @ [39])), c, [])
    \<and> statusCode (InvalidQueryError (JStr (case query of JStr s \<Rightarrow> s | _ \<Rightarrow> []))
                   (lit ''Search query is required and must be non-empty'' @ lit '': '' @ [39]
                    @ (case query of JStr s \<Rightarrow> s | _ \<Rightarrow> []) @ [39])) = Some 400
    \<and> take 12 (message (InvalidQueryError (JStr (case query of JStr s \<Rightarrow> s | _ \<Rightarrow> []))
                   (lit ''Search query is required and must be non-empty'' @ lit '': '' @ [39]
                    @ (case query of JStr s \<Rightarrow> s | _ \<Rightarrow> []) @ [39]))) = lit ''Search query''"
proof -
  have m: "take 12 (message (InvalidQueryError v
                   (lit ''Search query is required and must be non-empty'' @ lit '': '' @ [39]
                    @ s @ [39]))) = lit ''Search query''"
    for v s by (simp add: lit_def)
  have t: "throw_InvalidQueryError (JStr s) (lit ''Search query is required and must be non-empty'')
      = InvalidQueryError (JStr s)
          (lit ''Search query is required and must be non-empty'' @ lit '': '' @ [39] @ s @ [39])"
    for s by (simp add: throw_InvalidQueryError_def)
  from assms consider "query = JUndefined" | "query = JNull"
    | s where "query = JStr s" "\<forall>ch\<in>set s. is_ws ch" by blast
  then show ?thesis
  proof cases
    case 1
    then show ?thesis using m[of "JStr []" "[]"] t[of "[]"]
      by (simp add: searchNews_def del: message.simps)
  next
    case 2
    then show ?thesis using m[of "JStr []" "[]"] t[of "[]"]
      by (simp add: searchNews_def del: message.simps)
  next
    case 3
    then have e: "trim s = []" using trim_empty_iff by blast
    have j: "js_or (JStr s) (JStr []) = JStr s" by (cases s) (simp_all add: js_or_def)
    show ?thesis using 3(1) e m[of "JStr s" s] t[of s]
      by (simp add: searchNews_def j del: message.simps)
  qed
qed

theorem empty_query_rejected_witness:
  "(\<exists>s. JStr [32, 9, 32] = JStr s \<and> (\<forall>ch\<in>set s. is_ws ch))
   \<and> searchNews client_gnews upstream_eight (JStr [32, 9, 32]) []
       = (Inl (InvalidQueryError (JStr [32, 9, 32])
                 (lit ''Search query is required and must be non-empty'' @ lit '': '' @ [39]
                  @ [32, 9, 32] @ [39])), client_gnews, [])
   \<and> searchNews client_none upstream_eight (JStr []) []
       = (Inl (InvalidQueryError (JStr [])
                 (lit ''Search query is required and must be non-empty'' @ lit '': '' @ [39]
                  @ [] @ [39])), client_none, [])
   \<and> message (InvalidQueryError (JStr [])
                 (lit ''Search query is required and must be non-empty'' @ lit '': '' @ [39]
                  @ [] @ [39]))
       = lit ''Search query is required and must be non-empty: '' @ [39, 39]"
proof -
  have h: "\<exists>s. JStr [32, 9, 32] = JStr s \<and> (\<forall>ch\<in>set s. is_ws ch)"
    by (simp add: is_ws_def)
  have h': "JStr [] = JUndefined \<or> JStr [] = JNull \<or> (\<exists>s. JStr [] = JStr s \<and> (\<forall>ch\<in>set s. is_ws ch))"
    by simp
  have m: "message (InvalidQueryError (JStr [])
                 (lit ''Search query is required and must be non-empty'' @ lit '': '' @ [39]
                  @ [] @ [39]))
       = lit ''Search query is required and must be non-empty: '' @ [39, 39]"
    by (simp add: lit_def)
  note r1 = empty_query_rejected[of "JStr [32, 9, 32]" client_gnews upstream_eight "[]",
      THEN conjunct1]
  note r2 = empty_query_rejected[OF h', of client_none upstream_eight "[]", THEN conjunct1]
  have a: "searchNews client_gnews upstream_eight (JStr [32, 9, 32]) []
       = (Inl (InvalidQueryError (JStr [32, 9, 32])
                 (lit ''Search query is required and must be non-empty'' @ lit '': '' @ [39]
                  @ [32, 9, 32] @ [39])), client_gnews, [])"
    using r1 h by simp
  have b: "searchNews client_none upstream_eight (JStr []) []
       = (Inl (InvalidQueryError (JStr [])
                 (lit ''Search query is required and must be non-empty'' @ lit '': '' @ [39]
                  @ [] @ [39])), client_none, [])"
    using r2 by simp
  show ?thesis using h a b m by (intro conjI)
qed

subsection \<open>The gnews scenario\<close>

lemma search_with_miss_gnews:
  assumes "articleCache c (cacheKey q (lit ''gnews'') so) = None"
    and "prov_name p = lit ''gnews''"
    and "upstream p q (obj_rest [''max''] so) (Finite 10) = Inr result"
    and "res_articles result = Some xs"
  shows "search_with c upstream p q so pageNum limitNum
         = (Inr (page_response p
                   \<lparr>articles = xs, totalArticles = num_or (res_totalResults result) (Finite 0),
                    lastFetchSize = Finite 10, hasMore = False\<rparr> pageNum limitNum),
            c\<lparr>articleCache := (articleCache c)(cacheKey q (lit ''gnews'') so \<mapsto>
                   \<lparr>articles = xs, totalArticles = num_or (res_totalResults result) (Finite 0),
                    lastFetchSize = Finite 10, hasMore = False\<rparr>)\<rparr>,
            [\<lparr>call_provider = lit ''gnews'', call_query = q,
              call_options = obj_rest [''max''] so, call_max = Finite 10,
              call_key = cacheKey q (lit ''gnews'') so\<rparr>])"
  using assms by (simp add: search_with_def Let_def)

lemma page_response_gnews:
  assumes "prov_name p = lit ''gnews''"
  shows "page_response p e pageNum limitNum
         = createPaginatedResponse
             (slice (articles e) (js_mul (js_sub pageNum (Finite 1)) limitNum)
                (js_add (js_mul (js_sub pageNum (Finite 1)) limitNum) limitNum))
             (Finite (int (length (articles e)))) pageNum limitNum
             (js_less (js_add (js_mul (js_sub pageNum (Finite 1)) limitNum) limitNum)
                (Finite (int (length (articles e))))) (lit ''gnews'')"
  using assms by (simp add: page_response_def Let_def)

lemma createPaginatedResponse_fields:
  "env_provider (createPaginatedResponse arts total_n pageNum limitNum hasNext prov) = prov"
  "env_articles (createPaginatedResponse arts total_n pageNum limitNum hasNext prov) = Some arts"
  "env_totalResults (createPaginatedResponse arts total_n pageNum limitNum hasNext prov) = total_n"
  "totalResults (env_pagination (createPaginatedResponse arts total_n pageNum limitNum hasNext prov)) = total_n"
  "hasNextPage (env_pagination (createPaginatedResponse arts total_n pageNum limitNum hasNext prov)) = hasNext"
  "currentPage (env_pagination (createPaginatedResponse arts total_n pageNum limitNum hasNext prov)) = pageNum"
  "limit (env_pagination (createPaginatedResponse arts total_n pageNum limitNum hasNext prov)) = limitNum"
  by (simp_all add: createPaginatedResponse_def Let_def)

lemma getProvider_articleCache_update:
  "getProvider (c\<lparr>articleCache := m\<rparr>) name = getProvider c name"
  by (simp add: getProvider_def getAvailableProviders_def Let_def
      split: option.splits jsval.splits)

lemma getProvider_client_gnews:
  "getProvider client_gnews JUndefined = Inr \<lparr>prov_name = lit ''gnews'', prov_apiKey = JStr (lit ''key'')\<rparr>"
  by (simp add: client_gnews_def NewsClient_new_def registerProvider_def getProvider_def
      with_default_def Let_def lit_def)

lemma articleCache_client_gnews: "articleCache client_gnews k = None"
  by (simp add: client_gnews_def NewsClient_new_def registerProvider_def Let_def lit_def)

lemma trim_climate: "trim (lit ''climate'') = lit ''climate''"
  by (simp add: trim_def lit_def is_ws_def)

lemma climate_nonempty: "lit ''climate'' \<noteq> []"
  by (simp add: lit_def)

lemma options_limit5:
  "get_prop (JObj [(lit ''limit'', JNum 5)]) ''page'' = JUndefined"
  "get_prop (JObj [(lit ''limit'', JNum 5)]) ''limit'' = JNum 5"
  "get_prop (JObj [(lit ''limit'', JNum 5)]) ''provider'' = JUndefined"
  "obj_rest [''provider'', ''page'', ''limit''] [(lit ''limit'', JNum 5)] = []"
  by (simp_all add: lit_def obj_rest_def)

lemma options_page2_limit5:
  "get_prop (JObj [(lit ''page'', JNum 2), (lit ''limit'', JNum 5)]) ''page'' = JNum 2"
  "get_prop (JObj [(lit ''page'', JNum 2), (lit ''limit'', JNum 5)]) ''limit'' = JNum 5"
  "get_prop (JObj [(lit ''page'', JNum 2), (lit ''limit'', JNum 5)]) ''provider'' = JUndefined"
  "obj_rest [''provider'', ''page'', ''limit''] [(lit ''page'', JNum 2), (lit ''limit'', JNum 5)] = []"
  by (simp_all add: lit_def obj_rest_def)

lemma obj_rest_empty: "obj_rest names [] = []"
  by (simp add: obj_rest_def)

lemma index_examples:
  "js_mul (js_sub (Finite 1) (Finite 1)) (Finite 5) = Finite 0"
  "js_add (Finite 0) (Finite 5) = Finite 5"
  "js_mul (js_sub (Finite 2) (Finite 1)) (Finite 5) = Finite 5"
  "js_add (Finite 5) (Finite 5) = Finite 10"
  "js_mul (js_sub (Finite 1) (Finite 1)) (Finite 10) = Finite 0"
  "js_add (Finite 0) (Finite 10) = Finite 10"
  "js_add (Finite 1) (Finite 1) = Finite 2"
  by (simp_all add: js_sub_def rnd_def)

text \<open>The scenario, for any client whose default provider is gnews and whose cache has
  no entry for the query, and any eight articles: the first page, then the second.\<close>

lemma gnews_scenario_page1:
  assumes "length as = 8"
    and "res_articles result = Some as"
    and "getProvider c JUndefined = Inr p"
    and "prov_name p = lit ''gnews''"
    and "articleCache c (cacheKey (lit ''climate'') (lit ''gnews'') []) = None"
    and "upstream p (lit ''climate'') [] (Finite 10) = Inr result"
  shows "searchNews c upstream (JStr (lit ''climate'')) [(lit ''limit'', JNum 5)]
    = (Inr (createPaginatedResponse (take 5 as) (Finite 8) (Finite 1) (Finite 5) True
              (lit ''gnews'')),
       c\<lparr>articleCache := (articleCache c)(cacheKey (lit ''climate'') (lit ''gnews'') [] \<mapsto>
            \<lparr>articles = as, totalArticles = num_or (res_totalResults result) (Finite 0),
             lastFetchSize = Finite 10, hasMore = False\<rparr>)\<rparr>,
       [\<lparr>call_provider = lit ''gnews'', call_query = lit ''climate'',
         call_options = [], call_max = Finite 10,
         call_key = cacheKey (lit ''climate'') (lit ''gnews'') []\<rparr>])"
proof -
  let ?e = "\<lparr>articles = as, totalArticles = num_or (res_totalResults result) (Finite 0),
             lastFetchSize = Finite 10, hasMore = False\<rparr>"
  have s1: "searchNews c upstream (JStr (lit ''climate'')) [(lit ''limit'', JNum 5)]
      = search_with c upstream p (lit ''climate'') [] (Finite 1) (Finite 5)"
    using searchNews_valid[of "lit ''climate''" "[(lit ''limit'', JNum 5)]" "Finite 1" "Finite 5"
        c p upstream]
    by (simp add: options_limit5 trim_climate climate_nonempty with_default_def parseInt_default
        valid_count_examples assms(3) del: get_prop.simps)
  have up: "upstream p (lit ''climate'') (obj_rest [''max''] []) (Finite 10) = Inr result"
    using assms(6) by (simp add: obj_rest_empty)
  have r1: "search_with c upstream p (lit ''climate'') [] (Finite 1) (Finite 5)
      = (Inr (page_response p ?e (Finite 1) (Finite 5)),
         c\<lparr>articleCache := (articleCache c)(cacheKey (lit ''climate'') (lit ''gnews'') [] \<mapsto> ?e)\<rparr>,
         [\<lparr>call_provider = lit ''gnews'', call_query = lit ''climate'',
           call_options = obj_rest [''max''] [], call_max = Finite 10,
           call_key = cacheKey (lit ''climate'') (lit ''gnews'') []\<rparr>])"
    using assms(5) assms(4) up assms(2) by (rule search_with_miss_gnews)
  have p1: "page_response p ?e (Finite 1) (Finite 5)
      = createPaginatedResponse (take 5 as) (Finite 8) (Finite 1) (Finite 5) True (lit ''gnews'')"
    using assms(1)
    by (simp add: page_response_gnews[OF assms(4)] index_examples rnd_def slice_def slice_index_def)
  show ?thesis using s1 r1 p1 by (simp add: obj_rest_empty)
qed

lemma gnews_scenario_page2:
  assumes "length as = 8"
    and "getProvider c JUndefined = Inr p"
    and "prov_name p = lit ''gnews''"
    and "articleCache c (cacheKey (lit ''climate'') (lit ''gnews'') [])
         = Some \<lparr>articles = as, totalArticles = n, lastFetchSize = Finite 10, hasMore = False\<rparr>"
  shows "searchNews c upstream (JStr (lit ''climate''))
           [(lit ''page'', JNum 2), (lit ''limit'', JNum 5)]
    = (Inr (createPaginatedResponse (drop 5 as) (Finite 8) (Finite 2) (Finite 5) False
              (lit ''gnews'')), c, [])"
proof -
  let ?e = "\<lparr>articles = as, totalArticles = n, lastFetchSize = Finite 10, hasMore = False\<rparr>"
  have hit: "search_with c upstream p (lit ''climate'') [] (Finite 2) (Finite 5)
      = (Inr (page_response p ?e (Finite 2) (Finite 5)), c, [])"
    by (rule search_with_hit) (simp_all add: assms(3) assms(4))
  have s2: "searchNews c upstream (JStr (lit ''climate''))
             [(lit ''page'', JNum 2), (lit ''limit'', JNum 5)]
      = (Inr (page_response p ?e (Finite 2) (Finite 5)), c, [])"
    using searchNews_valid[of "lit ''climate''" "[(lit ''page'', JNum 2), (lit ''limit'', JNum 5)]"
        "Finite 2" "Finite 5" c p upstream] hit
    by (simp add: options_page2_limit5 trim_climate climate_nonempty with_default_def
        parseInt_default valid_count_examples assms(2) del: get_prop.simps)
  have p2: "page_response p ?e (Finite 2) (Finite 5)
      = createPaginatedResponse (drop 5 as) (Finite 8) (Finite 2) (Finite 5) False (lit ''gnews'')"
    using assms(1)
    by (simp add: page_response_gnews[OF assms(3)] index_examples rnd_def slice_def slice_index_def)
  show ?thesis using s2 p2 by simp
qed

lemma gnews_scenario:
  assumes "length as = 8"
    and "res_articles result = Some as"
    and "getProvider c JUndefined = Inr p"
    and "prov_name p = lit ''gnews''"
    and "articleCache c (cacheKey (lit ''climate'') (lit ''gnews'') []) = None"
    and "upstream p (lit ''climate'') [] (Finite 10) = Inr result"
  shows "\<exists>env1 c1 call env2.
      searchNews c upstream (JStr (lit ''climate'')) [(lit ''limit'', JNum 5)] = (Inr env1, c1, [call])
      \<and> env_articles env1 = Some (take 5 as)
      \<and> hasNextPage (env_pagination env1)
      \<and> env_totalResults env1 = Finite 8 \<and> totalResults (env_pagination env1) = Finite 8
      \<and> (\<forall>upstream'. searchNews c1 upstream' (JStr (lit ''climate''))
             [(lit ''page'', JNum 2), (lit ''limit'', JNum 5)] = (Inr env2, c1, []))
      \<and> env_articles env2 = Some (drop 5 as) \<and> length (drop 5 as) = 3
      \<and> \<not> hasNextPage (env_pagination env2)
      \<and> env_totalResults env2 = Finite 8
      \<and> env_provider env1 = lit ''gnews'' \<and> env_provider env2 = lit ''gnews''"
proof -
  let ?c1 = "c\<lparr>articleCache := (articleCache c)(cacheKey (lit ''climate'') (lit ''gnews'') [] \<mapsto>
            \<lparr>articles = as, totalArticles = num_or (res_totalResults result) (Finite 0),
             lastFetchSize = Finite 10, hasMore = False\<rparr>)\<rparr>"
  have g1: "getProvider ?c1 JUndefined = Inr p"
    using assms(3) by (simp only: getProvider_articleCache_update)
  have c1: "articleCache ?c1 (cacheKey (lit ''climate'') (lit ''gnews'') [])
         = Some \<lparr>articles = as, totalArticles = num_or (res_totalResults result) (Finite 0),
                 lastFetchSize = Finite 10, hasMore = False\<rparr>"
    by simp
  note a = gnews_scenario_page1[where upstream=upstream, OF assms]
  note b = gnews_scenario_page2[OF assms(1) g1 assms(4) c1]
  show ?thesis
    apply (intro exI conjI allI)
              apply (rule a)
             apply (simp_all add: createPaginatedResponse_fields assms(1))
    apply (rule b)
       apply (simp_all add: createPaginatedResponse_fields)
    done
qed

subsection \<open>The pagination block\<close>

lemma page_response_shape:
  "\<exists>arts total_n hasNext.
     page_response p e pageNum limitNum
     = createPaginatedResponse arts total_n pageNum limitNum hasNext (prov_name p)"
  unfolding page_response_def Let_def by (auto split: if_splits)

text \<open>The relations of claim C3; \<open>exact\<close> are their readings in exact arithmetic.\<close>

lemma exact_pages:
  assumes "valid_count limit_v"
    and "total_n = Finite t" and "limit_v = Finite l" and "0 < t" and "t < 2 ^ 53" and "l < 2 ^ 53"
  shows "js_ceil_div total_n limit_v = Finite \<lceil>real_of_int t / real_of_int l\<rceil>"
proof -
  have "1 \<le> l" using assms(1,3) by (simp add: valid_count_cases)
  then show ?thesis unfolding assms(2,3) using assms(4-6) by (intro js_ceil_div_exact) simp_all
qed

lemma exact_next:
  assumes "valid_count page" and "page = Finite n" and "n < 2 ^ 53"
  shows "js_add page (Finite 1) = Finite (n + 1)" and "js_less (Finite 1) page = (1 < n)"
proof -
  have "1 \<le> n" using assms(1,2) by (simp add: valid_count_cases)
  then show "js_add page (Finite 1) = Finite (n + 1)"
    unfolding assms(2) using assms(3) by (intro next_page_exact) simp_all
  show "js_less (Finite 1) page = (1 < n)" by (simp add: assms(2))
qed

lemma createPaginatedResponse_consistent:
  assumes "env = createPaginatedResponse arts total_n pageNum limitNum hasNext prov"
  shows "(js_less (Finite 0) (totalResults (env_pagination env)) \<longrightarrow>
            totalPages (env_pagination env)
            = js_ceil_div (totalResults (env_pagination env)) (limit (env_pagination env)))
    \<and> (js_less (Finite 0) (env_totalResults env) \<longrightarrow>
            totalPages (env_pagination env)
            = js_ceil_div (env_totalResults env) (limit (env_pagination env)))
    \<and> hasPreviousPage (env_pagination env) = js_less (Finite 1) (currentPage (env_pagination env))
    \<and> nextPage (env_pagination env)
        = (if hasNextPage (env_pagination env)
           then Some (js_add (currentPage (env_pagination env)) (Finite 1)) else None)
    \<and> currentPage (env_pagination env) = pageNum \<and> limit (env_pagination env) = limitNum"
  unfolding assms by (simp add: createPaginatedResponse_def Let_def)

lemma first_truthy_positive:
  "js_less (Finite 0) a \<Longrightarrow> first_truthy (Some a) b = a"
  by (cases a) (auto simp: first_truthy_def num_or_def num_truthy_def Let_def)

lemma addPaginationMetadata_consistent:
  assumes "env = addPaginationMetadata result pageNum limitNum"
  shows "(js_less (Finite 0) (totalResults (env_pagination env)) \<longrightarrow>
            totalPages (env_pagination env)
            = js_ceil_div (totalResults (env_pagination env)) (limit (env_pagination env)))
    \<and> (js_less (Finite 0) (env_totalResults env) \<longrightarrow>
            totalPages (env_pagination env)
            = js_ceil_div (env_totalResults env) (limit (env_pagination env)))
    \<and> hasPreviousPage (env_pagination env) = js_less (Finite 1) (currentPage (env_pagination env))
    \<and> nextPage (env_pagination env)
        = (if hasNextPage (env_pagination env)
           then Some (js_add (currentPage (env_pagination env)) (Finite 1)) else None)
    \<and> currentPage (env_pagination env) = pageNum \<and> limit (env_pagination env) = limitNum"
  unfolding assms
  by (simp add: addPaginationMetadata_def Let_def first_truthy_positive)

lemma getTopHeadlines_cases:
  assumes "getTopHeadlines c upstream options = Inr env"
  obtains result pageNum limitNum where
    "env = addPaginationMetadata result pageNum limitNum" "valid_count pageNum"
    "valid_count limitNum"
  using assms unfolding getTopHeadlines_def Let_def valid_count_def
  by (auto split: if_splits sum.splits simp del: get_prop.simps)

lemma consistent_exact:
  assumes "(js_less (Finite 0) (totalResults (env_pagination env)) \<longrightarrow>
            totalPages (env_pagination env)
            = js_ceil_div (totalResults (env_pagination env)) (limit (env_pagination env)))
    \<and> (js_less (Finite 0) (env_totalResults env) \<longrightarrow>
            totalPages (env_pagination env)
            = js_ceil_div (env_totalResults env) (limit (env_pagination env)))
    \<and> hasPreviousPage (env_pagination env) = js_less (Finite 1) (currentPage (env_pagination env))
    \<and> nextPage (env_pagination env)
        = (if hasNextPage (env_pagination env)
           then Some (js_add (currentPage (env_pagination env)) (Finite 1)) else None)
    \<and> currentPage (env_pagination env) = pageNum \<and> limit (env_pagination env) = limitNum"
    and "valid_count pageNum" and "valid_count limitNum"
  shows "(\<forall>t l. totalResults (env_pagination env) = Finite t
            \<and> limit (env_pagination env) = Finite l \<and> 0 < t \<and> t < 2 ^ 53 \<and> l < 2 ^ 53
          \<longrightarrow> totalPages (env_pagination env) = Finite \<lceil>real_of_int t / real_of_int l\<rceil>)
    \<and> (\<forall>n. currentPage (env_pagination env) = Finite n \<and> n < 2 ^ 53
          \<longrightarrow> hasPreviousPage (env_pagination env) = (1 < n)
              \<and> nextPage (env_pagination env)
                = (if hasNextPage (env_pagination env) then Some (Finite (n + 1)) else None))"
proof (intro conjI allI impI)
  fix t l
  assume a: "totalResults (env_pagination env) = Finite t
            \<and> limit (env_pagination env) = Finite l \<and> 0 < t \<and> t < 2 ^ 53 \<and> l < 2 ^ 53"
  have v: "valid_count (limit (env_pagination env))" using assms(1,3) by simp
  have "js_less (Finite 0) (totalResults (env_pagination env))" using a by simp
  then have "totalPages (env_pagination env)
      = js_ceil_div (totalResults (env_pagination env)) (limit (env_pagination env))"
    using assms(1) by blast
  also have "\<dots> = Finite \<lceil>real_of_int t / real_of_int l\<rceil>"
    using v a by (intro exact_pages) simp_all
  finally show "totalPages (env_pagination env) = Finite \<lceil>real_of_int t / real_of_int l\<rceil>" .
next
  fix n
  assume a: "currentPage (env_pagination env) = Finite n \<and> n < 2 ^ 53"
  have v: "valid_count (currentPage (env_pagination env))" using assms(1,2) by simp
  note e = exact_next[OF v, of n]
  show "hasPreviousPage (env_pagination env) = (1 < n)"
    using assms(1) e(2) a by simp
  show "nextPage (env_pagination env)
        = (if hasNextPage (env_pagination env) then Some (Finite (n + 1)) else None)"
    using assms(1) e(1) a by simp
qed

text \<open>
  Claim C3. In every envelope that \<open>searchNews\<close> or \<open>getTopHeadlines\<close> returns,
  \<open>totalPages\<close> is \<open>Math.ceil(totalResults / limit)\<close> when \<open>totalResults\<close> is positive
  (for the total of the pagination block and for the total at the top of the envelope),
  \<open>hasPreviousPage\<close> is \<open>currentPage > 1\<close>, and \<open>nextPage\<close> is \<open>currentPage + 1\<close> when
  \<open>hasNextPage\<close> and \<open>null\<close> otherwise, in the arithmetic of JavaScript Numbers. For a
  total, a limit and a page below \<open>2^53\<close> this is exact: \<open>totalPages\<close> is the ceiling of
  the quotient, \<open>hasPreviousPage\<close> is \<open>1 < currentPage\<close> and \<open>nextPage\<close> the successor.
  The page and the limit of the envelope are at least 1.
\<close>

theorem pagination_metadata_consistent:
  assumes "fst (searchNews c upstream query options) = Inr env
           \<or> getTopHeadlines c upstream' options' = Inr env"
  shows "(js_less (Finite 0) (totalResults (env_pagination env)) \<longrightarrow>
            totalPages (env_pagination env)
            = js_ceil_div (totalResults (env_pagination env)) (limit (env_pagination env)))
    \<and> (js_less (Finite 0) (env_totalResults env) \<longrightarrow>
            totalPages (env_pagination env)
            = js_ceil_div (env_totalResults env) (limit (env_pagination env)))
    \<and> hasPreviousPage (env_pagination env) = js_less (Finite 1) (currentPage (env_pagination env))
    \<and> nextPage (env_pagination env)
        = (if hasNextPage (env_pagination env)
           then Some (js_add (currentPage (env_pagination env)) (Finite 1)) else None)
    \<and> (\<forall>t l. totalResults (env_pagination env) = Finite t
            \<and> limit (env_pagination env) = Finite l \<and> 0 < t \<and> t < 2 ^ 53 \<and> l < 2 ^ 53
          \<longrightarrow> totalPages (env_pagination env) = Finite \<lceil>real_of_int t / real_of_int l\<rceil>)
    \<and> (\<forall>n. currentPage (env_pagination env) = Finite n \<and> n < 2 ^ 53
          \<longrightarrow> hasPreviousPage (env_pagination env) = (1 < n)
              \<and> nextPage (env_pagination env)
                = (if hasNextPage (env_pagination env) then Some (Finite (n + 1)) else None))
    \<and> valid_count (currentPage (env_pagination env)) \<and> valid_count (limit (env_pagination env))"
  using assms
proof
  assume a: "fst (searchNews c upstream query options) = Inr env"
  show ?thesis
  proof (cases rule: searchNews_cases[where c=c and upstream=upstream and query=query and options=options])
    case (rejected e)
    then show ?thesis using a by simp
  next
    case (searched q p pageNum limitNum)
    obtain c' calls where s: "search_with c upstream p (trim q)
        (obj_rest [''provider'', ''page'', ''limit''] options) pageNum limitNum = (Inr env, c', calls)"
      using a searched(8) by (metis fst_conv prod_cases3)
    obtain e where "env = page_response p e pageNum limitNum"
      using search_with_response[OF s] by blast
    then obtain arts total_n hasNext where
      "env = createPaginatedResponse arts total_n pageNum limitNum hasNext (prov_name p)"
      using page_response_shape by metis
    note r = createPaginatedResponse_consistent[OF this]
    note x = consistent_exact[OF r searched(4) searched(6)]
    show ?thesis using r x searched(4) searched(6) by simp
  qed
next
  assume "getTopHeadlines c upstream' options' = Inr env"
  then obtain result pageNum limitNum where
    e: "env = addPaginationMetadata result pageNum limitNum"
    and v: "valid_count pageNum" "valid_count limitNum"
    by (rule getTopHeadlines_cases)
  note r = addPaginationMetadata_consistent[OF e]
  note x = consistent_exact[OF r v]
  show ?thesis using r x v by simp
qed

subsection \<open>The gnews envelope\<close>

lemma slice_exact:
  assumes "0 \<le> s" and "0 \<le> l"
  shows "slice xs (Finite s) (Finite (s + l)) = take (nat l) (drop (nat s) xs)"
proof (cases "s \<le> int (length xs)")
  case True
  show ?thesis
  proof (cases "s + l \<le> int (length xs)")
    case le: True
    then show ?thesis using assms True by (simp add: slice_def slice_index_def Let_def)
  next
    case False
    then have "nat l \<ge> length xs - nat s" using assms by linarith
    then have "take (nat l) (drop (nat s) xs) = drop (nat s) xs" by simp
    moreover have "nat (int (length xs) - s) = length xs - nat s" using assms(1) by linarith
    ultimately show ?thesis using assms True False
      by (simp add: slice_def slice_index_def Let_def)
  qed
next
  case False
  then have "drop (nat s) xs = []" using assms(1) by simp
  moreover have "int (length xs) \<le> s + l" using False assms(2) by linarith
  ultimately show ?thesis using assms False
    by (simp add: slice_def slice_index_def Let_def)
qed

lemma gnews_response:
  assumes "searchNews c upstream query options = (Inr env, c', calls)"
    and "env_provider env = lit ''gnews''"
  shows "\<exists>q e. query = JStr q
      \<and> articleCache c' (cacheKey (trim q) (lit ''gnews'')
                           (obj_rest [''provider'', ''page'', ''limit''] options)) = Some e
      \<and> hasNextPage (env_pagination env)
          = js_less (js_add (js_mul (js_sub (currentPage (env_pagination env)) (Finite 1))
                               (limit (env_pagination env)))
                       (limit (env_pagination env)))
              (Finite (int (length (articles e))))
      \<and> totalResults (env_pagination env) = Finite (int (length (articles e)))
      \<and> env_totalResults env = Finite (int (length (articles e)))
      \<and> env_articles env
          = Some (slice (articles e)
                    (js_mul (js_sub (currentPage (env_pagination env)) (Finite 1))
                       (limit (env_pagination env)))
                    (js_add (js_mul (js_sub (currentPage (env_pagination env)) (Finite 1))
                               (limit (env_pagination env)))
                       (limit (env_pagination env))))
      \<and> (\<forall>n l. currentPage (env_pagination env) = Finite n
             \<and> limit (env_pagination env) = Finite l \<and> n * l \<le> 2 ^ 53
           \<longrightarrow> hasNextPage (env_pagination env) = ((n - 1) * l + l < int (length (articles e)))
               \<and> env_articles env = Some (take (nat l) (drop (nat ((n - 1) * l)) (articles e))))"
proof (cases rule: searchNews_cases[where c=c and upstream=upstream and query=query and options=options])
  case (rejected e)
  then show ?thesis using assms by simp
next
  case (searched q p pageNum limitNum)
  let ?so = "obj_rest [''provider'', ''page'', ''limit''] options"
  have s: "search_with c upstream p (trim q) ?so pageNum limitNum = (Inr env, c', calls)"
    using assms(1) searched(8) by simp
  obtain e where e: "articleCache c' (cacheKey (trim q) (prov_name p) ?so) = Some e"
    "env = page_response p e pageNum limitNum"
    using search_with_response[OF s] by blast
  have "env_provider env = prov_name p"
    using e(2) page_response_shape[of p e pageNum limitNum]
    by (auto simp: createPaginatedResponse_fields)
  then have g: "prov_name p = lit ''gnews''" using assms(2) by simp
  note f = createPaginatedResponse_fields
  have cp: "currentPage (env_pagination env) = pageNum" "limit (env_pagination env) = limitNum"
    by (simp_all add: e(2) page_response_gnews[OF g] f)
  have general: "hasNextPage (env_pagination env)
          = js_less (js_add (js_mul (js_sub pageNum (Finite 1)) limitNum) limitNum)
              (Finite (int (length (articles e))))"
      "totalResults (env_pagination env) = Finite (int (length (articles e)))"
      "env_totalResults env = Finite (int (length (articles e)))"
      "env_articles env
          = Some (slice (articles e) (js_mul (js_sub pageNum (Finite 1)) limitNum)
                    (js_add (js_mul (js_sub pageNum (Finite 1)) limitNum) limitNum))"
    by (simp_all add: e(2) page_response_gnews[OF g] f)
  have exact: "hasNextPage (env_pagination env) = ((n - 1) * l + l < int (length (articles e)))
               \<and> env_articles env = Some (take (nat l) (drop (nat ((n - 1) * l)) (articles e)))"
    if a: "pageNum = Finite n \<and> limitNum = Finite l \<and> n * l \<le> 2 ^ 53" for n l
  proof -
    have n1: "1 \<le> n" using searched(4) a by (simp add: valid_count_cases)
    have l1: "1 \<le> l" using searched(6) a by (simp add: valid_count_cases)
    have nl: "n * l \<le> 2 ^ 53" using a by simp
    note i = page_indices_exact[OF n1 l1 nl]
    have pn: "pageNum = Finite n" and ln: "limitNum = Finite l" using a by simp_all
    have h: "hasNextPage (env_pagination env) = ((n - 1) * l + l < int (length (articles e)))"
      unfolding general(1) pn ln i(2) by simp
    have "0 \<le> (n - 1) * l" using n1 l1 by simp
    then have "slice (articles e) (Finite ((n - 1) * l)) (Finite ((n - 1) * l + l))
        = take (nat l) (drop (nat ((n - 1) * l)) (articles e))"
      using l1 by (intro slice_exact) simp_all
    moreover have "js_add (Finite ((n - 1) * l)) (Finite l) = Finite ((n - 1) * l + l)"
      using i(2) unfolding i(1) .
    ultimately have "env_articles env = Some (take (nat l) (drop (nat ((n - 1) * l)) (articles e)))"
      unfolding general(4) pn ln i(1) by (simp only:)
    then show ?thesis using h by simp
  qed
  show ?thesis
    apply (rule exI[of _ q], rule exI[of _ e])
    using searched(1) e(1) g general exact by (simp add: cp)
qed

lemma client_gnews_scenario_facts:
  "length eight_articles = 8"
  "res_articles gnews_result = Some eight_articles"
  "prov_name \<lparr>prov_name = lit ''gnews'', prov_apiKey = JStr (lit ''key'')\<rparr> = lit ''gnews''"
  "upstream_eight \<lparr>prov_name = lit ''gnews'', prov_apiKey = JStr (lit ''key'')\<rparr> (lit ''climate'')
     [] (Finite 10) = Inr gnews_result"
  by (simp_all add: eight_articles_def gnews_result_def upstream_eight_def)

text \<open>
  Claim C2. When \<open>searchNews\<close> answers from the gnews provider, \<open>hasNextPage\<close> says whether
  the end index \<open>(page - 1) * limit + limit\<close> of the page is below the number of cached
  articles, the total reported is the number of cached articles, and the articles
  returned are that slice of the cache; the end index is computed in the arithmetic of
  JavaScript Numbers, which is exact when \<open>page * limit\<close> is at most \<open>2^53\<close>. In the
  scenario, with limit 5 and a single fetch that returned 8 articles (whatever total the
  provider reported), page 1 has the first 5 articles, \<open>hasNextPage\<close> true and total 8;
  page 2 has the 3 remaining articles and \<open>hasNextPage\<close> false, and makes no provider
  call, whatever the provider would answer.
\<close>

theorem gnews_hasNextPage_totalResults:
  "(searchNews c upstream query options = (Inr env, c', calls) \<and> env_provider env = lit ''gnews''
    \<longrightarrow> (\<exists>q e. query = JStr q
      \<and> articleCache c' (cacheKey (trim q) (lit ''gnews'')
                           (obj_rest [''provider'', ''page'', ''limit''] options)) = Some e
      \<and> hasNextPage (env_pagination env)
          = js_less (js_add (js_mul (js_sub (currentPage (env_pagination env)) (Finite 1))
                               (limit (env_pagination env)))
                       (limit (env_pagination env)))
              (Finite (int (length (articles e))))
      \<and> totalResults (env_pagination env) = Finite (int (length (articles e)))
      \<and> env_totalResults env = Finite (int (length (articles e)))
      \<and> env_articles env
          = Some (slice (articles e)
                    (js_mul (js_sub (currentPage (env_pagination env)) (Finite 1))
                       (limit (env_pagination env)))
                    (js_add (js_mul (js_sub (currentPage (env_pagination env)) (Finite 1))
                               (limit (env_pagination env)))
                       (limit (env_pagination env))))
      \<and> (\<forall>n l. currentPage (env_pagination env) = Finite n
             \<and> limit (env_pagination env) = Finite l \<and> n * l \<le> 2 ^ 53
           \<longrightarrow> hasNextPage (env_pagination env) = ((n - 1) * l + l < int (length (articles e)))
               \<and> env_articles env
                 = Some (take (nat l) (drop (nat ((n - 1) * l)) (articles e))))))
   \<and> (length as = 8 \<and> res_articles result = Some as
      \<and> getProvider c0 JUndefined = Inr p \<and> prov_name p = lit ''gnews''
      \<and> articleCache c0 (cacheKey (lit ''climate'') (lit ''gnews'') []) = None
      \<and> upstream0 p (lit ''climate'') [] (Finite 10) = Inr result
    \<longrightarrow> (\<exists>env1 c1 call env2.
      searchNews c0 upstream0 (JStr (lit ''climate'')) [(lit ''limit'', JNum 5)]
        = (Inr env1, c1, [call])
      \<and> env_articles env1 = Some (take 5 as)
      \<and> hasNextPage (env_pagination env1)
      \<and> env_totalResults env1 = Finite 8 \<and> totalResults (env_pagination env1) = Finite 8
      \<and> (\<forall>upstream'. searchNews c1 upstream' (JStr (lit ''climate''))
             [(lit ''page'', JNum 2), (lit ''limit'', JNum 5)] = (Inr env2, c1, []))
      \<and> env_articles env2 = Some (drop 5 as) \<and> length (drop 5 as) = 3
      \<and> \<not> hasNextPage (env_pagination env2)
      \<and> env_totalResults env2 = Finite 8
      \<and> env_provider env1 = lit ''gnews'' \<and> env_provider env2 = lit ''gnews''))"
proof (intro conjI impI)
  assume "searchNews c upstream query options = (Inr env, c', calls)
          \<and> env_provider env = lit ''gnews''"
  then show "\<exists>q e. query = JStr q
      \<and> articleCache c' (cacheKey (trim q) (lit ''gnews'')
                           (obj_rest [''provider'', ''page'', ''limit''] options)) = Some e
      \<and> hasNextPage (env_pagination env)
          = js_less (js_add (js_mul (js_sub (currentPage (env_pagination env)) (Finite 1))
                               (limit (env_pagination env)))
                       (limit (env_pagination env)))
              (Finite (int (length (articles e))))
      \<and> totalResults (env_pagination env) = Finite (int (length (articles e)))
      \<and> env_totalResults env = Finite (int (length (articles e)))
      \<and> env_articles env
          = Some (slice (articles e)
                    (js_mul (js_sub (currentPage (env_pagination env)) (Finite 1))
                       (limit (env_pagination env)))
                    (js_add (js_mul (js_sub (currentPage (env_pagination env)) (Finite 1))
                               (limit (env_pagination env)))
                       (limit (env_pagination env))))
      \<and> (\<forall>n l. currentPage (env_pagination env) = Finite n
             \<and> limit (env_pagination env) = Finite l \<and> n * l \<le> 2 ^ 53
           \<longrightarrow> hasNextPage (env_pagination env) = ((n - 1) * l + l < int (length (articles e)))
               \<and> env_articles env
                 = Some (take (nat l) (drop (nat ((n - 1) * l)) (articles e))))"
    using gnews_response by blast
next
  assume a: "length as = 8 \<and> res_articles result = Some as
      \<and> getProvider c0 JUndefined = Inr p \<and> prov_name p = lit ''gnews''
      \<and> articleCache c0 (cacheKey (lit ''climate'') (lit ''gnews'') []) = None
      \<and> upstream0 p (lit ''climate'') [] (Finite 10) = Inr result"
  show "\<exists>env1 c1 call env2.
      searchNews c0 upstream0 (JStr (lit ''climate'')) [(lit ''limit'', JNum 5)]
        = (Inr env1, c1, [call])
      \<and> env_articles env1 = Some (take 5 as)
      \<and> hasNextPage (env_pagination env1)
      \<and> env_totalResults env1 = Finite 8 \<and> totalResults (env_pagination env1) = Finite 8
      \<and> (\<forall>upstream'. searchNews c1 upstream' (JStr (lit ''climate''))
             [(lit ''page'', JNum 2), (lit ''limit'', JNum 5)] = (Inr env2, c1, []))
      \<and> env_articles env2 = Some (drop 5 as) \<and> length (drop 5 as) = 3
      \<and> \<not> hasNextPage (env_pagination env2)
      \<and> env_totalResults env2 = Finite 8
      \<and> env_provider env1 = lit ''gnews'' \<and> env_provider env2 = lit ''gnews''"
    using a gnews_scenario[of as result c0 p upstream0] by blast
qed

theorem gnews_hasNextPage_totalResults_witness:
  "length eight_articles = 8 \<and> res_articles gnews_result = Some eight_articles
   \<and> getProvider client_gnews JUndefined
       = Inr \<lparr>prov_name = lit ''gnews'', prov_apiKey = JStr (lit ''key'')\<rparr>
   \<and> articleCache client_gnews (cacheKey (lit ''climate'') (lit ''gnews'') []) = None
   \<and> (\<exists>env1 c1 call env2.
      searchNews client_gnews upstream_eight (JStr (lit ''climate'')) [(lit ''limit'', JNum 5)]
        = (Inr env1, c1, [call])
      \<and> env_articles env1 = Some (take 5 eight_articles)
      \<and> hasNextPage (env_pagination env1)
      \<and> env_totalResults env1 = Finite 8 \<and> totalResults (env_pagination env1) = Finite 8
      \<and> searchNews c1 upstream_down (JStr (lit ''climate''))
             [(lit ''page'', JNum 2), (lit ''limit'', JNum 5)] = (Inr env2, c1, [])
      \<and> env_articles env2 = Some (drop 5 eight_articles) \<and> length (drop 5 eight_articles) = 3
      \<and> \<not> hasNextPage (env_pagination env2)
      \<and> env_totalResults env2 = Finite 8
      \<and> env_provider env2 = lit ''gnews''
      \<and> (\<exists>q e. JStr (lit ''climate'') = JStr q
           \<and> articleCache c1 (cacheKey (trim q) (lit ''gnews'')
                (obj_rest [''provider'', ''page'', ''limit'']
                   [(lit ''page'', JNum 2), (lit ''limit'', JNum 5)])) = Some e
           \<and> totalResults (env_pagination env2) = Finite (int (length (articles e)))))"
proof -
  note f = client_gnews_scenario_facts
  note g = getProvider_client_gnews
  note n = articleCache_client_gnews[of "cacheKey (lit ''climate'') (lit ''gnews'') []"]
  note t = gnews_hasNextPage_totalResults
  have "\<exists>env1 c1 call env2.
      searchNews client_gnews upstream_eight (JStr (lit ''climate'')) [(lit ''limit'', JNum 5)]
        = (Inr env1, c1, [call])
      \<and> env_articles env1 = Some (take 5 eight_articles)
      \<and> hasNextPage (env_pagination env1)
      \<and> env_totalResults env1 = Finite 8 \<and> totalResults (env_pagination env1) = Finite 8
      \<and> (\<forall>upstream'. searchNews c1 upstream' (JStr (lit ''climate''))
             [(lit ''page'', JNum 2), (lit ''limit'', JNum 5)] = (Inr env2, c1, []))
      \<and> env_articles env2 = Some (drop 5 eight_articles) \<and> length (drop 5 eight_articles) = 3
      \<and> \<not> hasNextPage (env_pagination env2)
      \<and> env_totalResults env2 = Finite 8
      \<and> env_provider env1 = lit ''gnews'' \<and> env_provider env2 = lit ''gnews''"
    using t[THEN conjunct2, rule_format, of eight_articles gnews_result client_gnews
        "\<lparr>prov_name = lit ''gnews'', prov_apiKey = JStr (lit ''key'')\<rparr>" upstream_eight]
      f g n by blast
  then obtain env1 c1 call env2 where s:
      "searchNews client_gnews upstream_eight (JStr (lit ''climate'')) [(lit ''limit'', JNum 5)]
        = (Inr env1, c1, [call])"
      "env_articles env1 = Some (take 5 eight_articles)"
      "hasNextPage (env_pagination env1)"
      "env_totalResults env1 = Finite 8" "totalResults (env_pagination env1) = Finite 8"
      "\<forall>upstream'. searchNews c1 upstream' (JStr (lit ''climate''))
             [(lit ''page'', JNum 2), (lit ''limit'', JNum 5)] = (Inr env2, c1, [])"
      "env_articles env2 = Some (drop 5 eight_articles)" "length (drop 5 eight_articles) = 3"
      "\<not> hasNextPage (env_pagination env2)"
      "env_totalResults env2 = Finite 8"
      "env_provider env2 = lit ''gnews''"
    by blast
  have s2: "searchNews c1 upstream_down (JStr (lit ''climate''))
             [(lit ''page'', JNum 2), (lit ''limit'', JNum 5)] = (Inr env2, c1, [])"
    using s(6) by blast
  have "\<exists>q e. JStr (lit ''climate'') = JStr q
           \<and> articleCache c1 (cacheKey (trim q) (lit ''gnews'')
                (obj_rest [''provider'', ''page'', ''limit'']
                   [(lit ''page'', JNum 2), (lit ''limit'', JNum 5)])) = Some e
           \<and> totalResults (env_pagination env2) = Finite (int (length (articles e)))"
    using t[THEN conjunct1, rule_format, of c1 upstream_down "JStr (lit ''climate'')"
        "[(lit ''page'', JNum 2), (lit ''limit'', JNum 5)]" env2 c1 "[]"] s2 s(11)
    by blast
  then show ?thesis using f(1,2) g n s(1-5) s2 s(7-11) by blast
qed

lemma page1_eval:
  "searchNews client_gnews upstream_eight (JStr (lit ''climate'')) [(lit ''limit'', JNum 5)]
   = (Inr (createPaginatedResponse (take 5 eight_articles) (Finite 8) (Finite 1) (Finite 5) True
             (lit ''gnews'')),
      client_page1, [call_climate])"
  using gnews_scenario_page1[where upstream=upstream_eight and c=client_gnews,
      OF client_gnews_scenario_facts(1) client_gnews_scenario_facts(2) getProvider_client_gnews
         client_gnews_scenario_facts(3) articleCache_client_gnews client_gnews_scenario_facts(4)]
  by (simp add: client_page1_def call_climate_def climate_key_def gnews_result_def num_or_def
      num_truthy_def)

theorem populated_never_refetched_witness:
  "searchNews client_gnews upstream_eight (JStr (lit ''climate'')) [(lit ''limit'', JNum 5)]
   = (Inr (createPaginatedResponse (take 5 eight_articles) (Finite 8) (Finite 1) (Finite 5) True
             (lit ''gnews'')),
      client_page1, [call_climate])
   \<and> call_climate \<in> set [call_climate]
   \<and> filter is_ClearCache later_operations = []
   \<and> filter (\<lambda>y. call_key y = call_key call_climate)
         (snd (run client_page1 later_operations)) = []
   \<and> (\<exists>e. articleCache client_page1 (call_key call_climate) = Some e
          \<and> articleCache (fst (run client_page1 later_operations)) (call_key call_climate) = Some e)"
proof -
  have m: "call_climate \<in> set [call_climate]" by simp
  have o: "\<forall>op \<in> set later_operations. \<not> is_ClearCache op"
    by (simp add: later_operations_def)
  have o': "filter is_ClearCache later_operations = []"
    by (simp add: later_operations_def)
  note r = populated_never_refetched[OF page1_eval m o]
  have "filter (\<lambda>y. call_key y = call_key call_climate)
         (snd (run client_page1 later_operations)) = []"
    using r by (simp add: filter_empty_conv)
  then show ?thesis using page1_eval m o' r by blast
qed

lemma first_page_fields:
  "totalResults (env_pagination
        (createPaginatedResponse (take 5 eight_articles) (Finite 8) (Finite 1) (Finite 5) True
           (lit ''gnews''))) = Finite 8"
  "limit (env_pagination
        (createPaginatedResponse (take 5 eight_articles) (Finite 8) (Finite 1) (Finite 5) True
           (lit ''gnews''))) = Finite 5"
  "hasNextPage (env_pagination
        (createPaginatedResponse (take 5 eight_articles) (Finite 8) (Finite 1) (Finite 5) True
           (lit ''gnews'')))"
  "currentPage (env_pagination
        (createPaginatedResponse (take 5 eight_articles) (Finite 8) (Finite 1) (Finite 5) True
           (lit ''gnews''))) = Finite 1"
  by (simp_all add: createPaginatedResponse_fields)

lemma headlines_eval:
  "getTopHeadlines client_gnews headlines_eight []
   = Inr (addPaginationMetadata gnews_result (Finite 1) (Finite 10))"
  by (simp add: getTopHeadlines_def with_default_def parseInt_default getProvider_client_gnews
      headlines_eight_def obj_rest_def isNaN_def Let_def)

lemma headlines_fields:
  "totalResults (env_pagination (addPaginationMetadata gnews_result (Finite 1) (Finite 10)))
   = Finite 1000"
  "limit (env_pagination (addPaginationMetadata gnews_result (Finite 1) (Finite 10))) = Finite 10"
  "currentPage (env_pagination (addPaginationMetadata gnews_result (Finite 1) (Finite 10)))
   = Finite 1"
  by (simp_all add: addPaginationMetadata_def gnews_result_def first_truthy_def num_or_def
      num_truthy_def Let_def)

theorem pagination_metadata_consistent_witness:
  "fst (searchNews client_gnews upstream_eight (JStr (lit ''climate'')) [(lit ''limit'', JNum 5)])
     = Inr (createPaginatedResponse (take 5 eight_articles) (Finite 8) (Finite 1) (Finite 5) True
              (lit ''gnews''))
   \<and> totalPages (env_pagination
        (createPaginatedResponse (take 5 eight_articles) (Finite 8) (Finite 1) (Finite 5) True
           (lit ''gnews''))) = Finite 2
   \<and> nextPage (env_pagination
        (createPaginatedResponse (take 5 eight_articles) (Finite 8) (Finite 1) (Finite 5) True
           (lit ''gnews''))) = Some (Finite 2)
   \<and> \<not> hasPreviousPage (env_pagination
        (createPaginatedResponse (take 5 eight_articles) (Finite 8) (Finite 1) (Finite 5) True
           (lit ''gnews'')))
   \<and> getTopHeadlines client_gnews headlines_eight []
       = Inr (addPaginationMetadata gnews_result (Finite 1) (Finite 10))
   \<and> totalPages (env_pagination (addPaginationMetadata gnews_result (Finite 1) (Finite 10)))
       = Finite 100"
proof -
  let ?env = "createPaginatedResponse (take 5 eight_articles) (Finite 8) (Finite 1) (Finite 5) True
           (lit ''gnews'')"
  let ?top = "addPaginationMetadata gnews_result (Finite 1) (Finite 10)"
  have a: "fst (searchNews client_gnews upstream_eight (JStr (lit ''climate''))
                  [(lit ''limit'', JNum 5)]) = Inr ?env"
    by (simp add: page1_eval)
  note b = headlines_eval
  note f = first_page_fields
  note g = headlines_fields
  note r1 = pagination_metadata_consistent[OF disjI1[OF a]]
  note r2 = pagination_metadata_consistent[OF disjI2[OF b]]
  have c1: "\<lceil>real_of_int 8 / real_of_int 5\<rceil> = 2"
    using ceiling_divide_eq_div[of 8 5] by simp
  have c2: "\<lceil>real_of_int 1000 / real_of_int 10\<rceil> = 100"
    using ceiling_divide_eq_div[of 1000 10] by simp
  have "totalPages (env_pagination ?env) = Finite \<lceil>real_of_int 8 / real_of_int 5\<rceil>"
    using r1[THEN conjunct2, THEN conjunct2, THEN conjunct2, THEN conjunct2, THEN conjunct1,
        rule_format, of 8 5] f(1) f(2) by simp
  then have p1: "totalPages (env_pagination ?env) = Finite 2" unfolding c1 .
  have "totalPages (env_pagination ?top) = Finite \<lceil>real_of_int 1000 / real_of_int 10\<rceil>"
    using r2[THEN conjunct2, THEN conjunct2, THEN conjunct2, THEN conjunct2, THEN conjunct1,
        rule_format, of 1000 10] g(1) g(2) by simp
  then have p2: "totalPages (env_pagination ?top) = Finite 100" unfolding c2 .
  note e = r1[THEN conjunct2, THEN conjunct2, THEN conjunct2, THEN conjunct2, THEN conjunct2,
        THEN conjunct1, rule_format, of 1]
  have n1: "nextPage (env_pagination ?env) = Some (Finite 2)"
    and h1: "\<not> hasPreviousPage (env_pagination ?env)"
    using e f(3) f(4) by simp_all
  show ?thesis using a b p1 p2 n1 h1 by (intro conjI)
qed

subsection \<open>The validation of page and limit\<close>

lemma options_page_15:
  "get_prop (JObj [(lit ''page'', JStr (lit ''1.5''))]) ''page'' = JStr (lit ''1.5'')"
  "get_prop (JObj [(lit ''page'', JStr (lit ''1.5''))]) ''limit'' = JUndefined"
  "get_prop (JObj [(lit ''page'', JStr (lit ''1.5''))]) ''provider'' = JUndefined"
  "obj_rest [''provider'', ''page'', ''limit''] [(lit ''page'', JStr (lit ''1.5''))] = []"
  by (simp_all add: lit_def obj_rest_def)

lemma page_15_response:
  "page_response \<lparr>prov_name = lit ''gnews'', prov_apiKey = JStr (lit ''key'')\<rparr>
     \<lparr>articles = eight_articles, totalArticles = Finite 1000, lastFetchSize = Finite 10,
      hasMore = False\<rparr> (Finite 1) (Finite 10)
   = createPaginatedResponse eight_articles (Finite 8) (Finite 1) (Finite 10) False (lit ''gnews'')"
  by (simp add: page_response_gnews index_examples rnd_def slice_def slice_index_def
      eight_articles_def)

text \<open>
  Claim C9, as stated, fails: the page \<open>'1.5'\<close> is not an integer, yet \<open>parseInt\<close> reads
  1 from it and \<open>searchNews\<close> serves page 1.
\<close>

theorem noninteger_page_accepted:
  "parseInt (JStr (lit ''1.5'')) = Inr (Finite 1)
   \<and> searchNews client_gnews upstream_eight (JStr (lit ''climate''))
       [(lit ''page'', JStr (lit ''1.5''))]
     = (Inr (createPaginatedResponse eight_articles (Finite 8) (Finite 1) (Finite 10) False
               (lit ''gnews'')),
        client_page1, [call_climate])
   \<and> currentPage (env_pagination
        (createPaginatedResponse eight_articles (Finite 8) (Finite 1) (Finite 10) False
           (lit ''gnews''))) = Finite 1"
proof -
  let ?p = "\<lparr>prov_name = lit ''gnews'', prov_apiKey = JStr (lit ''key'')\<rparr>"
  let ?e = "\<lparr>articles = eight_articles, totalArticles = Finite 1000, lastFetchSize = Finite 10,
             hasMore = False\<rparr>"
  have pi: "parseInt (JStr (lit ''1.5'')) = Inr (Finite 1)"
    by (rule parseInt_examples(1))
  have s1: "searchNews client_gnews upstream_eight (JStr (lit ''climate''))
        [(lit ''page'', JStr (lit ''1.5''))]
      = search_with client_gnews upstream_eight ?p (lit ''climate'') [] (Finite 1) (Finite 10)"
    using searchNews_valid[of "lit ''climate''" "[(lit ''page'', JStr (lit ''1.5''))]"
        "Finite 1" "Finite 10" client_gnews ?p upstream_eight]
    by (simp add: options_page_15 trim_climate climate_nonempty with_default_def parseInt_default
        pi valid_count_examples getProvider_client_gnews del: get_prop.simps)
  have r1: "search_with client_gnews upstream_eight ?p (lit ''climate'') [] (Finite 1) (Finite 10)
      = (Inr (page_response ?p ?e (Finite 1) (Finite 10)), client_page1, [call_climate])"
    using search_with_miss_gnews[where upstream=upstream_eight and c=client_gnews and p="?p"
        and q="lit ''climate''" and so="[]" and result=gnews_result and xs=eight_articles
        and pageNum="Finite 1" and limitNum="Finite 10"]
    by (simp add: articleCache_client_gnews upstream_eight_def gnews_result_def client_page1_def
        call_climate_def climate_key_def num_or_def num_truthy_def obj_rest_empty)
  show ?thesis using pi s1 r1 page_15_response by (simp add: createPaginatedResponse_fields)
qed

text \<open>
  Claim C9, amended. For a query that has a word, \<open>searchNews\<close> first reads \<open>page\<close>
  (1 when absent) and then \<open>limit\<close> (10 when absent) with \<open>parseInt\<close>. If either cannot
  be converted to a string, the call throws that TypeError. Otherwise it rejects \<open>page\<close>
  exactly when \<open>parseInt\<close> read \<open>NaN\<close> or a number below 1 from it, and then \<open>limit\<close>
  likewise: the error is an InvalidQueryError of status 400 whose message is the reason
  followed by the offending value between quotes. In each of these cases the client is
  unchanged and no provider is resolved or called. Otherwise the call goes on to resolve
  the provider and to search with the numbers read. The numbers let through are the
  integers from 1 up, and \<open>Infinity\<close>. \<open>parseInt\<close> reads every integer Number between
  \<open>-2^53\<close> and \<open>2^53 - 1\<close> as itself, and from a string the nearest double of its leading
  digits: 1 from \<open>'1.5'\<close>, 2 from \<open>'2abc'\<close>, \<open>9007199254740992\<close> from
  \<open>'9007199254740993'\<close>; it throws on an object with a \<open>toString\<close> property of its own.
\<close>

theorem page_limit_validation:
  assumes "trim q \<noteq> []"
  shows "(\<forall>e. parseInt (with_default (get_prop (JObj options) ''page'') (JNum 1)) = Inl e
          \<longrightarrow> searchNews c upstream (JStr q) options = (Inl e, c, []))
    \<and> (\<forall>pageNum e.
          parseInt (with_default (get_prop (JObj options) ''page'') (JNum 1)) = Inr pageNum
          \<and> parseInt (with_default (get_prop (JObj options) ''limit'') (JNum 10)) = Inl e
          \<longrightarrow> searchNews c upstream (JStr q) options = (Inl e, c, []))
    \<and> (\<forall>pageNum limitNum.
          parseInt (with_default (get_prop (JObj options) ''page'') (JNum 1)) = Inr pageNum
          \<and> parseInt (with_default (get_prop (JObj options) ''limit'') (JNum 10)) = Inr limitNum
          \<and> \<not> valid_count pageNum
          \<longrightarrow> (\<exists>s. to_jstring (with_default (get_prop (JObj options) ''page'') (JNum 1)) = Inr s
                \<and> searchNews c upstream (JStr q) options
                  = (Inl (InvalidQueryError
                            (with_default (get_prop (JObj options) ''page'') (JNum 1))
                            (lit ''Page must be a positive integer'' @ lit '': '' @ [39] @ s
                             @ [39])), c, [])))
    \<and> (\<forall>pageNum limitNum.
          parseInt (with_default (get_prop (JObj options) ''page'') (JNum 1)) = Inr pageNum
          \<and> parseInt (with_default (get_prop (JObj options) ''limit'') (JNum 10)) = Inr limitNum
          \<and> valid_count pageNum \<and> \<not> valid_count limitNum
          \<longrightarrow> (\<exists>s. to_jstring (with_default (get_prop (JObj options) ''limit'') (JNum 10)) = Inr s
                \<and> searchNews c upstream (JStr q) options
                  = (Inl (InvalidQueryError
                            (with_default (get_prop (JObj options) ''limit'') (JNum 10))
                            (lit ''Limit must be between 1 or more'' @ lit '': '' @ [39] @ s
                             @ [39])), c, [])))
    \<and> (\<forall>pageNum limitNum.
          parseInt (with_default (get_prop (JObj options) ''page'') (JNum 1)) = Inr pageNum
          \<and> parseInt (with_default (get_prop (JObj options) ''limit'') (JNum 10)) = Inr limitNum
          \<and> valid_count pageNum \<and> valid_count limitNum
          \<longrightarrow> searchNews c upstream (JStr q) options
              = (case getProvider c (get_prop (JObj options) ''provider'') of
                   Inl e \<Rightarrow> (Inl e, c, [])
                 | Inr p \<Rightarrow> search_with c upstream p (trim q)
                             (obj_rest [''provider'', ''page'', ''limit''] options)
                             pageNum limitNum))
    \<and> (\<forall>v m. statusCode (InvalidQueryError v m) = Some 400
          \<and> message (InvalidQueryError v m) = m)
    \<and> (\<forall>a. valid_count a \<longleftrightarrow> a = PosInf \<or> (\<exists>n. a = Finite n \<and> 1 \<le> n))
    \<and> (\<forall>n. parseInt (JNum n) = Inr (Finite (sint n)))
    \<and> parseInt (JStr (lit ''1.5'')) = Inr (Finite 1)
    \<and> parseInt (JStr (lit ''2abc'')) = Inr (Finite 2)
    \<and> parseInt (JStr (lit ''9007199254740993'')) = Inr (Finite 9007199254740992)
    \<and> (\<forall>kvs. map_of kvs (lit ''toString'') \<noteq> None
          \<longrightarrow> parseInt (JObj kvs)
              = Inl (TypeError (lit ''Cannot convert object to primitive value'')))"
proof -
  let ?page = "with_default (get_prop (JObj options) ''page'') (JNum 1)"
  let ?lim = "with_default (get_prop (JObj options) ''limit'') (JNum 10)"
  have 1: "\<forall>e. parseInt ?page = Inl e
          \<longrightarrow> searchNews c upstream (JStr q) options = (Inl e, c, [])"
    using searchNews_page_throws[OF assms] by blast
  have 2: "\<forall>pageNum e. parseInt ?page = Inr pageNum \<and> parseInt ?lim = Inl e
          \<longrightarrow> searchNews c upstream (JStr q) options = (Inl e, c, [])"
    using searchNews_limit_throws[OF assms] by blast
  have 3: "\<forall>pageNum limitNum.
          parseInt ?page = Inr pageNum \<and> parseInt ?lim = Inr limitNum \<and> \<not> valid_count pageNum
          \<longrightarrow> (\<exists>s. to_jstring ?page = Inr s
                \<and> searchNews c upstream (JStr q) options
                  = (Inl (InvalidQueryError ?page
                            (lit ''Page must be a positive integer'' @ lit '': '' @ [39] @ s
                             @ [39])), c, []))"
  proof (intro allI impI)
    fix pageNum limitNum
    assume a: "parseInt ?page = Inr pageNum \<and> parseInt ?lim = Inr limitNum
               \<and> \<not> valid_count pageNum"
    then obtain s where s: "to_jstring ?page = Inr s" using parseInt_converts by blast
    have "searchNews c upstream (JStr q) options
        = (Inl (throw_InvalidQueryError ?page (lit ''Page must be a positive integer'')), c, [])"
      by (rule searchNews_page_invalid[OF assms a[THEN conjunct1]
            a[THEN conjunct2, THEN conjunct1] a[THEN conjunct2, THEN conjunct2]])
    then show "\<exists>s. to_jstring ?page = Inr s
                \<and> searchNews c upstream (JStr q) options
                  = (Inl (InvalidQueryError ?page
                            (lit ''Page must be a positive integer'' @ lit '': '' @ [39] @ s
                             @ [39])), c, [])"
      using s throw_InvalidQueryError_converts[OF s] by simp
  qed
  have 4: "\<forall>pageNum limitNum.
          parseInt ?page = Inr pageNum \<and> parseInt ?lim = Inr limitNum
          \<and> valid_count pageNum \<and> \<not> valid_count limitNum
          \<longrightarrow> (\<exists>s. to_jstring ?lim = Inr s
                \<and> searchNews c upstream (JStr q) options
                  = (Inl (InvalidQueryError ?lim
                            (lit ''Limit must be between 1 or more'' @ lit '': '' @ [39] @ s
                             @ [39])), c, []))"
  proof (intro allI impI)
    fix pageNum limitNum
    assume a: "parseInt ?page = Inr pageNum \<and> parseInt ?lim = Inr limitNum
               \<and> valid_count pageNum \<and> \<not> valid_count limitNum"
    then obtain s where s: "to_jstring ?lim = Inr s" using parseInt_converts by blast
    have "searchNews c upstream (JStr q) options
        = (Inl (throw_InvalidQueryError ?lim (lit ''Limit must be between 1 or more'')), c, [])"
      by (rule searchNews_limit_invalid[OF assms a[THEN conjunct1]
            a[THEN conjunct2, THEN conjunct1] a[THEN conjunct2, THEN conjunct2, THEN conjunct1]
            a[THEN conjunct2, THEN conjunct2, THEN conjunct2]])
    then show "\<exists>s. to_jstring ?lim = Inr s
                \<and> searchNews c upstream (JStr q) options
                  = (Inl (InvalidQueryError ?lim
                            (lit ''Limit must be between 1 or more'' @ lit '': '' @ [39] @ s
                             @ [39])), c, [])"
      using s throw_InvalidQueryError_converts[OF s] by simp
  qed
  have 5: "\<forall>pageNum limitNum.
          parseInt ?page = Inr pageNum \<and> parseInt ?lim = Inr limitNum
          \<and> valid_count pageNum \<and> valid_count limitNum
          \<longrightarrow> searchNews c upstream (JStr q) options
              = (case getProvider c (get_prop (JObj options) ''provider'') of
                   Inl e \<Rightarrow> (Inl e, c, [])
                 | Inr p \<Rightarrow> search_with c upstream p (trim q)
                             (obj_rest [''provider'', ''page'', ''limit''] options)
                             pageNum limitNum)"
    using searchNews_valid_case[OF assms] by blast
  have 6: "\<forall>v m. statusCode (InvalidQueryError v m) = Some 400
          \<and> message (InvalidQueryError v m) = m"
    by simp
  have 7: "\<forall>a. valid_count a \<longleftrightarrow> a = PosInf \<or> (\<exists>n. a = Finite n \<and> 1 \<le> n)"
    using valid_count_cases by blast
  have 8: "\<forall>n. parseInt (JNum n) = Inr (Finite (sint n))"
    using parseInt_JNum by blast
  have 9: "\<forall>kvs. map_of kvs (lit ''toString'') \<noteq> None
          \<longrightarrow> parseInt (JObj kvs)
              = Inl (TypeError (lit ''Cannot convert object to primitive value''))"
    using parseInt_unconvertible by blast
  show ?thesis
    using 1 2 3 4 5 6 7 8 9 parseInt_examples(1) parseInt_examples(2) parseInt_rounds
    by (intro conjI)
qed

lemma options_examples:
  "get_prop (JObj [(lit ''page'', JStr (lit ''abc''))]) ''page'' = JStr (lit ''abc'')"
  "get_prop (JObj [(lit ''page'', JStr (lit ''abc''))]) ''limit'' = JUndefined"
  "get_prop (JObj [(lit ''limit'', JStr (lit ''0''))]) ''page'' = JUndefined"
  "get_prop (JObj [(lit ''limit'', JStr (lit ''0''))]) ''limit'' = JStr (lit ''0'')"
  "get_prop (JObj [(lit ''page'', JObj [(lit ''toString'', JStr (lit ''1''))])]) ''page''
   = JObj [(lit ''toString'', JStr (lit ''1''))]"
  "map_of [(lit ''toString'', JStr (lit ''1''))] (lit ''toString'') \<noteq> None"
  by (simp_all add: lit_def)

theorem page_limit_validation_witness:
  "trim (lit ''climate'') \<noteq> []
   \<and> parseInt (JStr (lit ''abc'')) = Inr NaN
   \<and> searchNews client_none upstream_eight (JStr (lit ''climate''))
       [(lit ''page'', JStr (lit ''abc''))]
       = (Inl (InvalidQueryError (JStr (lit ''abc''))
                 (lit ''Page must be a positive integer'' @ lit '': '' @ [39] @ lit ''abc''
                  @ [39])), client_none, [])
   \<and> parseInt (JStr (lit ''0'')) = Inr (Finite 0)
   \<and> searchNews client_none upstream_eight (JStr (lit ''climate''))
       [(lit ''limit'', JStr (lit ''0''))]
       = (Inl (InvalidQueryError (JStr (lit ''0''))
                 (lit ''Limit must be between 1 or more'' @ lit '': '' @ [39] @ lit ''0''
                  @ [39])), client_none, [])
   \<and> searchNews client_none upstream_eight (JStr (lit ''climate''))
       [(lit ''page'', JObj [(lit ''toString'', JStr (lit ''1''))])]
       = (Inl (TypeError (lit ''Cannot convert object to primitive value'')), client_none, [])"
proof -
  have t: "trim (lit ''climate'') \<noteq> []" by (simp add: trim_climate climate_nonempty)
  note o = options_examples
  note r = page_limit_validation[OF t, of _ client_none upstream_eight]
  note r1 = r[of "[(lit ''page'', JStr (lit ''abc''))]", THEN conjunct2, THEN conjunct2,
      THEN conjunct1, rule_format, of NaN "Finite 10"]
  note r2 = r[of "[(lit ''limit'', JStr (lit ''0''))]", THEN conjunct2, THEN conjunct2,
      THEN conjunct2, THEN conjunct1, rule_format, of "Finite 1" "Finite 0"]
  note r3 = r[of "[(lit ''page'', JObj [(lit ''toString'', JStr (lit ''1''))])]",
      THEN conjunct1, rule_format,
      of "TypeError (lit ''Cannot convert object to primitive value'')"]
  have a: "searchNews client_none upstream_eight (JStr (lit ''climate''))
       [(lit ''page'', JStr (lit ''abc''))]
       = (Inl (InvalidQueryError (JStr (lit ''abc''))
                 (lit ''Page must be a positive integer'' @ lit '': '' @ [39] @ lit ''abc''
                  @ [39])), client_none, [])"
    using r1
    by (simp add: o(1) o(2) with_default_def parseInt_examples parseInt_default
        valid_count_examples del: get_prop.simps)
  have b: "searchNews client_none upstream_eight (JStr (lit ''climate''))
       [(lit ''limit'', JStr (lit ''0''))]
       = (Inl (InvalidQueryError (JStr (lit ''0''))
                 (lit ''Limit must be between 1 or more'' @ lit '': '' @ [39] @ lit ''0''
                  @ [39])), client_none, [])"
    using r2
    by (simp add: o(3) o(4) with_default_def parseInt_examples parseInt_default
        valid_count_examples del: get_prop.simps)
  have d: "searchNews client_none upstream_eight (JStr (lit ''climate''))
       [(lit ''page'', JObj [(lit ''toString'', JStr (lit ''1''))])]
       = (Inl (TypeError (lit ''Cannot convert object to primitive value'')), client_none, [])"
    using r3 parseInt_unconvertible[OF o(6)]
    by (simp add: o(5) with_default_def del: get_prop.simps)
  show ?thesis using t a b d parseInt_examples(5) parseInt_examples(6) by (intro conjI)
qed


end
